(* ===== verification/Prelude.thy ===== *)
theory Prelude
  imports Main "HOL-Library.Word" "HOL-Library.Signed_Division"
begin

unbundle bit_operations_syntax

text \<open>
  What the component theories share: the names of Rust's machine integers, the outcome
  of a Rust call (a value, an \<open>Err\<close>, or a panic), state passing with early exit,
  the invariants such code preserves, little- and big-endian byte conversions, and
  generic facts on lists and words.

  Conventions. \<open>u8\<close>..\<open>u64\<close> and \<open>i32\<close>, \<open>i64\<close> are words of their width (signed values
  are read with \<open>sint\<close>). \<open>usize\<close> is \<open>nat\<close>; the target has 64-bit addresses and
  \<open>usize_limit\<close> is the first value that does not fit. An arithmetic operation that the
  source writes with \<open>+\<close>, \<open>-\<close>, \<open><<\<close> and that overflows is \<open>Panic\<close>, as it is in a
  build with overflow checks; operations the source names \<open>wrapping_*\<close>, casts with
  \<open>as\<close> and atomic \<open>fetch_add\<close> wrap around.
\<close>

section \<open>Machine integers\<close>

type_synonym u8 = "8 word"
type_synonym u16 = "16 word"
type_synonym u32 = "32 word"
type_synonym u64 = "64 word"
type_synonym i32 = "32 word"
type_synonym i64 = "64 word"
type_synonym usize = nat

definition usize_limit :: nat where
  "usize_limit = 2 ^ 64"

definition checked_add :: "usize \<Rightarrow> usize \<Rightarrow> usize option" where
  "checked_add a b = (if a + b < usize_limit then Some (a + b) else None)"

definition checked_add_u32 :: "u32 \<Rightarrow> u32 \<Rightarrow> u32 option" where
  "checked_add_u32 a b = (if unat a + unat b < 2 ^ 32 then Some (a + b) else None)"

lemma checked_add_Some:
  "checked_add a b = Some c \<longleftrightarrow> c = a + b \<and> a + b < usize_limit"
  by (auto simp: checked_add_def)

lemma checked_add_None: "checked_add a b = None \<longleftrightarrow> usize_limit \<le> a + b"
  by (auto simp: checked_add_def)

lemma checked_add_u32_Some:
  "checked_add_u32 a b = Some c \<longleftrightarrow> c = a + b \<and> unat a + unat b < 2 ^ 32"
  by (auto simp: checked_add_u32_def)

lemma unat_checked_add_u32:
  "checked_add_u32 a b = Some c \<Longrightarrow> unat c = unat a + unat b"
  by (auto simp: checked_add_u32_def unat_word_ariths split: if_splits)

lemma unat_lt_limit: "unat (x :: 'a::len word) < 2 ^ LENGTH('a)"
  by (rule unsigned_less)

lemma unat_u32_lt [simp]: "unat (x :: u32) < 4294967296"
  using unat_lt_limit [of x] by simp

lemma unat_u64_lt [simp]: "unat (x :: u64) < 18446744073709551616"
  using unat_lt_limit [of x] by simp

lemma unat_of_nat_small: "n < 2 ^ LENGTH('a) \<Longrightarrow> unat (of_nat n :: 'a::len word) = n"
  by (simp add: unat_of_nat take_bit_nat_eq_self)

lemma unat_neq: "x \<noteq> y \<longleftrightarrow> unat x \<noteq> unat y"
  by (simp add: word_unat_eq_iff)

section \<open>Outcomes\<close>

text \<open>Rust's \<open>Result\<close> with the third way a call can end: a panic.\<close>

datatype ('e, 'a) result = Ok 'a | Err 'e | Panic

primrec map_err :: "('e \<Rightarrow> 'f) \<Rightarrow> ('e, 'a) result \<Rightarrow> ('f, 'a) result" where
  "map_err f (Ok a) = Ok a"
| "map_err f (Err e) = Err (f e)"
| "map_err f Panic = Panic"

primrec ok_or :: "'e \<Rightarrow> 'a option \<Rightarrow> ('e, 'a) result" where
  "ok_or e None = Err e"
| "ok_or e (Some a) = Ok a"

lemma ok_or_Ok [simp]: "ok_or e x = Ok a \<longleftrightarrow> x = Some a"
  by (cases x) auto

lemma ok_or_not_Panic [simp]: "ok_or e x \<noteq> Panic"
  by (cases x) auto

lemma map_err_Ok [simp]: "map_err f r = Ok a \<longleftrightarrow> r = Ok a"
  by (cases r) auto

lemma map_err_Panic [simp]: "map_err f r = Panic \<longleftrightarrow> r = Panic"
  by (cases r) auto

primrec and_then :: "('e, 'a) result \<Rightarrow> ('a \<Rightarrow> ('e, 'b) result) \<Rightarrow> ('e, 'b) result" where
  "and_then (Ok a) f = f a"
| "and_then (Err e) f = Err e"
| "and_then Panic f = Panic"

lemma and_then_Ok [simp]:
  "and_then r f = Ok b \<longleftrightarrow> (\<exists>a. r = Ok a \<and> f a = Ok b)"
  by (cases r) auto

section \<open>State passing with early exit\<close>

text \<open>
  A method on \<open>&mut self\<close> that returns a \<open>Result\<close>: the state is returned also when
  the call fails, since what was changed before the error stays changed.
\<close>

type_synonym ('s, 'e, 'a) st = "'s \<Rightarrow> ('e, 'a) result \<times> 's"

definition ret :: "'a \<Rightarrow> ('s, 'e, 'a) st" where
  "ret a = (\<lambda>s. (Ok a, s))"

definition throw :: "'e \<Rightarrow> ('s, 'e, 'a) st" where
  "throw e = (\<lambda>s. (Err e, s))"

definition panic :: "('s, 'e, 'a) st" where
  "panic = (\<lambda>s. (Panic, s))"

definition bind :: "('s, 'e, 'a) st \<Rightarrow> ('a \<Rightarrow> ('s, 'e, 'b) st) \<Rightarrow> ('s, 'e, 'b) st" where
  "bind m f = (\<lambda>s. case m s of
     (Ok a, s') \<Rightarrow> f a s' | (Err e, s') \<Rightarrow> (Err e, s') | (Panic, s') \<Rightarrow> (Panic, s'))"

definition seq :: "('s, 'e, 'a) st \<Rightarrow> ('s, 'e, 'b) st \<Rightarrow> ('s, 'e, 'b) st" where
  "seq m n = bind m (\<lambda>_. n)"

definition gets :: "('s \<Rightarrow> 'a) \<Rightarrow> ('s, 'e, 'a) st" where
  "gets f = (\<lambda>s. (Ok (f s), s))"

definition modify :: "('s \<Rightarrow> 's) \<Rightarrow> ('s, 'e, unit) st" where
  "modify f = (\<lambda>s. (Ok (), f s))"

definition lift :: "('e, 'a) result \<Rightarrow> ('s, 'e, 'a) st" where
  "lift r = (\<lambda>s. (r, s))"

text \<open>\<open>for x in xs { f(x)?; }\<close>\<close>

fun for_each :: "'a list \<Rightarrow> ('a \<Rightarrow> ('s, 'e, unit) st) \<Rightarrow> ('s, 'e, unit) st" where
  "for_each [] f = ret ()"
| "for_each (x # xs) f = seq (f x) (for_each xs f)"

text \<open>The value of \<open>f\<close> applied \<open>n\<close> times, in order (\<open>for _ in 0..n { v.push(f()?) }\<close>).\<close>

fun repeat_st :: "nat \<Rightarrow> ('s, 'e, 'a) st \<Rightarrow> ('s, 'e, 'a list) st" where
  "repeat_st 0 m = ret []"
| "repeat_st (Suc n) m = bind m (\<lambda>x. bind (repeat_st n m) (\<lambda>xs. ret (x # xs)))"

lemmas st_defs = ret_def throw_def panic_def bind_def seq_def gets_def modify_def lift_def

lemma bind_apply:
  "bind m f s = (case m s of
     (Ok a, s') \<Rightarrow> f a s' | (Err e, s') \<Rightarrow> (Err e, s') | (Panic, s') \<Rightarrow> (Panic, s'))"
  by (simp add: bind_def)

lemma bind_Ok_iff:
  "bind m f s = (Ok b, s'') \<longleftrightarrow> (\<exists>a s'. m s = (Ok a, s') \<and> f a s' = (Ok b, s''))"
  by (auto simp: bind_def split: prod.splits result.splits)

lemma seq_Ok_iff:
  "seq m n s = (Ok b, s'') \<longleftrightarrow> (\<exists>a s'. m s = (Ok a, s') \<and> n s' = (Ok b, s''))"
  by (simp add: seq_def bind_Ok_iff)

lemma ret_apply [simp]: "ret a s = (Ok a, s)"
  by (simp add: ret_def)

lemma throw_apply [simp]: "throw e s = (Err e, s)"
  by (simp add: throw_def)

lemma panic_apply [simp]: "panic s = (Panic, s)"
  by (simp add: panic_def)

lemma gets_apply [simp]: "gets f s = (Ok (f s), s)"
  by (simp add: gets_def)

lemma modify_apply [simp]: "modify f s = (Ok (), f s)"
  by (simp add: modify_def)

lemma lift_apply [simp]: "lift r s = (r, s)"
  by (simp add: lift_def)

section \<open>Invariants of state-passing code\<close>

text \<open>
  \<open>preserves R m\<close>: whatever its outcome, \<open>m\<close> ends in a state related by \<open>R\<close> to the one
  it started in. With \<open>R\<close> reflexive and transitive this composes along \<open>bind\<close>; the
  collection \<open>pres\<close> holds the rules, so that the invariant of a long instruction
  follows from those of its parts.
\<close>

named_theorems pres

definition preserves :: "('s \<Rightarrow> bool) \<Rightarrow> ('s, 'e, 'a) st \<Rightarrow> bool" where
  "preserves P m \<longleftrightarrow> (\<forall>s. P s \<longrightarrow> P (snd (m s)))"

lemma preservesI: "(\<And>s. P s \<Longrightarrow> P (snd (m s))) \<Longrightarrow> preserves P m"
  by (simp add: preserves_def)

lemma preservesD: "preserves P m \<Longrightarrow> P s \<Longrightarrow> m s = (r, s') \<Longrightarrow> P s'"
  by (metis preserves_def snd_conv)

lemma preserves_ret [pres]: "preserves P (ret a)"
  by (simp add: preserves_def)

lemma preserves_throw [pres]: "preserves P (throw e)"
  by (simp add: preserves_def)

lemma preserves_panic [pres]: "preserves P panic"
  by (simp add: preserves_def)

lemma preserves_gets [pres]: "preserves P (gets f)"
  by (simp add: preserves_def)

lemma preserves_lift [pres]: "preserves P (lift r)"
  by (simp add: preserves_def)

lemma preserves_modify: "(\<And>s. P s \<Longrightarrow> P (f s)) \<Longrightarrow> preserves P (modify f)"
  by (simp add: preserves_def)

lemma preserves_bind [pres]:
  "preserves P m \<Longrightarrow> (\<And>a. preserves P (f a)) \<Longrightarrow> preserves P (bind m f)"
  by (fastforce simp: preserves_def bind_def split: prod.splits result.splits)

lemma preserves_seq [pres]:
  "preserves P m \<Longrightarrow> preserves P n \<Longrightarrow> preserves P (seq m n)"
  unfolding seq_def by (rule preserves_bind)

lemma preserves_if [pres]:
  "(b \<Longrightarrow> preserves P m) \<Longrightarrow> (\<not> b \<Longrightarrow> preserves P n) \<Longrightarrow> preserves P (if b then m else n)"
  by simp

lemma preserves_case_option [pres]:
  "preserves P m \<Longrightarrow> (\<And>a. preserves P (f a)) \<Longrightarrow>
     preserves P (case x of None \<Rightarrow> m | Some a \<Rightarrow> f a)"
  by (cases x) auto

lemma preserves_case_prod [pres]:
  "(\<And>a b. preserves P (f a b)) \<Longrightarrow> preserves P (case x of (a, b) \<Rightarrow> f a b)"
  by (cases x) auto

lemma preserves_case_result [pres]:
  "(\<And>a. preserves P (f a)) \<Longrightarrow> (\<And>e. preserves P (g e)) \<Longrightarrow> preserves P h \<Longrightarrow>
     preserves P (case x of Ok a \<Rightarrow> f a | Err e \<Rightarrow> g e | Panic \<Rightarrow> h)"
  by (cases x) auto

lemma preserves_let [pres]: "preserves P (f a) \<Longrightarrow> preserves P (let x = a in f x)"
  by simp

lemma preserves_for_each [pres]:
  "(\<And>x. x \<in> set xs \<Longrightarrow> preserves P (f x)) \<Longrightarrow> preserves P (for_each xs f)"
  by (induction xs) (auto intro!: pres)

lemma preserves_repeat_st [pres]: "preserves P m \<Longrightarrow> preserves P (repeat_st n m)"
  by (induction n) (auto intro!: pres)

section \<open>Bytes\<close>

text \<open>
  \<open>to_le_bytes\<close> and \<open>from_le_bytes\<close> of the integer types, for a word of any width: the
  first \<open>n\<close> bytes of a word, least significant first, and the word they denote.
\<close>

primrec to_le :: "nat \<Rightarrow> 'a::len word \<Rightarrow> u8 list" where
  "to_le 0 w = []"
| "to_le (Suc n) w = ucast w # to_le n (drop_bit 8 w)"

primrec from_le :: "u8 list \<Rightarrow> 'a::len word" where
  "from_le [] = 0"
| "from_le (b # bs) = ucast b OR push_bit 8 (from_le bs)"

lemma length_to_le [simp]: "length (to_le n w) = n"
  by (induction n arbitrary: w) auto

lemma bit_from_le:
  "bit (from_le bs :: 'a::len word) k \<longleftrightarrow>
     k < LENGTH('a) \<and> k div 8 < length bs \<and> bit (bs ! (k div 8)) (k mod 8)"
proof (induction bs arbitrary: k)
  case Nil
  then show ?case by simp
next
  case (Cons b bs)
  show ?case
  proof (cases "k < 8")
    case True
    then show ?thesis
      by (auto simp: bit_or_iff bit_push_bit_iff bit_ucast_iff dest: bit_imp_le_length)
  next
    case False
    then obtain j where j: "k = j + 8" by (metis add.commute le_Suc_ex not_less)
    have nb: "\<not> bit b (j + 8)" by (auto dest: bit_imp_le_length)
    have d: "(j + 8) div 8 = Suc (j div 8)" by simp
    show ?thesis
      using Cons.IH [of j] nb
      by (auto simp: j d bit_or_iff bit_push_bit_iff bit_ucast_iff)
  qed
qed

lemma from_le_to_le_take: "from_le (to_le n w) = take_bit (8 * n) w"
proof (induction n arbitrary: w)
  case 0
  then show ?case by simp
next
  case (Suc n)
  show ?case
    by (rule bit_word_eqI)
      (auto simp: Suc bit_or_iff bit_push_bit_iff bit_ucast_iff bit_take_bit_iff bit_drop_bit_eq
         dest: bit_imp_le_length)
qed

lemma from_le_to_le: "LENGTH('a) \<le> 8 * n \<Longrightarrow> from_le (to_le n w) = (w :: 'a::len word)"
  by (simp add: from_le_to_le_take take_bit_word_eq_self)

lemma to_le_from_le:
  "8 * length bs \<le> LENGTH('a) \<Longrightarrow> to_le (length bs) (from_le bs :: 'a::len word) = bs"
proof (induction bs)
  case Nil
  then show ?case by simp
next
  case (Cons b bs)
  let ?w = "from_le bs :: 'a word"
  from Cons.prems have len: "8 + 8 * length bs \<le> LENGTH('a)" by simp
  have hi: "\<not> bit ?w k" if "8 * length bs \<le> k" for k
    using that by (auto simp: bit_from_le)
  have low: "ucast (ucast b OR push_bit 8 ?w :: 'a word) = b"
    using len
    by (intro bit_word_eqI)
      (auto simp: bit_or_iff bit_push_bit_iff bit_ucast_iff dest: bit_imp_le_length)
  have high: "drop_bit 8 (ucast b OR push_bit 8 ?w :: 'a word) = ?w"
    using len hi
    by (intro bit_word_eqI)
      (force simp: bit_or_iff bit_push_bit_iff bit_ucast_iff bit_drop_bit_eq
         dest: bit_imp_le_length)
  from Cons.IH len have "to_le (length bs) ?w = bs" by simp
  then show ?case by (simp add: low high del: drop_bit_or)
qed

text \<open>\<open>to_be_bytes\<close> and \<open>from_be_bytes\<close>: the same bytes, most significant first.\<close>

definition to_be :: "nat \<Rightarrow> 'a::len word \<Rightarrow> u8 list" where
  "to_be n w = rev (to_le n w)"

definition from_be :: "u8 list \<Rightarrow> 'a::len word" where
  "from_be bs = from_le (rev bs)"

lemma length_to_be [simp]: "length (to_be n w) = n"
  by (simp add: to_be_def)

lemma from_be_to_be: "LENGTH('a) \<le> 8 * n \<Longrightarrow> from_be (to_be n w) = (w :: 'a::len word)"
  by (simp add: from_be_def to_be_def from_le_to_le)

section \<open>Lists\<close>

text \<open>\<open>data[off..off + len(bs)].copy_from_slice(bs)\<close>, for a range inside the list.\<close>

definition put_slice :: "'a list \<Rightarrow> nat \<Rightarrow> 'a list \<Rightarrow> 'a list" where
  "put_slice xs off bs = take off xs @ bs @ drop (off + length bs) xs"

definition get_slice :: "'a list \<Rightarrow> nat \<Rightarrow> nat \<Rightarrow> 'a list" where
  "get_slice xs off n = take n (drop off xs)"

lemma length_put_slice [simp]: "off + length bs \<le> length xs \<Longrightarrow> length (put_slice xs off bs) = length xs"
  by (simp add: put_slice_def)

lemma length_get_slice [simp]: "off + n \<le> length xs \<Longrightarrow> length (get_slice xs off n) = n"
  by (simp add: get_slice_def)

lemma get_put_slice_same:
  "off + length bs \<le> length xs \<Longrightarrow> get_slice (put_slice xs off bs) off (length bs) = bs"
  by (simp add: get_slice_def put_slice_def)

lemma nth_put_slice:
  assumes "off + length bs \<le> length xs" and "i < length xs"
  shows "put_slice xs off bs ! i =
    (if off \<le> i \<and> i < off + length bs then bs ! (i - off) else xs ! i)"
  using assms by (auto simp: put_slice_def nth_append)

lemma get_put_slice_disjoint:
  assumes "off + length bs \<le> length xs" and "a + n \<le> length xs"
    and "a + n \<le> off \<or> off + length bs \<le> a"
  shows "get_slice (put_slice xs off bs) a n = get_slice xs a n"
  using assms by (intro nth_equalityI) (auto simp: get_slice_def nth_put_slice)

lemma put_get_slice_same: "off + n \<le> length xs \<Longrightarrow> put_slice xs off (get_slice xs off n) = xs"
  by (intro nth_equalityI) (auto simp: nth_put_slice get_slice_def)

text \<open>\<open>Vec::get\<close>.\<close>

definition list_get :: "'a list \<Rightarrow> nat \<Rightarrow> 'a option" where
  "list_get xs i = (if i < length xs then Some (xs ! i) else None)"

lemma list_get_Some: "list_get xs i = Some x \<longleftrightarrow> i < length xs \<and> xs ! i = x"
  by (auto simp: list_get_def)

section \<open>Rust's integer operations\<close>

definition leading_zeros :: "'a::len word \<Rightarrow> nat" where
  "leading_zeros w = length (takeWhile (\<lambda>i. \<not> bit w i) (rev [0..<LENGTH('a)]))"

definition trailing_zeros :: "'a::len word \<Rightarrow> nat" where
  "trailing_zeros w = length (takeWhile (\<lambda>i. \<not> bit w i) [0..<LENGTH('a)])"

definition count_ones :: "'a::len word \<Rightarrow> nat" where
  "count_ones w = length (filter (bit w) [0..<LENGTH('a)])"


lemma count_ones_card: "count_ones w = card {i. bit w i}" for w :: "'a::len word"
proof -
  have "{i. bit w i} = set (filter (bit w) [0..<LENGTH('a)])"
    by (auto dest: bit_imp_le_length)
  then show ?thesis by (simp only: count_ones_def distinct_card distinct_filter distinct_upt)
qed

lemma trailing_zeros_le: "trailing_zeros w \<le> LENGTH('a)" for w :: "'a::len word"
  unfolding trailing_zeros_def by (metis length_takeWhile_le length_upt minus_nat.diff_0)

lemma trailing_zeros_below: "i < trailing_zeros w \<Longrightarrow> \<not> bit w i" for w :: "'a::len word"
  using nth_mem [of i "takeWhile (\<lambda>i. \<not> bit w i) [0..<LENGTH('a)]"] trailing_zeros_le [of w]
  by (auto simp: trailing_zeros_def takeWhile_nth dest!: set_takeWhileD)

lemma trailing_zeros_bit:
  fixes w :: "'a::len word"
  assumes "w \<noteq> 0"
  shows "trailing_zeros w < LENGTH('a)" and "bit w (trailing_zeros w)"
proof -
  obtain i where "bit w i" using assms by (metis bit_eq_iff bit_0_eq bot_apply bot_bool_def)
  then have "i < LENGTH('a)" "\<not> i < trailing_zeros w"
    by (auto dest: bit_imp_le_length trailing_zeros_below)
  then show less: "trailing_zeros w < LENGTH('a)" by simp
  have "length (takeWhile (\<lambda>i. \<not> bit w i) [0..<LENGTH('a)]) < length [0..<LENGTH('a)]"
    using less by (simp add: trailing_zeros_def)
  from nth_length_takeWhile [OF this] less show "bit w (trailing_zeros w)"
    by (simp add: trailing_zeros_def)
qed

lemma trailing_zeros_0: "trailing_zeros (0 :: 'a::len word) = LENGTH('a)"
  by (simp add: trailing_zeros_def takeWhile_eq_all_conv [THEN iffD2])

lemma leading_zeros_0: "leading_zeros (0 :: 'a::len word) = LENGTH('a)"
  by (simp add: leading_zeros_def takeWhile_eq_all_conv [THEN iffD2])

lemma leading_zeros_bits:
  fixes w :: "'a::len word"
  shows "LENGTH('a) - leading_zeros w \<le> i \<Longrightarrow> \<not> bit w i"
    and "w \<noteq> 0 \<Longrightarrow> leading_zeros w < LENGTH('a)"
    and "w \<noteq> 0 \<Longrightarrow> bit w (LENGTH('a) - 1 - leading_zeros w)"
proof -
  let ?xs = "rev [0..<LENGTH('a)]" and ?P = "\<lambda>i. \<not> bit w i"
  have len: "leading_zeros w \<le> LENGTH('a)"
    unfolding leading_zeros_def by (metis length_takeWhile_le length_rev length_upt minus_nat.diff_0)
  show above: "\<not> bit w i" if "LENGTH('a) - leading_zeros w \<le> i" for i
  proof (cases "i < LENGTH('a)")
    case True
    define k where "k = LENGTH('a) - 1 - i"
    have k: "k < leading_zeros w" using that True len by (auto simp: k_def)
    then have "takeWhile ?P ?xs ! k = i"
      using True by (simp add: leading_zeros_def takeWhile_nth rev_nth k_def)
    moreover have "takeWhile ?P ?xs ! k \<in> set (takeWhile ?P ?xs)"
      using k by (intro nth_mem) (simp add: leading_zeros_def)
    ultimately show ?thesis by (auto dest: set_takeWhileD)
  qed (auto dest: bit_imp_le_length)
  assume "w \<noteq> 0"
  then obtain i where "bit w i" by (metis bit_eq_iff bit_0_eq bot_apply bot_bool_def)
  then have "\<not> LENGTH('a) - leading_zeros w \<le> i" using above by blast
  then show less: "leading_zeros w < LENGTH('a)" by simp
  have "length (takeWhile ?P ?xs) < length ?xs"
    using less by (simp add: leading_zeros_def)
  from nth_length_takeWhile [OF this] less show "bit w (LENGTH('a) - 1 - leading_zeros w)"
    by (simp add: leading_zeros_def rev_nth)
qed

lemma leading_zeros_bounds:
  fixes w :: "'a::len word"
  assumes "w \<noteq> 0"
  shows "2 ^ (LENGTH('a) - 1 - leading_zeros w) \<le> unat w"
    and "unat w < 2 ^ (LENGTH('a) - leading_zeros w)"
proof -
  have "bit (unat w) (LENGTH('a) - 1 - leading_zeros w)"
    using leading_zeros_bits(3) [OF assms] by (simp add: bit_unsigned_iff)
  then show "2 ^ (LENGTH('a) - 1 - leading_zeros w) \<le> unat w"
    by (metis bit_take_bit_iff linorder_not_less order_less_irrefl take_bit_nat_eq_self)
  have "take_bit (LENGTH('a) - leading_zeros w) w = w"
  proof (rule bit_word_eqI)
    show "bit (take_bit (LENGTH('a) - leading_zeros w) w) n = bit w n" for n
      using leading_zeros_bits(1) [of w n]
      by (cases "n < LENGTH('a) - leading_zeros w") (simp_all only: bit_take_bit_iff not_less simp_thms)
  qed
  then have "take_bit (LENGTH('a) - leading_zeros w) (unat w) = unat w"
    by (metis unsigned_take_bit_eq)
  then show "unat w < 2 ^ (LENGTH('a) - leading_zeros w)"
    by (metis take_bit_nat_less_exp)
qed

section \<open>Printing numbers\<close>

text \<open>\<open>{}\<close> and \<open>{:x}\<close> of \<open>format!\<close>.\<close>

definition digit_char :: "nat \<Rightarrow> char" where
  "digit_char d = ''0123456789abcdef'' ! d"

fun show_base :: "nat \<Rightarrow> nat \<Rightarrow> string" where
  "show_base b n = (if b < 2 \<or> n < b then [digit_char n] else show_base b (n div b) @ [digit_char (n mod b)])"

declare show_base.simps [simp del]

definition show_nat :: "nat \<Rightarrow> string" where
  "show_nat n = show_base 10 n"

definition show_int :: "int \<Rightarrow> string" where
  "show_int i = (if i < 0 then CHR ''-'' # show_nat (nat (- i)) else show_nat (nat i))"

definition show_hex :: "nat \<Rightarrow> string" where
  "show_hex n = show_base 16 n"

section \<open>Strings\<close>

text \<open>Well-formed UTF-8, as \<open>from_utf8\<close> checks it: no overlong forms, no surrogates, nothing
  above U+10FFFF.\<close>

definition utf8_tail :: "u8 \<Rightarrow> bool" where
  "utf8_tail b \<longleftrightarrow> 0x80 \<le> b \<and> b \<le> 0xBF"

fun utf8_valid :: "u8 list \<Rightarrow> bool" where
  "utf8_valid [] = True"
| "utf8_valid (a # bs) =
     (if a < 0x80 then utf8_valid bs
      else if 0xC2 \<le> a \<and> a \<le> 0xDF then
        (case bs of b # cs \<Rightarrow> utf8_tail b \<and> utf8_valid cs | _ \<Rightarrow> False)
      else if 0xE0 \<le> a \<and> a \<le> 0xEF then
        (case bs of b # c # cs \<Rightarrow>
            utf8_tail b \<and> (a = 0xE0 \<longrightarrow> 0xA0 \<le> b) \<and> (a = 0xED \<longrightarrow> b \<le> 0x9F) \<and> utf8_tail c \<and> utf8_valid cs
         | _ \<Rightarrow> False)
      else if 0xF0 \<le> a \<and> a \<le> 0xF4 then
        (case bs of b # c # d # cs \<Rightarrow>
            utf8_tail b \<and> (a = 0xF0 \<longrightarrow> 0x90 \<le> b) \<and> (a = 0xF4 \<longrightarrow> b \<le> 0x8F) \<and> utf8_tail c \<and> utf8_tail d
            \<and> utf8_valid cs
         | _ \<Rightarrow> False)
      else False)"

definition string_of_bytes :: "u8 list \<Rightarrow> string" where
  "string_of_bytes bs = map (\<lambda>b. char_of (unat b)) bs"

end
