(* ===== verification/Wasm_Memory.thy ===== *)
theory Wasm_Memory
  imports Prelude
begin

unbundle bit_operations_syntax

text \<open>
  The linear memory of a WASM instance (runtime/src/memory.rs): creation, growth, and
  the bounds-checked reads and writes the executor is built on. The invariant
  \<open>mem_wf\<close> ties the byte vector to the page counter and the limits; the locale
  \<open>byte_codec\<close> is the contract of the integer byte conversions, from which the
  write/read round trips are proved once for every width.
\<close>

section \<open>Data\<close>

text \<open>The messages of \<open>RuntimeError::MemoryError\<close>, one constructor for each.\<close>

datatype memory_error =
    InitialExceedsMaximum
  | MaximumExceedsLimit
  | InitialPagesExceedMaximumPages
  | PageCountOverflow
  | WouldExceedMaximum
  | WouldExceedAbsoluteMaximum
  | AddressOverflow
  | AccessOutOfBounds usize usize usize
  | SliceOutOfBounds

definition PAGE_SIZE :: usize where
  "PAGE_SIZE = 65536"

definition MAX_MEMORY_SIZE :: usize where
  "MAX_MEMORY_SIZE = 4 * 1024 * 1024 * 1024"

record linear_memory =
  mem_data :: "u8 list"
  current_pages :: u32
  max_pages :: "u32 option"

section \<open>Operations\<close>

definition linear_memory_new :: "u32 \<Rightarrow> u32 option \<Rightarrow> (memory_error, linear_memory) result" where
  "linear_memory_new initial_pages maxp =
     (let initial_size = unat initial_pages * PAGE_SIZE in
      if initial_size > MAX_MEMORY_SIZE then Err InitialExceedsMaximum
      else case maxp of
             Some mx \<Rightarrow>
               if unat mx * PAGE_SIZE > MAX_MEMORY_SIZE then Err MaximumExceedsLimit
               else if initial_pages > mx then Err InitialPagesExceedMaximumPages
               else Ok \<lparr>mem_data = replicate initial_size 0, current_pages = initial_pages,
                        max_pages = maxp\<rparr>
           | None \<Rightarrow>
               Ok \<lparr>mem_data = replicate initial_size 0, current_pages = initial_pages,
                   max_pages = maxp\<rparr>)"

definition mem_size :: "linear_memory \<Rightarrow> usize" where
  "mem_size m = length (mem_data m)"

abbreviation mem_pages :: "linear_memory \<Rightarrow> u32" where
  "mem_pages m \<equiv> current_pages m"

definition mem_grow :: "u32 \<Rightarrow> (linear_memory, memory_error, u32) st" where
  "mem_grow delta_pages m =
     (case checked_add_u32 (current_pages m) delta_pages of
        None \<Rightarrow> (Err PageCountOverflow, m)
      | Some new_pages \<Rightarrow>
          if (case max_pages m of Some mx \<Rightarrow> new_pages > mx | None \<Rightarrow> False)
          then (Err WouldExceedMaximum, m)
          else let new_size = unat new_pages * PAGE_SIZE in
            if new_size > MAX_MEMORY_SIZE then (Err WouldExceedAbsoluteMaximum, m)
            else (Ok (current_pages m),
                  m\<lparr>mem_data := take new_size (mem_data m)
                       @ replicate (new_size - length (mem_data m)) 0,
                    current_pages := new_pages\<rparr>))"

definition check_bounds :: "linear_memory \<Rightarrow> usize \<Rightarrow> usize \<Rightarrow> (memory_error, unit) result" where
  "check_bounds m offset len =
     (case checked_add offset len of
        None \<Rightarrow> Err AddressOverflow
      | Some end \<Rightarrow>
          if end > length (mem_data m)
          then Err (AccessOutOfBounds offset len (length (mem_data m)))
          else Ok ())"

definition read_u8 :: "linear_memory \<Rightarrow> usize \<Rightarrow> (memory_error, u8) result" where
  "read_u8 m offset = and_then (check_bounds m offset 1) (\<lambda>_. Ok (mem_data m ! offset))"

definition read_u16 :: "linear_memory \<Rightarrow> usize \<Rightarrow> (memory_error, u16) result" where
  "read_u16 m offset = and_then (check_bounds m offset 2) (\<lambda>_.
     Ok (from_le [mem_data m ! offset, mem_data m ! (offset + 1)]))"

definition read_u32 :: "linear_memory \<Rightarrow> usize \<Rightarrow> (memory_error, u32) result" where
  "read_u32 m offset = and_then (check_bounds m offset 4) (\<lambda>_.
     Ok (from_le [mem_data m ! offset, mem_data m ! (offset + 1),
                  mem_data m ! (offset + 2), mem_data m ! (offset + 3)]))"

definition read_u64 :: "linear_memory \<Rightarrow> usize \<Rightarrow> (memory_error, u64) result" where
  "read_u64 m offset = and_then (check_bounds m offset 8) (\<lambda>_.
     Ok (from_le [mem_data m ! offset, mem_data m ! (offset + 1),
                  mem_data m ! (offset + 2), mem_data m ! (offset + 3),
                  mem_data m ! (offset + 4), mem_data m ! (offset + 5),
                  mem_data m ! (offset + 6), mem_data m ! (offset + 7)]))"

definition read_bytes :: "linear_memory \<Rightarrow> usize \<Rightarrow> usize \<Rightarrow> (memory_error, u8 list) result" where
  "read_bytes m offset len = and_then (check_bounds m offset len) (\<lambda>_.
     Ok (get_slice (mem_data m) offset len))"

definition write_u8 :: "usize \<Rightarrow> u8 \<Rightarrow> (linear_memory, memory_error, unit) st" where
  "write_u8 offset v m = seq (lift (check_bounds m offset 1))
     (modify (\<lambda>m. m\<lparr>mem_data := (mem_data m)[offset := v]\<rparr>)) m"

definition write_u16 :: "usize \<Rightarrow> u16 \<Rightarrow> (linear_memory, memory_error, unit) st" where
  "write_u16 offset v m = seq (lift (check_bounds m offset 2))
     (modify (\<lambda>m. m\<lparr>mem_data := ((mem_data m)[offset := to_le 2 v ! 0])
                                  [offset + 1 := to_le 2 v ! 1]\<rparr>)) m"

definition write_u32 :: "usize \<Rightarrow> u32 \<Rightarrow> (linear_memory, memory_error, unit) st" where
  "write_u32 offset v m = seq (lift (check_bounds m offset 4))
     (modify (\<lambda>m. m\<lparr>mem_data := put_slice (mem_data m) offset (to_le 4 v)\<rparr>)) m"

definition write_u64 :: "usize \<Rightarrow> u64 \<Rightarrow> (linear_memory, memory_error, unit) st" where
  "write_u64 offset v m = seq (lift (check_bounds m offset 8))
     (modify (\<lambda>m. m\<lparr>mem_data := put_slice (mem_data m) offset (to_le 8 v)\<rparr>)) m"

definition write_bytes :: "usize \<Rightarrow> u8 list \<Rightarrow> (linear_memory, memory_error, unit) st" where
  "write_bytes offset bytes m = seq (lift (check_bounds m offset (length bytes)))
     (modify (\<lambda>m. m\<lparr>mem_data := put_slice (mem_data m) offset bytes\<rparr>)) m"

definition mem_fill :: "usize \<Rightarrow> usize \<Rightarrow> u8 \<Rightarrow> (linear_memory, memory_error, unit) st" where
  "mem_fill offset len v m = seq (lift (check_bounds m offset len))
     (modify (\<lambda>m. m\<lparr>mem_data := put_slice (mem_data m) offset (replicate len v)\<rparr>)) m"

definition copy_within :: "usize \<Rightarrow> usize \<Rightarrow> usize \<Rightarrow> (linear_memory, memory_error, unit) st" where
  "copy_within src dst len m =
     seq (lift (check_bounds m src len)) (seq (lift (check_bounds m dst len))
       (modify (\<lambda>m. m\<lparr>mem_data := put_slice (mem_data m) dst (get_slice (mem_data m) src len)\<rparr>))) m"

text \<open>\<open>&self.data[range]\<close> panics when the range starts after it ends.\<close>

definition mem_slice :: "linear_memory \<Rightarrow> usize \<Rightarrow> usize \<Rightarrow> (memory_error, u8 list) result" where
  "mem_slice m start end =
     (if end > length (mem_data m) then Err SliceOutOfBounds
      else if start > end then Panic
      else Ok (get_slice (mem_data m) start (end - start)))"

lemmas mem_write_defs = write_u8_def write_u16_def write_u32_def write_u64_def write_bytes_def
  mem_fill_def copy_within_def

section \<open>The invariant\<close>

definition mem_wf :: "linear_memory \<Rightarrow> bool" where
  "mem_wf m \<longleftrightarrow> length (mem_data m) = unat (current_pages m) * PAGE_SIZE
     \<and> length (mem_data m) \<le> MAX_MEMORY_SIZE
     \<and> (case max_pages m of None \<Rightarrow> True | Some mx \<Rightarrow> current_pages m \<le> mx)"

lemma linear_memory_new_wf: "linear_memory_new ini mx = Ok m \<Longrightarrow> mem_wf m"
  by (auto simp: linear_memory_new_def mem_wf_def Let_def not_less
           split: if_splits option.splits)

lemma check_bounds_Ok:
  "mem_wf m \<Longrightarrow> check_bounds m off n = Ok u \<longleftrightarrow> off + n \<le> length (mem_data m)"
  by (auto simp: check_bounds_def checked_add_def mem_wf_def MAX_MEMORY_SIZE_def usize_limit_def
           split: option.splits if_splits)

lemma check_bounds_OkD: "check_bounds m off n = Ok u \<Longrightarrow> off + n \<le> length (mem_data m)"
  by (auto simp: check_bounds_def checked_add_def split: option.splits if_splits)

lemma check_bounds_not_Panic [simp]: "check_bounds m off n \<noteq> Panic"
  by (auto simp: check_bounds_def split: option.splits)

lemma mem_grow_wf: "preserves mem_wf (mem_grow d)"
proof (rule preservesI)
  fix m assume wf: "mem_wf m"
  show "mem_wf (snd (mem_grow d m))"
    using wf by (auto simp: mem_grow_def mem_wf_def Let_def not_less min_def
                      split: option.splits if_splits)
qed

lemma mem_update_wf:
  "mem_wf m \<Longrightarrow> length d = length (mem_data m) \<Longrightarrow> mem_wf (m\<lparr>mem_data := d\<rparr>)"
  by (auto simp: mem_wf_def split: option.splits)

lemma checked_write_wf:
  assumes "\<And>m. check_bounds m off n = Ok () \<Longrightarrow> length (g m) = length (mem_data m)"
  shows "preserves mem_wf (\<lambda>m. seq (lift (check_bounds m off n)) (modify (\<lambda>m. m\<lparr>mem_data := g m\<rparr>)) m)"
proof (rule preservesI)
  fix m assume "mem_wf m"
  then show "mem_wf (snd (seq (lift (check_bounds m off n)) (modify (\<lambda>m. m\<lparr>mem_data := g m\<rparr>)) m))"
    by (cases "check_bounds m off n") (auto simp: seq_def bind_def mem_update_wf assms)
qed

lemma mem_writes_wf [pres]:
  "preserves mem_wf (write_u8 off b)" "preserves mem_wf (write_u16 off h)"
  "preserves mem_wf (write_u32 off w)" "preserves mem_wf (write_u64 off d)"
  "preserves mem_wf (write_bytes off bs)" "preserves mem_wf (mem_fill off n b)"
  unfolding mem_write_defs
  by (auto intro!: checked_write_wf dest: check_bounds_OkD)

lemma copy_within_wf [pres]: "preserves mem_wf (copy_within src dst n)"
proof (rule preservesI)
  fix m assume "mem_wf m"
  then show "mem_wf (snd (copy_within src dst n m))"
    by (cases "check_bounds m src n"; cases "check_bounds m dst n")
      (auto simp: copy_within_def seq_def bind_def dest!: check_bounds_OkD intro!: mem_update_wf)
qed

section \<open>Reads and writes as slices\<close>

lemma get_slice_unfold:
  "off + Suc n \<le> length xs \<Longrightarrow> get_slice xs off (Suc n) = xs ! off # get_slice xs (off + 1) n"
  by (simp add: get_slice_def Cons_nth_drop_Suc [symmetric])

lemma get_slice_0 [simp]: "get_slice xs off 0 = []"
  by (simp add: get_slice_def)

lemma checked_read_cong:
  "(off + n \<le> length (mem_data m) \<Longrightarrow> x = y) \<Longrightarrow>
     and_then (check_bounds m off n) (\<lambda>_. Ok x) = and_then (check_bounds m off n) (\<lambda>_. Ok y)"
  by (cases "check_bounds m off n") (auto dest: check_bounds_OkD)

lemma read_as_slice:
  "read_u8 m off = and_then (check_bounds m off 1) (\<lambda>_. Ok (hd (get_slice (mem_data m) off 1)))"
  "read_u16 m off = and_then (check_bounds m off 2) (\<lambda>_. Ok (from_le (get_slice (mem_data m) off 2)))"
  "read_u32 m off = and_then (check_bounds m off 4) (\<lambda>_. Ok (from_le (get_slice (mem_data m) off 4)))"
  "read_u64 m off = and_then (check_bounds m off 8) (\<lambda>_. Ok (from_le (get_slice (mem_data m) off 8)))"
  unfolding read_u8_def read_u16_def read_u32_def read_u64_def
  by (rule checked_read_cong; simp add: eval_nat_numeral get_slice_unfold)+

lemma put_slice_single: "off < length xs \<Longrightarrow> xs[off := b] = put_slice xs off [b]"
  by (simp add: put_slice_def upd_conv_take_nth_drop)

lemma put_slice_pair:
  "off + 2 \<le> length xs \<Longrightarrow> xs[off := a, off + 1 := b] = put_slice xs off [a, b]"
  by (rule nth_equalityI) (auto simp: nth_put_slice nth_list_update nth_Cons split: nat.splits)

lemma to_le_2: "to_le 2 v = [to_le 2 v ! 0, to_le 2 v ! 1]"
  by (simp add: eval_nat_numeral)

text \<open>
  Every write is a bounds check followed by the replacement of a slice; so is \<open>write_u16\<close>,
  which the source writes byte by byte.
\<close>

definition write_slice :: "usize \<Rightarrow> u8 list \<Rightarrow> (linear_memory, memory_error, unit) st" where
  "write_slice off bs m = (case check_bounds m off (length bs) of
     Ok _ \<Rightarrow> (Ok (), m\<lparr>mem_data := put_slice (mem_data m) off bs\<rparr>)
   | Err e \<Rightarrow> (Err e, m) | Panic \<Rightarrow> (Panic, m))"

lemma write_as_slice:
  "write_u8 off b = write_slice off [b]"
  "write_u16 off h = write_slice off (to_le 2 h)"
  "write_u32 off w = write_slice off (to_le 4 w)"
  "write_u64 off d = write_slice off (to_le 8 d)"
  "write_bytes off bs = write_slice off bs"
  "mem_fill off n v = write_slice off (replicate n v)"
proof -
  show "write_u8 off b = write_slice off [b]"
    by (auto simp: fun_eq_iff write_u8_def write_slice_def seq_def bind_def put_slice_single
             dest!: check_bounds_OkD split: result.splits)
  show "write_u16 off h = write_slice off (to_le 2 h)"
  proof
    fix m
    show "write_u16 off h m = write_slice off (to_le 2 h) m"
      by (cases "check_bounds m off 2")
        (auto simp: write_u16_def write_slice_def seq_def bind_def put_slice_pair
           to_le_2 [symmetric] simp del: One_nat_def dest!: check_bounds_OkD)
  qed
qed (auto simp: fun_eq_iff mem_write_defs write_slice_def seq_def bind_def split: result.splits)

lemma write_slice_Ok:
  "write_slice off bs m = (Ok u, m') \<longleftrightarrow>
     check_bounds m off (length bs) = Ok () \<and> m' = m\<lparr>mem_data := put_slice (mem_data m) off bs\<rparr>"
  by (auto simp: write_slice_def split: result.splits)

lemma check_bounds_write_slice:
  assumes "write_slice off bs m = (Ok u, m')"
  shows "check_bounds m' a n = check_bounds m a n"
proof -
  from assms have "length (mem_data m') = length (mem_data m)"
    by (auto simp: write_slice_Ok dest!: check_bounds_OkD)
  then show ?thesis by (simp add: check_bounds_def split: option.split)
qed

section \<open>Round trips\<close>

text \<open>
  The contract of \<open>to_le_bytes\<close> / \<open>from_le_bytes\<close> the memory relies on: the encoding has
  the width of the type and decoding undoes it.
\<close>

locale byte_codec =
  fixes width :: nat and enc :: "'w \<Rightarrow> u8 list" and dec :: "u8 list \<Rightarrow> 'w"
  assumes length_enc: "length (enc w) = width"
    and dec_enc: "dec (enc w) = w"
begin

lemma load_after_store:
  assumes "write_slice off (enc w) m = (Ok u, m')"
  shows "and_then (check_bounds m' off width) (\<lambda>_. Ok (dec (get_slice (mem_data m') off width))) = Ok w"
proof -
  from assms have cb: "check_bounds m off width = Ok ()"
    and m': "m' = m\<lparr>mem_data := put_slice (mem_data m) off (enc w)\<rparr>"
    by (auto simp: write_slice_Ok length_enc)
  have "get_slice (mem_data m') off width = enc w"
    using check_bounds_OkD [OF cb] get_put_slice_same [of off "enc w" "mem_data m"]
    by (simp add: m' length_enc)
  with cb show ?thesis
    using check_bounds_write_slice [OF assms] by (simp add: dec_enc)
qed

lemma load_disjoint:
  assumes "write_slice off bs m = (Ok u, m')" and "a + width \<le> off \<or> off + length bs \<le> a"
  shows "and_then (check_bounds m' a width) (\<lambda>_. Ok (dec (get_slice (mem_data m') a width))) =
         and_then (check_bounds m a width) (\<lambda>_. Ok (dec (get_slice (mem_data m) a width)))"
proof -
  from assms(1) have cb: "check_bounds m off (length bs) = Ok ()"
    and m': "m' = m\<lparr>mem_data := put_slice (mem_data m) off bs\<rparr>"
    by (auto simp: write_slice_Ok)
  show ?thesis
    using assms(2) check_bounds_OkD [OF cb]
    unfolding check_bounds_write_slice [OF assms(1)]
    by (intro checked_read_cong) (auto simp: m' get_put_slice_disjoint)
qed

end

interpretation le8: byte_codec 1 "\<lambda>b::u8. [b]" hd
  by unfold_locales auto

interpretation le16: byte_codec 2 "to_le 2 :: u16 \<Rightarrow> u8 list" from_le
  by unfold_locales (auto simp: from_le_to_le)

interpretation le32: byte_codec 4 "to_le 4 :: u32 \<Rightarrow> u8 list" from_le
  by unfold_locales (auto simp: from_le_to_le)

interpretation le64: byte_codec 8 "to_le 8 :: u64 \<Rightarrow> u8 list" from_le
  by unfold_locales (auto simp: from_le_to_le)

section \<open>Properties\<close>





text \<open>
  C6. \<open>grow\<close> either fails and leaves the memory as it was, or returns the old page count
  and extends the memory with zero bytes to exactly the new page count, keeping every old
  byte; the new size respects the declared maximum and the 4 GiB limit. It succeeds
  whenever both limits allow the new size.
\<close>

theorem mem_grow_correct:
  assumes "mem_wf m"
  shows "case mem_grow d m of
     (Ok old, m') \<Rightarrow> old = current_pages m
        \<and> unat (current_pages m') = unat (current_pages m) + unat d
        \<and> mem_data m' = mem_data m @ replicate (unat d * PAGE_SIZE) 0
        \<and> max_pages m' = max_pages m \<and> mem_wf m'
   | (Err e, m') \<Rightarrow> m' = m \<and>
        ((unat (current_pages m) + unat d) * PAGE_SIZE > MAX_MEMORY_SIZE
         \<or> (\<exists>mx. max_pages m = Some mx \<and> unat (current_pages m) + unat d > unat mx))
   | (Panic, m') \<Rightarrow> False"
proof -
  have wf': "mem_wf (snd (mem_grow d m))"
    using assms mem_grow_wf by (simp add: preserves_def)
  have len: "length (mem_data m) = unat (current_pages m) * PAGE_SIZE"
    using assms by (simp add: mem_wf_def)
  show ?thesis
  proof (cases "checked_add_u32 (current_pages m) d")
    case None
    then have "2 ^ 32 \<le> unat (current_pages m) + unat d"
      by (auto simp: checked_add_u32_def split: if_splits)
    then have "MAX_MEMORY_SIZE < (unat (current_pages m) + unat d) * PAGE_SIZE"
      by (simp add: MAX_MEMORY_SIZE_def PAGE_SIZE_def)
    with None show ?thesis by (simp add: mem_grow_def)
  next
    case (Some np)
    have np: "unat np = unat (current_pages m) + unat d"
      by (rule unat_checked_add_u32 [OF Some])
    show ?thesis
      using wf' Some
      by (auto simp: mem_grow_def Let_def np len word_less_nat_alt distrib_right
               split: option.splits)
  qed
qed

theorem mem_grow_correct_witness:
  "mem_wf \<lparr>mem_data = [], current_pages = 0, max_pages = Some 2\<rparr> \<and>
   mem_grow 3 \<lparr>mem_data = [], current_pages = 0, max_pages = Some 2\<rparr> =
     (Err WouldExceedMaximum, \<lparr>mem_data = [], current_pages = 0, max_pages = Some 2\<rparr>)"
proof -
  have wf: "mem_wf \<lparr>mem_data = [], current_pages = 0, max_pages = Some 2\<rparr>"
    by (simp add: mem_wf_def)
  show ?thesis
    using wf mem_grow_correct [OF wf, of 3]
    by (simp add: mem_grow_def checked_add_u32_def)
qed

end
