(* ===== verification/Wasm_Syntax.thy ===== *)
theory Wasm_Syntax
  imports Prelude
begin

unbundle bit_operations_syntax

text \<open>
  The instruction set (runtime/src/opcodes.rs), block types (runtime/src/parser.rs) and the
  structure of a parsed module with its lookups (runtime/src/module.rs).

  The source's \<open>Instruction\<close> is one flat enum of 200 variants; here every section of that
  enum is a datatype of its own with the source's variants, and \<open>instruction\<close> is their
  sum. \<open>f32\<close> and \<open>f64\<close> values are their IEEE bit patterns (\<open>to_bits\<close>), so equality of
  constants is equality of patterns.
\<close>

section \<open>Types\<close>

datatype value_type = TI32 | TI64 | TF32 | TF64 | TV128 | TFuncRef | TExternRef

datatype block_type = BtEmpty | BtValue value_type | BtTypeIndex u32

section \<open>Instructions\<close>

datatype control_instr =
    Unreachable | Nop | Block block_type | Loop block_type | If block_type | Else | End
  | Br u32 | BrIf u32 | BrTable "u32 list" u32 | Return | Call u32 | CallIndirect u32 u32

datatype reference_instr = RefNull | RefIsNull | RefFunc u32

datatype parametric_instr = Drop | Select

datatype variable_instr =
    LocalGet u32 | LocalSet u32 | LocalTee u32 | GlobalGet u32 | GlobalSet u32

datatype table_instr =
    TableGet u32 | TableSet u32 | TableInit u32 u32 | ElemDrop u32 | TableCopy u32 u32
  | TableGrow u32 | TableSize u32 | TableFill u32

datatype load_instr =
    I32Load u32 u32 | I64Load u32 u32 | F32Load u32 u32 | F64Load u32 u32
  | I32Load8S u32 u32 | I32Load8U u32 u32 | I32Load16S u32 u32 | I32Load16U u32 u32
  | I64Load8S u32 u32 | I64Load8U u32 u32 | I64Load16S u32 u32 | I64Load16U u32 u32
  | I64Load32S u32 u32 | I64Load32U u32 u32

datatype store_instr =
    I32Store u32 u32 | I64Store u32 u32 | F32Store u32 u32 | F64Store u32 u32
  | I32Store8 u32 u32 | I32Store16 u32 u32
  | I64Store8 u32 u32 | I64Store16 u32 u32 | I64Store32 u32 u32

datatype memory_instr =
    MemorySize | MemoryGrow | MemoryInit u32 | DataDrop u32 | MemoryCopy | MemoryFill

datatype const_instr = I32Const i32 | I64Const i64 | F32Const u32 | F64Const u64

datatype i32_comparison =
    I32Eqz | I32Eq | I32Ne | I32LtS | I32LtU | I32GtS | I32GtU | I32LeS | I32LeU | I32GeS | I32GeU

datatype i64_comparison =
    I64Eqz | I64Eq | I64Ne | I64LtS | I64LtU | I64GtS | I64GtU | I64LeS | I64LeU | I64GeS | I64GeU

datatype f32_comparison = F32Eq | F32Ne | F32Lt | F32Gt | F32Le | F32Ge

datatype f64_comparison = F64Eq | F64Ne | F64Lt | F64Gt | F64Le | F64Ge

datatype i32_arithmetic =
    I32Clz | I32Ctz | I32Popcnt | I32Add | I32Sub | I32Mul | I32DivS | I32DivU | I32RemS | I32RemU
  | I32And | I32Or | I32Xor | I32Shl | I32ShrS | I32ShrU | I32Rotl | I32Rotr

datatype i64_arithmetic =
    I64Clz | I64Ctz | I64Popcnt | I64Add | I64Sub | I64Mul | I64DivS | I64DivU | I64RemS | I64RemU
  | I64And | I64Or | I64Xor | I64Shl | I64ShrS | I64ShrU | I64Rotl | I64Rotr

datatype f32_arithmetic =
    F32Abs | F32Neg | F32Ceil | F32Floor | F32Trunc | F32Nearest | F32Sqrt
  | F32Add | F32Sub | F32Mul | F32Div | F32Min | F32Max | F32Copysign

datatype f64_arithmetic =
    F64Abs | F64Neg | F64Ceil | F64Floor | F64Trunc | F64Nearest | F64Sqrt
  | F64Add | F64Sub | F64Mul | F64Div | F64Min | F64Max | F64Copysign

datatype conversion =
    I32WrapI64 | I32TruncF32S | I32TruncF32U | I32TruncF64S | I32TruncF64U
  | I64ExtendI32S | I64ExtendI32U | I64TruncF32S | I64TruncF32U | I64TruncF64S | I64TruncF64U
  | F32ConvertI32S | F32ConvertI32U | F32ConvertI64S | F32ConvertI64U | F32DemoteF64
  | F64ConvertI32S | F64ConvertI32U | F64ConvertI64S | F64ConvertI64U | F64PromoteF32

datatype reinterpretation =
    I32ReinterpretF32 | I64ReinterpretF64 | F32ReinterpretI32 | F64ReinterpretI64

datatype sign_extension =
    I32Extend8S | I32Extend16S | I64Extend8S | I64Extend16S | I64Extend32S

datatype saturating_truncation =
    I32TruncSatF32S | I32TruncSatF32U | I32TruncSatF64S | I32TruncSatF64U
  | I64TruncSatF32S | I64TruncSatF32U | I64TruncSatF64S | I64TruncSatF64U

datatype instruction =
    Control control_instr | Reference reference_instr | Parametric parametric_instr
  | Variable variable_instr | Table table_instr | Load load_instr | Store store_instr
  | Memory memory_instr | Const const_instr
  | I32Comparison i32_comparison | I64Comparison i64_comparison
  | F32Comparison f32_comparison | F64Comparison f64_comparison
  | I32Arithmetic i32_arithmetic | I64Arithmetic i64_arithmetic
  | F32Arithmetic f32_arithmetic | F64Arithmetic f64_arithmetic
  | Conversion conversion | Reinterpretation reinterpretation
  | SignExtension sign_extension | SaturatingTruncation saturating_truncation

section \<open>Modules\<close>

record function_type =
  ft_params :: "value_type list"
  ft_results :: "value_type list"

record table_type =
  tt_element_type :: value_type
  tt_min :: u32
  tt_max :: "u32 option"

record memory_type =
  mt_min :: u32
  mt_max :: "u32 option"
  mt_shared :: bool

record global_type =
  gt_value_type :: value_type
  gt_mutable :: bool

datatype import_kind =
    ImportFunction u32 | ImportTable table_type | ImportMemory memory_type
  | ImportGlobal global_type

record import =
  im_module :: string
  im_name :: string
  im_kind :: import_kind

datatype export_kind = ExportFunction | ExportTable | ExportMemory | ExportGlobal

record export =
  ex_name :: string
  ex_kind :: export_kind
  ex_index :: u32

record global =
  gl_global_type :: global_type
  gl_init_expr :: "instruction list"

record element =
  el_table_idx :: u32
  el_offset_expr :: "instruction list"
  el_func_indices :: "u32 list"
  el_passive :: bool

record function_body =
  fb_locals :: "(u32 \<times> value_type) list"
  fb_instructions :: "instruction list"
  fb_raw_bytes :: "u8 list"

record data_segment =
  ds_memory_idx :: u32
  ds_offset_expr :: "instruction list"
  ds_data :: "u8 list"
  ds_passive :: bool

record wasm_module =
  mo_types :: "function_type list"
  mo_imports :: "import list"
  mo_functions :: "u32 list"
  mo_tables :: "table_type list"
  mo_memories :: "memory_type list"
  mo_globals :: "global list"
  mo_exports :: "export list"
  mo_start :: "u32 option"
  mo_elements :: "element list"
  mo_code :: "function_body list"
  mo_data :: "data_segment list"
  mo_name :: "string option"
  mo_data_count :: "u32 option"

definition module_empty :: wasm_module where
  "module_empty = \<lparr>mo_types = [], mo_imports = [], mo_functions = [], mo_tables = [],
     mo_memories = [], mo_globals = [], mo_exports = [], mo_start = None, mo_elements = [],
     mo_code = [], mo_data = [], mo_name = None, mo_data_count = None\<rparr>"

text \<open>The memory the module declares or imports first.\<close>

definition module_memory :: "wasm_module \<Rightarrow> memory_type option" where
  "module_memory md =
     (case List.map_filter (\<lambda>i. case im_kind i of ImportMemory mt \<Rightarrow> Some mt | _ \<Rightarrow> None)
             (mo_imports md) of
        mt # _ \<Rightarrow> Some mt
      | [] \<Rightarrow> list_get (mo_memories md) 0)"

definition find_export :: "wasm_module \<Rightarrow> string \<Rightarrow> export option" where
  "find_export md name = find (\<lambda>e. ex_name e = name) (mo_exports md)"

definition is_function_import :: "import \<Rightarrow> bool" where
  "is_function_import i = (case im_kind i of ImportFunction _ \<Rightarrow> True | _ \<Rightarrow> False)"

definition import_function_count :: "wasm_module \<Rightarrow> usize" where
  "import_function_count md = length (filter is_function_import (mo_imports md))"

definition total_function_count :: "wasm_module \<Rightarrow> usize" where
  "total_function_count md = import_function_count md + length (mo_functions md)"

text \<open>The loop over the imports: \<open>idx\<close> counts the function imports seen so far.\<close>

fun nth_import_type :: "wasm_module \<Rightarrow> import list \<Rightarrow> usize \<Rightarrow> usize \<Rightarrow> function_type option" where
  "nth_import_type md [] idx target = None"
| "nth_import_type md (i # is) idx target =
     (case im_kind i of
        ImportFunction type_idx \<Rightarrow>
          if idx = target then list_get (mo_types md) (unat type_idx)
          else nth_import_type md is (idx + 1) target
      | _ \<Rightarrow> nth_import_type md is idx target)"

definition function_type_of :: "wasm_module \<Rightarrow> u32 \<Rightarrow> function_type option" where
  "function_type_of md func_idx =
     (if unat func_idx < import_function_count md
      then nth_import_type md (mo_imports md) 0 (unat func_idx)
      else case list_get (mo_functions md) (unat func_idx - import_function_count md) of
             None \<Rightarrow> None
           | Some type_idx \<Rightarrow> list_get (mo_types md) (unat type_idx))"

text \<open>\<open>FunctionBody::local_count\<close> sums in \<open>u32\<close>; \<open>local_type\<close> finds the declaration of an index.\<close>

abbreviation local_count :: "function_body \<Rightarrow> (unit, u32) result" where
  "local_count fb \<equiv>
     (let n = sum_list (map (\<lambda>(c, _). unat c) (fb_locals fb)) in
      if n < 2 ^ 32 then Ok (of_nat n) else Panic)"

fun local_type_from :: "(u32 \<times> value_type) list \<Rightarrow> u32 \<Rightarrow> u32 \<Rightarrow> (unit, value_type option) result" where
  "local_type_from [] idx offset = Ok None"
| "local_type_from ((c, vt) # ls) idx offset =
     (if unat offset + unat c \<ge> 2 ^ 32 then Panic
      else if idx < offset + c then Ok (Some vt)
      else local_type_from ls idx (offset + c))"

definition local_type :: "function_body \<Rightarrow> u32 \<Rightarrow> (unit, value_type option) result" where
  "local_type fb idx = local_type_from (fb_locals fb) idx 0"

section \<open>Lookups\<close>

lemma nth_import_type_filter:
  "idx \<le> target \<Longrightarrow>
   nth_import_type md is idx target =
     (case list_get (filter is_function_import is) (target - idx) of
        None \<Rightarrow> None
      | Some i \<Rightarrow> (case im_kind i of ImportFunction t \<Rightarrow> list_get (mo_types md) (unat t) | _ \<Rightarrow> None))"
proof (induction "is" arbitrary: idx)
  case Nil
  then show ?case by (simp add: list_get_def)
next
  case (Cons i "is")
  show ?case
  proof (cases "idx = target")
    case True
    with Cons show ?thesis
      by (auto simp: is_function_import_def list_get_def split: import_kind.splits)
  next
    case False
    with Cons.prems have "target - idx = Suc (target - Suc idx)" and "Suc idx \<le> target" by auto
    with Cons False show ?thesis
      by (auto simp: is_function_import_def list_get_def split: import_kind.splits)
  qed
qed

text \<open>Every index below the function count of a module whose type indices are in range has a type.\<close>

definition type_indices_ok :: "wasm_module \<Rightarrow> bool" where
  "type_indices_ok md \<longleftrightarrow>
     (\<forall>i \<in> set (mo_imports md). case im_kind i of ImportFunction t \<Rightarrow> unat t < length (mo_types md) | _ \<Rightarrow> True)
     \<and> (\<forall>t \<in> set (mo_functions md). unat t < length (mo_types md))"

lemma function_type_of_total:
  assumes "type_indices_ok md" and "unat f < total_function_count md"
  shows "\<exists>ft. function_type_of md f = Some ft \<and> ft \<in> set (mo_types md)"
proof (cases "unat f < import_function_count md")
  case True
  let ?i = "filter is_function_import (mo_imports md) ! unat f"
  have len: "unat f < length (filter is_function_import (mo_imports md))"
    using True by (simp add: import_function_count_def)
  then have "?i \<in> set (filter is_function_import (mo_imports md))" by (rule nth_mem)
  then obtain t where "im_kind ?i = ImportFunction t" and "?i \<in> set (mo_imports md)"
    by (auto simp: is_function_import_def split: import_kind.splits)
  with assms(1) have "unat t < length (mo_types md)"
    by (fastforce simp: type_indices_ok_def)
  then show ?thesis
    using True len \<open>im_kind ?i = _\<close>
    by (auto simp: function_type_of_def nth_import_type_filter list_get_def)
next
  case False
  with assms(2) have "unat f - import_function_count md < length (mo_functions md)"
    by (simp add: total_function_count_def)
  with assms(1) False show ?thesis
    by (auto simp: function_type_of_def list_get_def type_indices_ok_def)
qed

end
