(* ===== verification/Wasm_Interp.thy ===== *)
theory Wasm_Interp
  imports Wasm_Syntax
begin

unbundle bit_operations_syntax

text \<open>
  The data of the stack machine (runtime/src/interpreter.rs): values, the operand stack
  with its depth limit, call and block frames, traps, tables and globals.

  A \<open>Vec\<close> used as a stack is a list with its top first: \<open>push\<close> is \<open>#\<close>, \<open>truncate(n)\<close>
  keeps the last \<open>n\<close> elements of the list, and the \<open>k\<close>-th element from the top is
  \<open>xs ! k\<close>.
\<close>

section \<open>Limits\<close>

definition MAX_VALUE_STACK_DEPTH :: usize where
  "MAX_VALUE_STACK_DEPTH = 16384"

definition MAX_CALL_STACK_DEPTH :: usize where
  "MAX_CALL_STACK_DEPTH = 1024"

section \<open>Values and traps\<close>

datatype wasm_value =
    I32 i32 | I64 i64 | F32 u32 | F64 u64 | FuncRef "u32 option" | ExternRef "u32 option"

fun value_type_of :: "wasm_value \<Rightarrow> value_type" where
  "value_type_of (I32 _) = TI32"
| "value_type_of (I64 _) = TI64"
| "value_type_of (F32 _) = TF32"
| "value_type_of (F64 _) = TF64"
| "value_type_of (FuncRef _) = TFuncRef"
| "value_type_of (ExternRef _) = TExternRef"

fun as_i32 :: "wasm_value \<Rightarrow> i32 option" where
  "as_i32 (I32 v) = Some v"
| "as_i32 _ = None"

fun as_i64 :: "wasm_value \<Rightarrow> i64 option" where
  "as_i64 (I64 v) = Some v"
| "as_i64 _ = None"

fun as_f32 :: "wasm_value \<Rightarrow> u32 option" where
  "as_f32 (F32 v) = Some v"
| "as_f32 _ = None"

fun as_f64 :: "wasm_value \<Rightarrow> u64 option" where
  "as_f64 (F64 v) = Some v"
| "as_f64 _ = None"

fun default_for :: "value_type \<Rightarrow> wasm_value" where
  "default_for TI32 = I32 0"
| "default_for TI64 = I64 0"
| "default_for TF32 = F32 0"
| "default_for TF64 = F64 0"
| "default_for TFuncRef = FuncRef None"
| "default_for TExternRef = ExternRef None"
| "default_for TV128 = I64 0"

datatype trap_error =
    DivisionByZero | IntegerOverflow | InvalidConversionToInteger
  | MemoryOutOfBounds usize usize usize
  | StackOverflow | StackUnderflow | CallStackOverflow | UnreachableTrap
  | TypeMismatch string value_type
  | UndefinedElement u32
  | IndirectCallTypeMismatch u32 u32
  | UninitializedElement u32
  | ExportNotFound string | FunctionNotFound u32 | FuelExhausted | ProcessExit i32
  | HostError string | ExecutionError string

section \<open>The value stack\<close>

record value_stack =
  vs_values :: "wasm_value list"
  vs_max_depth :: usize

definition value_stack_new :: value_stack where
  "value_stack_new = \<lparr>vs_values = [], vs_max_depth = MAX_VALUE_STACK_DEPTH\<rparr>"

definition vs_push :: "wasm_value \<Rightarrow> (value_stack, trap_error, unit) st" where
  "vs_push v s =
     (if length (vs_values s) \<ge> vs_max_depth s then (Err StackOverflow, s)
      else (Ok (), s\<lparr>vs_values := v # vs_values s\<rparr>))"

definition vs_pop :: "(value_stack, trap_error, wasm_value) st" where
  "vs_pop s = (case vs_values s of
     [] \<Rightarrow> (Err StackUnderflow, s)
   | v # vs \<Rightarrow> (Ok v, s\<lparr>vs_values := vs\<rparr>))"

definition vs_pop_i32 :: "(value_stack, trap_error, i32) st" where
  "vs_pop_i32 = bind vs_pop (\<lambda>v. case v of
     I32 x \<Rightarrow> ret x | _ \<Rightarrow> throw (TypeMismatch ''i32'' (value_type_of v)))"

definition vs_pop_i64 :: "(value_stack, trap_error, i64) st" where
  "vs_pop_i64 = bind vs_pop (\<lambda>v. case v of
     I64 x \<Rightarrow> ret x | _ \<Rightarrow> throw (TypeMismatch ''i64'' (value_type_of v)))"

definition vs_pop_f32 :: "(value_stack, trap_error, u32) st" where
  "vs_pop_f32 = bind vs_pop (\<lambda>v. case v of
     F32 x \<Rightarrow> ret x | _ \<Rightarrow> throw (TypeMismatch ''f32'' (value_type_of v)))"

definition vs_pop_f64 :: "(value_stack, trap_error, u64) st" where
  "vs_pop_f64 = bind vs_pop (\<lambda>v. case v of
     F64 x \<Rightarrow> ret x | _ \<Rightarrow> throw (TypeMismatch ''f64'' (value_type_of v)))"

definition vs_peek :: "(value_stack, trap_error, wasm_value) st" where
  "vs_peek s = (case vs_values s of [] \<Rightarrow> (Err StackUnderflow, s) | v # _ \<Rightarrow> (Ok v, s))"

definition vs_len :: "value_stack \<Rightarrow> usize" where
  "vs_len s = length (vs_values s)"

definition vs_truncate :: "usize \<Rightarrow> value_stack \<Rightarrow> value_stack" where
  "vs_truncate n s = s\<lparr>vs_values := drop (length (vs_values s) - n) (vs_values s)\<rparr>"

section \<open>Frames\<close>

datatype block_kind = KBlock | KLoop | KIf | KElse | KFunction

record block_frame =
  bf_kind :: block_kind
  bf_block_type :: block_type
  bf_stack_depth :: usize
  bf_start_pc :: usize
  bf_end_pc :: usize
  bf_else_pc :: "usize option"
  bf_arity :: usize
  bf_param_arity :: usize

record call_frame =
  cf_func_idx :: u32
  cf_locals :: "wasm_value list"
  cf_pc :: usize
  cf_stack_base :: usize
  cf_return_arity :: usize
  cf_block_stack :: "block_frame list"
  cf_is_host :: bool

section \<open>Tables and globals\<close>

record table =
  tb_elements :: "u32 option list"
  tb_max :: "u32 option"

definition table_new :: "u32 \<Rightarrow> u32 option \<Rightarrow> table" where
  "table_new mn mx = \<lparr>tb_elements = replicate (unat mn) None, tb_max = mx\<rparr>"

definition table_get :: "table \<Rightarrow> u32 \<Rightarrow> (trap_error, u32 option) result" where
  "table_get t index = ok_or (UndefinedElement index) (list_get (tb_elements t) (unat index))"

definition table_set :: "u32 \<Rightarrow> u32 option \<Rightarrow> (table, trap_error, unit) st" where
  "table_set index v t =
     (if unat index \<ge> length (tb_elements t) then (Err (UndefinedElement index), t)
      else (Ok (), t\<lparr>tb_elements := (tb_elements t)[unat index := v]\<rparr>))"

text \<open>\<open>len() as u32\<close> keeps the low 32 bits of the length.\<close>

definition table_size :: "table \<Rightarrow> u32" where
  "table_size t = of_nat (length (tb_elements t))"

definition vec_resize :: "nat \<Rightarrow> 'a \<Rightarrow> 'a list \<Rightarrow> 'a list" where
  "vec_resize n x xs = take n xs @ replicate (n - length xs) x"

definition table_grow :: "u32 \<Rightarrow> u32 option \<Rightarrow> (table, trap_error, u32) st" where
  "table_grow delta init t =
     (let old_size = table_size t in
      case checked_add_u32 old_size delta of
        None \<Rightarrow> (Err (ExecutionError ''table grow overflow''), t)
      | Some new_size \<Rightarrow>
          if (case tb_max t of Some mx \<Rightarrow> new_size > mx | None \<Rightarrow> False)
          then (Err (ExecutionError ''table grow exceeds max''), t)
          else (Ok old_size, t\<lparr>tb_elements := vec_resize (unat new_size) init (tb_elements t)\<rparr>))"

record global_value =
  gv_value :: wasm_value
  gv_mutable :: bool

section \<open>The stack bound\<close>

definition vs_wf :: "value_stack \<Rightarrow> bool" where
  "vs_wf s \<longleftrightarrow> vs_max_depth s = MAX_VALUE_STACK_DEPTH \<and> length (vs_values s) \<le> vs_max_depth s"

lemma vs_wf_new: "vs_wf value_stack_new"
  by (simp add: vs_wf_def value_stack_new_def)

lemma vs_push_wf [pres]: "preserves vs_wf (vs_push v)"
  by (auto simp: preserves_def vs_push_def vs_wf_def)

lemma vs_pop_wf [pres]: "preserves vs_wf vs_pop"
  by (auto simp: preserves_def vs_pop_def vs_wf_def split: list.splits)

lemma vs_pops_wf [pres]:
  "preserves vs_wf vs_pop_i32" "preserves vs_wf vs_pop_i64"
  "preserves vs_wf vs_pop_f32" "preserves vs_wf vs_pop_f64"
  unfolding vs_pop_i32_def vs_pop_i64_def vs_pop_f32_def vs_pop_f64_def
  by (intro pres; auto intro: pres split: wasm_value.splits)+

lemma vs_peek_wf [pres]: "preserves vs_wf vs_peek"
  by (auto simp: preserves_def vs_peek_def split: list.splits)

lemma vs_truncate_wf: "vs_wf s \<Longrightarrow> vs_wf (vs_truncate n s)"
  by (auto simp: vs_wf_def vs_truncate_def)

lemma vs_truncate_len: "vs_len (vs_truncate n s) = min n (vs_len s)"
  by (auto simp: vs_len_def vs_truncate_def)

section \<open>Table laws\<close>

definition table_wf :: "table \<Rightarrow> bool" where
  "table_wf t \<longleftrightarrow> length (tb_elements t) < 2 ^ 32
     \<and> (case tb_max t of None \<Rightarrow> True | Some mx \<Rightarrow> length (tb_elements t) \<le> unat mx)"

lemma length_vec_resize [simp]: "length (vec_resize n x xs) = n"
  by (simp add: vec_resize_def)

lemma table_set_wf [pres]: "preserves table_wf (table_set i v)"
  by (auto simp: preserves_def table_set_def table_wf_def split: option.splits)

lemma table_grow_wf [pres]: "preserves table_wf (table_grow d v)"
  by (auto simp: preserves_def table_grow_def Let_def table_wf_def word_less_nat_alt
           split: option.splits)

lemma unat_table_size: "table_wf t \<Longrightarrow> unat (table_size t) = length (tb_elements t)"
  by (simp add: table_wf_def table_size_def unat_of_nat_small)

lemma table_get_set_same:
  "table_set i v t = (Ok (), t') \<Longrightarrow> table_get t' i = Ok v"
  by (auto simp: table_set_def table_get_def list_get_def split: if_splits)

lemma table_get_set_other:
  "table_set i v t = (Ok (), t') \<Longrightarrow> i \<noteq> j \<Longrightarrow> table_get t' j = table_get t j"
  by (auto simp: table_set_def table_get_def list_get_def unat_neq split: if_splits)

end
