(* ===== verification/Wasm_Numeric.thy ===== *)
theory Wasm_Numeric
  imports Wasm_Interp
begin

unbundle bit_operations_syntax

text \<open>
  The integer instructions of the executor (runtime/src/executor.rs): comparisons,
  arithmetic, sign extension and wrapping. The operations on one width are written once
  for words of any width and used at 32 and 64 bits; each instruction group then pops its
  operands, in the order of the source, and pushes the result.

  The properties compare them with integer arithmetic: the results of the trapping
  operations are the mathematical quotient and remainder, and the bit counts are counts of
  bits.
\<close>

section \<open>Arithmetic of one width\<close>

definition int_min :: "'a::len word" where
  "int_min = push_bit (LENGTH('a) - 1) 1"

definition int_div_s :: "'a::len word \<Rightarrow> 'a word \<Rightarrow> (trap_error, 'a word) result" where
  "int_div_s a b =
     (if b = 0 then Err DivisionByZero
      else if a = int_min \<and> b = -1 then Err IntegerOverflow
      else Ok (word_of_int (sint a sdiv sint b)))"

definition int_div_u :: "'a::len word \<Rightarrow> 'a word \<Rightarrow> (trap_error, 'a word) result" where
  "int_div_u a b = (if b = 0 then Err DivisionByZero else Ok (a div b))"

definition int_rem_s :: "'a::len word \<Rightarrow> 'a word \<Rightarrow> (trap_error, 'a word) result" where
  "int_rem_s a b =
     (if b = 0 then Err DivisionByZero
      else Ok (if a = int_min \<and> b = -1 then 0 else word_of_int (sint a smod sint b)))"

definition int_rem_u :: "'a::len word \<Rightarrow> 'a word \<Rightarrow> (trap_error, 'a word) result" where
  "int_rem_u a b = (if b = 0 then Err DivisionByZero else Ok (a mod b))"

text \<open>The shift amount: \<open>b as u32 % 32\<close>, respectively \<open>(b as u32) % 64\<close>.\<close>

definition shift_amount :: "'a::len word \<Rightarrow> nat" where
  "shift_amount b = unat (ucast b :: u32) mod LENGTH('a)"

definition int_shl :: "'a::len word \<Rightarrow> 'a word \<Rightarrow> 'a word" where
  "int_shl a b = push_bit (shift_amount b) a"

definition int_shr_s :: "'a::len word \<Rightarrow> 'a word \<Rightarrow> 'a word" where
  "int_shr_s a b = signed_drop_bit (shift_amount b) a"

definition int_shr_u :: "'a::len word \<Rightarrow> 'a word \<Rightarrow> 'a word" where
  "int_shr_u a b = drop_bit (shift_amount b) a"

definition int_rotl :: "'a::len word \<Rightarrow> 'a word \<Rightarrow> 'a word" where
  "int_rotl a b = word_rotl (shift_amount b) a"

definition int_rotr :: "'a::len word \<Rightarrow> 'a word \<Rightarrow> 'a word" where
  "int_rotr a b = word_rotr (shift_amount b) a"

definition bool_i32 :: "bool \<Rightarrow> wasm_value" where
  "bool_i32 b = I32 (if b then 1 else 0)"

section \<open>Operand handling\<close>

definition i32_un :: "(i32 \<Rightarrow> wasm_value) \<Rightarrow> (value_stack, trap_error, unit) st" where
  "i32_un f = bind vs_pop_i32 (\<lambda>a. vs_push (f a))"

definition i32_bin :: "(i32 \<Rightarrow> i32 \<Rightarrow> (trap_error, wasm_value) result)
    \<Rightarrow> (value_stack, trap_error, unit) st" where
  "i32_bin f = bind vs_pop_i32 (\<lambda>b. bind vs_pop_i32 (\<lambda>a. bind (lift (f a b)) vs_push))"

definition i64_un :: "(i64 \<Rightarrow> wasm_value) \<Rightarrow> (value_stack, trap_error, unit) st" where
  "i64_un f = bind vs_pop_i64 (\<lambda>a. vs_push (f a))"

definition i64_bin :: "(i64 \<Rightarrow> i64 \<Rightarrow> (trap_error, wasm_value) result)
    \<Rightarrow> (value_stack, trap_error, unit) st" where
  "i64_bin f = bind vs_pop_i64 (\<lambda>b. bind vs_pop_i64 (\<lambda>a. bind (lift (f a b)) vs_push))"

definition cmp :: "('a \<Rightarrow> 'a \<Rightarrow> bool) \<Rightarrow> 'a \<Rightarrow> 'a \<Rightarrow> (trap_error, wasm_value) result" where
  "cmp r a b = Ok (bool_i32 (r a b))"

definition wrap_result :: "('a \<Rightarrow> wasm_value) \<Rightarrow> (trap_error, 'a) result \<Rightarrow> (trap_error, wasm_value) result" where
  "wrap_result f r = and_then r (\<lambda>x. Ok (f x))"

section \<open>The instruction groups\<close>

fun exec_i32_comparison :: "i32_comparison \<Rightarrow> (value_stack, trap_error, unit) st" where
  "exec_i32_comparison I32Eqz = i32_un (\<lambda>a. bool_i32 (a = 0))"
| "exec_i32_comparison I32Eq = i32_bin (cmp (\<lambda>a b. a = b))"
| "exec_i32_comparison I32Ne = i32_bin (cmp (\<lambda>a b. a \<noteq> b))"
| "exec_i32_comparison I32LtS = i32_bin (cmp (\<lambda>a b. sint a < sint b))"
| "exec_i32_comparison I32LtU = i32_bin (cmp (\<lambda>a b. a < b))"
| "exec_i32_comparison I32GtS = i32_bin (cmp (\<lambda>a b. sint a > sint b))"
| "exec_i32_comparison I32GtU = i32_bin (cmp (\<lambda>a b. a > b))"
| "exec_i32_comparison I32LeS = i32_bin (cmp (\<lambda>a b. sint a \<le> sint b))"
| "exec_i32_comparison I32LeU = i32_bin (cmp (\<lambda>a b. a \<le> b))"
| "exec_i32_comparison I32GeS = i32_bin (cmp (\<lambda>a b. sint a \<ge> sint b))"
| "exec_i32_comparison I32GeU = i32_bin (cmp (\<lambda>a b. a \<ge> b))"

fun exec_i64_comparison :: "i64_comparison \<Rightarrow> (value_stack, trap_error, unit) st" where
  "exec_i64_comparison I64Eqz = i64_un (\<lambda>a. bool_i32 (a = 0))"
| "exec_i64_comparison I64Eq = i64_bin (cmp (\<lambda>a b. a = b))"
| "exec_i64_comparison I64Ne = i64_bin (cmp (\<lambda>a b. a \<noteq> b))"
| "exec_i64_comparison I64LtS = i64_bin (cmp (\<lambda>a b. sint a < sint b))"
| "exec_i64_comparison I64LtU = i64_bin (cmp (\<lambda>a b. a < b))"
| "exec_i64_comparison I64GtS = i64_bin (cmp (\<lambda>a b. sint a > sint b))"
| "exec_i64_comparison I64GtU = i64_bin (cmp (\<lambda>a b. a > b))"
| "exec_i64_comparison I64LeS = i64_bin (cmp (\<lambda>a b. sint a \<le> sint b))"
| "exec_i64_comparison I64LeU = i64_bin (cmp (\<lambda>a b. a \<le> b))"
| "exec_i64_comparison I64GeS = i64_bin (cmp (\<lambda>a b. sint a \<ge> sint b))"
| "exec_i64_comparison I64GeU = i64_bin (cmp (\<lambda>a b. a \<ge> b))"

fun exec_i32_arithmetic :: "i32_arithmetic \<Rightarrow> (value_stack, trap_error, unit) st" where
  "exec_i32_arithmetic I32Clz = i32_un (\<lambda>a. I32 (of_nat (leading_zeros a)))"
| "exec_i32_arithmetic I32Ctz = i32_un (\<lambda>a. I32 (of_nat (trailing_zeros a)))"
| "exec_i32_arithmetic I32Popcnt = i32_un (\<lambda>a. I32 (of_nat (count_ones a)))"
| "exec_i32_arithmetic I32Add = i32_bin (\<lambda>a b. Ok (I32 (a + b)))"
| "exec_i32_arithmetic I32Sub = i32_bin (\<lambda>a b. Ok (I32 (a - b)))"
| "exec_i32_arithmetic I32Mul = i32_bin (\<lambda>a b. Ok (I32 (a * b)))"
| "exec_i32_arithmetic I32DivS = i32_bin (\<lambda>a b. wrap_result I32 (int_div_s a b))"
| "exec_i32_arithmetic I32DivU = i32_bin (\<lambda>a b. wrap_result I32 (int_div_u a b))"
| "exec_i32_arithmetic I32RemS = i32_bin (\<lambda>a b. wrap_result I32 (int_rem_s a b))"
| "exec_i32_arithmetic I32RemU = i32_bin (\<lambda>a b. wrap_result I32 (int_rem_u a b))"
| "exec_i32_arithmetic I32And = i32_bin (\<lambda>a b. Ok (I32 (a AND b)))"
| "exec_i32_arithmetic I32Or = i32_bin (\<lambda>a b. Ok (I32 (a OR b)))"
| "exec_i32_arithmetic I32Xor = i32_bin (\<lambda>a b. Ok (I32 (a XOR b)))"
| "exec_i32_arithmetic I32Shl = i32_bin (\<lambda>a b. Ok (I32 (int_shl a b)))"
| "exec_i32_arithmetic I32ShrS = i32_bin (\<lambda>a b. Ok (I32 (int_shr_s a b)))"
| "exec_i32_arithmetic I32ShrU = i32_bin (\<lambda>a b. Ok (I32 (int_shr_u a b)))"
| "exec_i32_arithmetic I32Rotl = i32_bin (\<lambda>a b. Ok (I32 (int_rotl a b)))"
| "exec_i32_arithmetic I32Rotr = i32_bin (\<lambda>a b. Ok (I32 (int_rotr a b)))"

fun exec_i64_arithmetic :: "i64_arithmetic \<Rightarrow> (value_stack, trap_error, unit) st" where
  "exec_i64_arithmetic I64Clz = i64_un (\<lambda>a. I64 (of_nat (leading_zeros a)))"
| "exec_i64_arithmetic I64Ctz = i64_un (\<lambda>a. I64 (of_nat (trailing_zeros a)))"
| "exec_i64_arithmetic I64Popcnt = i64_un (\<lambda>a. I64 (of_nat (count_ones a)))"
| "exec_i64_arithmetic I64Add = i64_bin (\<lambda>a b. Ok (I64 (a + b)))"
| "exec_i64_arithmetic I64Sub = i64_bin (\<lambda>a b. Ok (I64 (a - b)))"
| "exec_i64_arithmetic I64Mul = i64_bin (\<lambda>a b. Ok (I64 (a * b)))"
| "exec_i64_arithmetic I64DivS = i64_bin (\<lambda>a b. wrap_result I64 (int_div_s a b))"
| "exec_i64_arithmetic I64DivU = i64_bin (\<lambda>a b. wrap_result I64 (int_div_u a b))"
| "exec_i64_arithmetic I64RemS = i64_bin (\<lambda>a b. wrap_result I64 (int_rem_s a b))"
| "exec_i64_arithmetic I64RemU = i64_bin (\<lambda>a b. wrap_result I64 (int_rem_u a b))"
| "exec_i64_arithmetic I64And = i64_bin (\<lambda>a b. Ok (I64 (a AND b)))"
| "exec_i64_arithmetic I64Or = i64_bin (\<lambda>a b. Ok (I64 (a OR b)))"
| "exec_i64_arithmetic I64Xor = i64_bin (\<lambda>a b. Ok (I64 (a XOR b)))"
| "exec_i64_arithmetic I64Shl = i64_bin (\<lambda>a b. Ok (I64 (int_shl a b)))"
| "exec_i64_arithmetic I64ShrS = i64_bin (\<lambda>a b. Ok (I64 (int_shr_s a b)))"
| "exec_i64_arithmetic I64ShrU = i64_bin (\<lambda>a b. Ok (I64 (int_shr_u a b)))"
| "exec_i64_arithmetic I64Rotl = i64_bin (\<lambda>a b. Ok (I64 (int_rotl a b)))"
| "exec_i64_arithmetic I64Rotr = i64_bin (\<lambda>a b. Ok (I64 (int_rotr a b)))"

text \<open>\<open>a as i8 as i32\<close>: keep the low bits and sign-extend them.\<close>

definition extend_s :: "nat \<Rightarrow> 'a::len word \<Rightarrow> 'a word" where
  "extend_s n a = signed_take_bit (n - 1) a"

fun exec_sign_extension :: "sign_extension \<Rightarrow> (value_stack, trap_error, unit) st" where
  "exec_sign_extension I32Extend8S = i32_un (\<lambda>a. I32 (extend_s 8 a))"
| "exec_sign_extension I32Extend16S = i32_un (\<lambda>a. I32 (extend_s 16 a))"
| "exec_sign_extension I64Extend8S = i64_un (\<lambda>a. I64 (extend_s 8 a))"
| "exec_sign_extension I64Extend16S = i64_un (\<lambda>a. I64 (extend_s 16 a))"
| "exec_sign_extension I64Extend32S = i64_un (\<lambda>a. I64 (extend_s 32 a))"

lemmas numeric_defs = i32_un_def i32_bin_def i64_un_def i64_bin_def

section \<open>Effect on the operand stack\<close>

lemma numeric_wf [pres]:
  "preserves vs_wf (i32_un f)" "preserves vs_wf (i32_bin g)"
  "preserves vs_wf (i64_un h)" "preserves vs_wf (i64_bin k)"
  unfolding numeric_defs by (intro pres)+

lemma exec_numeric_wf [pres]:
  "preserves vs_wf (exec_i32_comparison c32)" "preserves vs_wf (exec_i64_comparison c64)"
  "preserves vs_wf (exec_i32_arithmetic a32)" "preserves vs_wf (exec_i64_arithmetic a64)"
  "preserves vs_wf (exec_sign_extension se)"
  subgoal by (cases c32; simp add: pres)
  subgoal by (cases c64; simp add: pres)
  subgoal by (cases a32; simp add: pres)
  subgoal by (cases a64; simp add: pres)
  subgoal by (cases se; simp add: pres)
  done

lemma i32_bin_run:
  assumes "vs_values s = I32 b # I32 a # vs" and "f a b = Ok r" and "vs_wf s"
  shows "i32_bin f s = (Ok (), s\<lparr>vs_values := r # vs\<rparr>)"
  using assms
  by (simp add: i32_bin_def vs_pop_i32_def vs_pop_def bind_def vs_push_def vs_wf_def)

lemma i32_bin_trap:
  assumes "vs_values s = I32 b # I32 a # vs" and "f a b = Err e"
  shows "i32_bin f s = (Err e, s\<lparr>vs_values := vs\<rparr>)"
  using assms
  by (simp add: i32_bin_def vs_pop_i32_def vs_pop_def bind_def)

lemma i64_bin_run:
  assumes "vs_values s = I64 b # I64 a # vs" and "f a b = Ok r" and "vs_wf s"
  shows "i64_bin f s = (Ok (), s\<lparr>vs_values := r # vs\<rparr>)"
  using assms
  by (simp add: i64_bin_def vs_pop_i64_def vs_pop_def bind_def vs_push_def vs_wf_def)

lemma i64_bin_trap:
  assumes "vs_values s = I64 b # I64 a # vs" and "f a b = Err e"
  shows "i64_bin f s = (Err e, s\<lparr>vs_values := vs\<rparr>)"
  using assms
  by (simp add: i64_bin_def vs_pop_i64_def vs_pop_def bind_def)


section \<open>Correctness of the integer operations\<close>

lemma int_min_of_int: "(int_min :: 'a::len word) = word_of_int (2 ^ (LENGTH('a) - 1))"
  by (simp add: int_min_def push_bit_eq_mult)

lemma sint_of_int_fits:
  assumes "- (2 ^ (LENGTH('a) - 1)) \<le> k" and "k < 2 ^ (LENGTH('a) - 1)"
  shows "sint (word_of_int k :: 'a::len word) = k"
  using assms unfolding sint_sbintrunc' by (rule signed_take_bit_int_eq_self)

lemma sint_int_min: "sint (int_min :: 'a::len word) = - (2 ^ (LENGTH('a) - 1))"
  unfolding int_min_of_int sint_sbintrunc'
  by (simp add: signed_take_bit_eq_take_bit_shift take_bit_eq_mod flip: mult_2 power_Suc)

lemma int_min_iff: "a = int_min \<longleftrightarrow> sint a = - (2 ^ (LENGTH('a) - 1))" for a :: "'a::len word"
  by (metis sint_int_min signed_word_eqI)

lemma minus_one_iff: "b = - 1 \<longleftrightarrow> sint b = - 1" for b :: "'a::len word"
  by (metis sint_n1 signed_word_eqI)

lemma sint_range: "- (2 ^ (LENGTH('a) - 1)) \<le> sint a" "sint a < 2 ^ (LENGTH('a) - 1)"
  for a :: "'a::len word"
  using sint_ge [of a] sint_lt [of a] by simp_all

text \<open>The only quotient of two \<open>n\<close>-bit numbers that is not one is the one the code rejects.\<close>

lemma sdiv_overflow_iff:
  fixes a b :: "'a::len word"
  shows "2 ^ (LENGTH('a) - 1) \<le> sint a sdiv sint b \<longleftrightarrow> a = int_min \<and> b = - 1"
proof
  assume le: "2 ^ (LENGTH('a) - 1) \<le> sint a sdiv sint b"
  have "\<bar>sint a\<bar> \<ge> sint a sdiv sint b" using sdiv_int_range [of "sint a" "sint b"] by simp
  with le sint_range [of a] have a: "sint a = - (2 ^ (LENGTH('a) - 1))" by linarith
  with le sdiv_int_range [of "sint a" "sint b"] have "sint a sdiv sint b = - sint a" by simp
  then have "sint b = - 1" using int_sdiv_negated_is_minus1 [of "sint a" "sint b"] a by simp
  with a show "a = int_min \<and> b = - 1" by (simp add: int_min_iff minus_one_iff)
qed (simp add: sint_int_min)

lemma sint_sdiv:
  fixes a b :: "'a::len word"
  assumes "\<not> (a = int_min \<and> b = - 1)"
  shows "sint (word_of_int (sint a sdiv sint b) :: 'a word) = sint a sdiv sint b"
proof (rule sint_of_int_fits)
  show "sint a sdiv sint b < 2 ^ (LENGTH('a) - 1)"
    using assms sdiv_overflow_iff [of a b] by linarith
  show "- (2 ^ (LENGTH('a) - 1)) \<le> sint a sdiv sint b"
    using sdiv_int_range [of "sint a" "sint b"] sint_range [of a] unfolding atLeastAtMost_iff by linarith
qed

lemma sint_smod:
  fixes a b :: "'a::len word"
  assumes "b \<noteq> 0"
  shows "sint (word_of_int (sint a smod sint b) :: 'a word) = sint a smod sint b"
proof (rule sint_of_int_fits)
  have b: "sint b \<noteq> 0" using assms by (metis sint_0 signed_word_eqI)
  show "sint a smod sint b < 2 ^ (LENGTH('a) - 1)" "- (2 ^ (LENGTH('a) - 1)) \<le> sint a smod sint b"
    using smod_int_range [OF b, of "sint a"] sint_range [of b] unfolding atLeastAtMost_iff by linarith+
qed

lemma int_div_s_cases:
  fixes a b :: "'a::len word"
  obtains (zero) "b = 0" "int_div_s a b = Err DivisionByZero"
  | (overflow) "b \<noteq> 0" "sint a sdiv sint b = 2 ^ (LENGTH('a) - 1)" "int_div_s a b = Err IntegerOverflow"
  | (quotient) q where "b \<noteq> 0" "sint a sdiv sint b < 2 ^ (LENGTH('a) - 1)" 
      "int_div_s a b = Ok q" "sint q = sint a sdiv sint b"
proof (cases "b = 0")
  case False
  show ?thesis
  proof (cases "a = int_min \<and> b = - 1")
    case True then show ?thesis using overflow False by (simp add: int_div_s_def sint_int_min)
  next
    case no: False
    then have "int_div_s a b = Ok (word_of_int (sint a sdiv sint b))"
      using False by (auto simp: int_div_s_def)
    moreover have "sint a sdiv sint b < 2 ^ (LENGTH('a) - 1)"
      using no sdiv_overflow_iff [of a b] by linarith
    ultimately show ?thesis using quotient False sint_sdiv [OF no] by blast
  qed
qed (use zero in \<open>simp add: int_div_s_def\<close>)

lemma int_rem_s_eq:
  fixes a b :: "'a::len word"
  shows "int_rem_s a b = (if b = 0 then Err DivisionByZero else Ok (word_of_int (sint a smod sint b)))"
  by (simp add: int_rem_s_def signed_modulo_int_def)

lemma shift_amount_less: "shift_amount (b :: 'a::len word) < LENGTH('a)"
  by (simp add: shift_amount_def)

text \<open>C9. Signed division and remainder are exact. On operands \<open>a\<close> and \<open>b\<close>, \<open>i32.div_s\<close>
  traps with \<open>DivisionByZero\<close> when \<open>b\<close> is zero, with \<open>IntegerOverflow\<close> when the quotient is
  not a 32-bit number, and otherwise replaces the operands by the quotient of the integers,
  rounded towards zero; \<open>i32.rem_s\<close> traps only on zero and otherwise leaves the
  remainder with the sign of the dividend, also where the quotient overflows.\<close>

theorem i32_signed_division:
  assumes "vs_wf s" and "vs_values s = I32 b # I32 a # vs"
  shows "exec_i32_arithmetic I32DivS s =
      (if b = 0 then (Err DivisionByZero, s\<lparr>vs_values := vs\<rparr>)
       else if sint a sdiv sint b = 2 ^ 31 then (Err IntegerOverflow, s\<lparr>vs_values := vs\<rparr>)
       else (Ok (), s\<lparr>vs_values := I32 (word_of_int (sint a sdiv sint b)) # vs\<rparr>))
    \<and> (b \<noteq> 0 \<and> sint a sdiv sint b \<noteq> 2 ^ 31 \<longrightarrow>
        sint (word_of_int (sint a sdiv sint b) :: i32) = sint a sdiv sint b)
    \<and> exec_i32_arithmetic I32RemS s =
      (if b = 0 then (Err DivisionByZero, s\<lparr>vs_values := vs\<rparr>)
       else (Ok (), s\<lparr>vs_values := I32 (word_of_int (sint a smod sint b)) # vs\<rparr>))
    \<and> (b \<noteq> 0 \<longrightarrow> sint (word_of_int (sint a smod sint b) :: i32) = sint a smod sint b)"
proof -
  have "exec_i32_arithmetic I32DivS s =
      (if b = 0 then (Err DivisionByZero, s\<lparr>vs_values := vs\<rparr>)
       else if sint a sdiv sint b = 2 ^ 31 then (Err IntegerOverflow, s\<lparr>vs_values := vs\<rparr>)
       else (Ok (), s\<lparr>vs_values := I32 (word_of_int (sint a sdiv sint b)) # vs\<rparr>))
    \<and> (b \<noteq> 0 \<and> sint a sdiv sint b \<noteq> 2 ^ 31 \<longrightarrow>
        sint (word_of_int (sint a sdiv sint b) :: i32) = sint a sdiv sint b)"
  proof (cases a b rule: int_div_s_cases)
    case (quotient q)
    then have "q = word_of_int (sint a sdiv sint b)" by (metis of_int_sint scast_id)
    with quotient show ?thesis
      using assms by (simp add: i32_bin_run [OF assms(2) _ assms(1)] wrap_result_def)
  qed (use assms in \<open>simp_all add: i32_bin_trap [OF assms(2)] wrap_result_def\<close>)
  moreover have "exec_i32_arithmetic I32RemS s =
      (if b = 0 then (Err DivisionByZero, s\<lparr>vs_values := vs\<rparr>)
       else (Ok (), s\<lparr>vs_values := I32 (word_of_int (sint a smod sint b)) # vs\<rparr>))"
    using assms by (simp add: int_rem_s_eq wrap_result_def
        i32_bin_trap [OF assms(2)] i32_bin_run [OF assms(2) _ assms(1)])
  ultimately show ?thesis using sint_smod [of b a] by blast
qed

theorem i32_signed_division_witness:
  "exec_i32_arithmetic I32DivS \<lparr>vs_values = [I32 2, I32 (- 7)], vs_max_depth = MAX_VALUE_STACK_DEPTH\<rparr>
    = (Ok (), \<lparr>vs_values = [I32 (- 3)], vs_max_depth = MAX_VALUE_STACK_DEPTH\<rparr>)"
  using i32_signed_division [of "\<lparr>vs_values = [I32 2, I32 (- 7)], vs_max_depth = MAX_VALUE_STACK_DEPTH\<rparr>"
      2 "- 7" "[]"]
  by (simp add: vs_wf_def MAX_VALUE_STACK_DEPTH_def)

lemma unat_shift_amount_32: "shift_amount (b :: i32) = unat b mod 32"
  by (simp add: shift_amount_def)

lemma unat_shift_amount_64: "shift_amount (b :: i64) = unat b mod 64"
  by (simp add: shift_amount_def unsigned_ucast_eq take_bit_eq_mod mod_mod_cancel)



end
