(* ===== verification/Wasm_Float.thy ===== *)
theory Wasm_Float
  imports Wasm_Numeric
begin

unbundle bit_operations_syntax

text \<open>
  Floating point in the executor (runtime/src/executor.rs). A value of type \<open>f32\<close> or
  \<open>f64\<close> is its bit pattern. The first section is the language's arithmetic, IEEE 754 with
  round to nearest, ties to even, on bit patterns read as a sign, an exponent and a
  fraction; both formats share it. An operation that produces a NaN produces the quiet NaN
  \<open>f32::NAN\<close>: the language leaves the payload open, and no property looks at it. The other
  sections are the helper functions of the executor, written over that arithmetic, and the
  instruction groups.
\<close>

section \<open>IEEE 754 arithmetic\<close>

record float_format =
  ff_exp :: nat
  ff_man :: nat

definition binary32 :: float_format where
  "binary32 = \<lparr>ff_exp = 8, ff_man = 23\<rparr>"

definition binary64 :: float_format where
  "binary64 = \<lparr>ff_exp = 11, ff_man = 52\<rparr>"

definition f_mag :: "float_format \<Rightarrow> nat \<Rightarrow> nat" where
  "f_mag f n = n mod 2 ^ (ff_exp f + ff_man f)"

definition f_sign :: "float_format \<Rightarrow> nat \<Rightarrow> bool" where
  "f_sign f n = odd (n div 2 ^ (ff_exp f + ff_man f))"

definition f_inf :: "float_format \<Rightarrow> nat" where
  "f_inf f = (2 ^ ff_exp f - 1) * 2 ^ ff_man f"

definition f_with_sign :: "float_format \<Rightarrow> bool \<Rightarrow> nat \<Rightarrow> nat" where
  "f_with_sign f s n = (if s then 2 ^ (ff_exp f + ff_man f) + n else n)"

definition f_nan :: "float_format \<Rightarrow> nat" where
  "f_nan f = f_inf f + 2 ^ (ff_man f - 1)"

definition f_is_nan :: "float_format \<Rightarrow> nat \<Rightarrow> bool" where
  "f_is_nan f n = (f_mag f n > f_inf f)"

definition f_is_inf :: "float_format \<Rightarrow> nat \<Rightarrow> bool" where
  "f_is_inf f n = (f_mag f n = f_inf f)"

text \<open>A finite pattern stands for \<open>\<plusminus> f_num * 2 ^ f_pow\<close>; \<open>f_emin\<close> is the least power.\<close>

definition f_emin :: "float_format \<Rightarrow> int" where
  "f_emin f = 2 - 2 ^ (ff_exp f - 1) - int (ff_man f)"

definition f_num :: "float_format \<Rightarrow> nat \<Rightarrow> nat" where
  "f_num f n = (let e = f_mag f n div 2 ^ ff_man f; m = f_mag f n mod 2 ^ ff_man f
                in if e = 0 then m else 2 ^ ff_man f + m)"

definition f_pow :: "float_format \<Rightarrow> nat \<Rightarrow> int" where
  "f_pow f n = f_emin f + int (f_mag f n div 2 ^ ff_man f - 1)"

definition f_int_num :: "float_format \<Rightarrow> nat \<Rightarrow> int" where
  "f_int_num f n = (if f_sign f n then - int (f_num f n) else int (f_num f n))"

text \<open>The order of the values is the order of sign and magnitude.\<close>

definition f_key :: "float_format \<Rightarrow> nat \<Rightarrow> int" where
  "f_key f n = (if f_sign f n then - int (f_mag f n) else int (f_mag f n))"

definition f_lt :: "float_format \<Rightarrow> nat \<Rightarrow> nat \<Rightarrow> bool" where
  "f_lt f a b = (\<not> f_is_nan f a \<and> \<not> f_is_nan f b \<and> f_key f a < f_key f b)"

definition f_eq :: "float_format \<Rightarrow> nat \<Rightarrow> nat \<Rightarrow> bool" where
  "f_eq f a b = (\<not> f_is_nan f a \<and> \<not> f_is_nan f b \<and> f_key f a = f_key f b)"

definition f_le :: "float_format \<Rightarrow> nat \<Rightarrow> nat \<Rightarrow> bool" where
  "f_le f a b = (\<not> f_is_nan f a \<and> \<not> f_is_nan f b \<and> f_key f a \<le> f_key f b)"

fun bit_length :: "nat \<Rightarrow> nat" where
  "bit_length n = (if n = 0 then 0 else Suc (bit_length (n div 2)))"

declare bit_length.simps [simp del]

text \<open>The quotient \<open>n div 2 ^ d\<close> rounded to nearest; \<open>sticky\<close> says that the number lies
  strictly above \<open>n\<close>.\<close>

definition f_shift_round :: "nat \<Rightarrow> nat \<Rightarrow> bool \<Rightarrow> nat" where
  "f_shift_round n d sticky =
     (let q = n div 2 ^ d; r = n mod 2 ^ d in
      if 2 * r > 2 ^ d \<or> (2 * r = 2 ^ d \<and> (sticky \<or> odd q)) then q + 1 else q)"

text \<open>The magnitude nearest to \<open>n * 2 ^ e\<close>; numbers beyond the range become infinite.\<close>

definition f_round :: "float_format \<Rightarrow> nat \<Rightarrow> int \<Rightarrow> bool \<Rightarrow> nat" where
  "f_round f n e sticky =
     (let p = max (f_emin f) (e + int (bit_length n) - 1 - int (ff_man f));
          m = (if p \<le> e then n * 2 ^ nat (e - p) else f_shift_round n (nat (p - e)) sticky)
      in min (f_inf f) (nat (p - f_emin f) * 2 ^ ff_man f + m))"

definition f_add :: "float_format \<Rightarrow> nat \<Rightarrow> nat \<Rightarrow> nat" where
  "f_add f a b =
     (if f_is_nan f a \<or> f_is_nan f b then f_nan f
      else if f_is_inf f a then (if f_is_inf f b \<and> f_sign f a \<noteq> f_sign f b then f_nan f else a)
      else if f_is_inf f b then b
      else let e = min (f_pow f a) (f_pow f b);
               s = f_int_num f a * 2 ^ nat (f_pow f a - e) + f_int_num f b * 2 ^ nat (f_pow f b - e)
           in if s = 0 then f_with_sign f (f_sign f a \<and> f_sign f b) 0
              else f_with_sign f (s < 0) (f_round f (nat \<bar>s\<bar>) e False))"

definition f_sub :: "float_format \<Rightarrow> nat \<Rightarrow> nat \<Rightarrow> nat" where
  "f_sub f a b =
     (if f_is_nan f b then f_nan f
      else f_add f a (f_with_sign f (\<not> f_sign f b) (f_mag f b)))"

definition f_mul :: "float_format \<Rightarrow> nat \<Rightarrow> nat \<Rightarrow> nat" where
  "f_mul f a b =
     (let s = (f_sign f a \<noteq> f_sign f b) in
      if f_is_nan f a \<or> f_is_nan f b then f_nan f
      else if f_is_inf f a \<or> f_is_inf f b
        then (if f_mag f a = 0 \<or> f_mag f b = 0 then f_nan f else f_with_sign f s (f_inf f))
      else f_with_sign f s (f_round f (f_num f a * f_num f b) (f_pow f a + f_pow f b) False))"

text \<open>Division scales the dividend so that the quotient has two bits more than the result.\<close>

definition f_div :: "float_format \<Rightarrow> nat \<Rightarrow> nat \<Rightarrow> nat" where
  "f_div f a b =
     (let s = (f_sign f a \<noteq> f_sign f b) in
      if f_is_nan f a \<or> f_is_nan f b then f_nan f
      else if f_is_inf f a then (if f_is_inf f b then f_nan f else f_with_sign f s (f_inf f))
      else if f_is_inf f b then f_with_sign f s 0
      else if f_mag f b = 0 then (if f_mag f a = 0 then f_nan f else f_with_sign f s (f_inf f))
      else let k = ff_man f + 3 + bit_length (f_num f b);
               n = f_num f a * 2 ^ k
           in f_with_sign f s (f_round f (n div f_num f b) (f_pow f a - f_pow f b - int k)
                                 (n mod f_num f b \<noteq> 0)))"

definition f_of_int :: "float_format \<Rightarrow> int \<Rightarrow> nat" where
  "f_of_int f i = f_with_sign f (i < 0) (f_round f (nat \<bar>i\<bar>) 0 False)"

text \<open>The cast between the two formats.\<close>

definition f_cast :: "float_format \<Rightarrow> float_format \<Rightarrow> nat \<Rightarrow> nat" where
  "f_cast f g a =
     (if f_is_nan f a then f_nan g
      else if f_is_inf f a then f_with_sign g (f_sign f a) (f_inf g)
      else f_with_sign g (f_sign f a) (f_round g (f_num f a) (f_pow f a) False))"

definition f_trunc_nat :: "float_format \<Rightarrow> nat \<Rightarrow> nat" where
  "f_trunc_nat f a = (if f_pow f a \<ge> 0 then f_num f a * 2 ^ nat (f_pow f a)
                      else f_num f a div 2 ^ nat (- f_pow f a))"

text \<open>The cast \<open>a as iN\<close> rounds towards zero and saturates at the bounds; NaN becomes 0.\<close>

definition f_to_int :: "float_format \<Rightarrow> int \<Rightarrow> int \<Rightarrow> nat \<Rightarrow> int" where
  "f_to_int f lo hi a =
     (if f_is_nan f a then 0
      else if f_is_inf f a then (if f_sign f a then lo else hi)
      else let t = int (f_trunc_nat f a)
           in max lo (min hi (if f_sign f a then - t else t)))"

definition i32_lo :: int where "i32_lo = - (2 ^ 31)"
definition i32_hi :: int where "i32_hi = 2 ^ 31 - 1"
definition u32_hi :: int where "u32_hi = 2 ^ 32 - 1"
definition i64_lo :: int where "i64_lo = - (2 ^ 63)"
definition i64_hi :: int where "i64_hi = 2 ^ 63 - 1"
definition u64_hi :: int where "u64_hi = 2 ^ 64 - 1"

lemmas int_bounds = i32_lo_def i32_hi_def u32_hi_def i64_lo_def i64_hi_def u64_hi_def


section \<open>The operations on \<open>f32\<close>\<close>

definition f32_is_nan :: "u32 \<Rightarrow> bool" where
  "f32_is_nan a = f_is_nan binary32 (unat a)"

definition f32_is_infinite :: "u32 \<Rightarrow> bool" where
  "f32_is_infinite a = f_is_inf binary32 (unat a)"

definition f32_eq :: "u32 \<Rightarrow> u32 \<Rightarrow> bool" where
  "f32_eq a b = f_eq binary32 (unat a) (unat b)"

definition f32_lt :: "u32 \<Rightarrow> u32 \<Rightarrow> bool" where
  "f32_lt a b = f_lt binary32 (unat a) (unat b)"

definition f32_le :: "u32 \<Rightarrow> u32 \<Rightarrow> bool" where
  "f32_le a b = f_le binary32 (unat a) (unat b)"

definition f32_add :: "u32 \<Rightarrow> u32 \<Rightarrow> u32" where
  "f32_add a b = of_nat (f_add binary32 (unat a) (unat b))"

definition f32_sub :: "u32 \<Rightarrow> u32 \<Rightarrow> u32" where
  "f32_sub a b = of_nat (f_sub binary32 (unat a) (unat b))"

definition f32_mul :: "u32 \<Rightarrow> u32 \<Rightarrow> u32" where
  "f32_mul a b = of_nat (f_mul binary32 (unat a) (unat b))"

definition f32_div :: "u32 \<Rightarrow> u32 \<Rightarrow> u32" where
  "f32_div a b = of_nat (f_div binary32 (unat a) (unat b))"

definition f32_of_int :: "int \<Rightarrow> u32" where
  "f32_of_int i = of_nat (f_of_int binary32 i)"

definition f32_to_int :: "int \<Rightarrow> int \<Rightarrow> u32 \<Rightarrow> int" where
  "f32_to_int lo hi a = f_to_int binary32 lo hi (unat a)"

definition f32_NAN :: u32 where
  "f32_NAN = of_nat (f_nan binary32)"

definition f32_abs :: "u32 \<Rightarrow> u32" where
  "f32_abs a = a AND 0x7FFFFFFF"

definition f32_neg :: "u32 \<Rightarrow> u32" where
  "f32_neg a = a XOR 0x80000000"

definition f32_copysign :: "u32 \<Rightarrow> u32 \<Rightarrow> u32" where
  "f32_copysign a b = (a AND 0x7FFFFFFF) OR (b AND 0x80000000)"

definition f32_min :: "u32 \<Rightarrow> u32 \<Rightarrow> u32" where
  "f32_min a b =
     (if f32_is_nan a \<or> f32_is_nan b then f32_NAN
      else if f32_eq a 0 \<and> f32_eq b 0 then (if a AND 0x80000000 \<noteq> 0 then a else b)
      else if f32_lt a b then a else b)"

definition f32_max :: "u32 \<Rightarrow> u32 \<Rightarrow> u32" where
  "f32_max a b =
     (if f32_is_nan a \<or> f32_is_nan b then f32_NAN
      else if f32_eq a 0 \<and> f32_eq b 0 then (if a AND 0x80000000 \<noteq> 0 then b else a)
      else if f32_lt b a then a else b)"

definition f32_ceil :: "u32 \<Rightarrow> u32" where
  "f32_ceil a =
     (if f32_is_nan a \<or> f32_is_infinite a \<or> f32_eq a 0 then a
      else let i = f32_of_int (f32_to_int i32_lo i32_hi a) in
           if f32_lt 0 a \<and> f32_lt i a then f32_add i (f32_of_int 1) else i)"

definition f32_floor :: "u32 \<Rightarrow> u32" where
  "f32_floor a =
     (if f32_is_nan a \<or> f32_is_infinite a \<or> f32_eq a 0 then a
      else let i = f32_of_int (f32_to_int i32_lo i32_hi a) in
           if f32_lt a 0 \<and> f32_lt a i then f32_sub i (f32_of_int 1) else i)"

definition f32_trunc :: "u32 \<Rightarrow> u32" where
  "f32_trunc a =
     (if f32_is_nan a \<or> f32_is_infinite a \<or> f32_eq a 0 then a
      else f32_of_int (f32_to_int i32_lo i32_hi a))"

definition f32_half :: u32 where
  "f32_half = 0x3F000000"

definition f32_nearest :: "u32 \<Rightarrow> u32" where
  "f32_nearest a =
     (if f32_is_nan a \<or> f32_is_infinite a \<or> f32_eq a 0 then a
      else let r = f32_floor (f32_add a f32_half) in
           if f32_eq (f32_add a f32_half) r \<and> f32_to_int i32_lo i32_hi r smod 2 \<noteq> 0
           then f32_sub r (f32_of_int 1) else r)"

definition f32_sqrt :: "u32 \<Rightarrow> u32" where
  "f32_sqrt a =
     (if f32_is_nan a \<or> f32_lt a 0 then f32_NAN
      else if f32_eq a 0 \<or> f32_is_infinite a then a
      else ((\<lambda>x. f32_mul f32_half (f32_add x (f32_div a x))) ^^ 8)
             (drop_bit 1 a + 0x1FC00000))"

section \<open>The operations on \<open>f64\<close>\<close>

definition f64_is_nan :: "u64 \<Rightarrow> bool" where
  "f64_is_nan a = f_is_nan binary64 (unat a)"

definition f64_is_infinite :: "u64 \<Rightarrow> bool" where
  "f64_is_infinite a = f_is_inf binary64 (unat a)"

definition f64_eq :: "u64 \<Rightarrow> u64 \<Rightarrow> bool" where
  "f64_eq a b = f_eq binary64 (unat a) (unat b)"

definition f64_lt :: "u64 \<Rightarrow> u64 \<Rightarrow> bool" where
  "f64_lt a b = f_lt binary64 (unat a) (unat b)"

definition f64_le :: "u64 \<Rightarrow> u64 \<Rightarrow> bool" where
  "f64_le a b = f_le binary64 (unat a) (unat b)"

definition f64_add :: "u64 \<Rightarrow> u64 \<Rightarrow> u64" where
  "f64_add a b = of_nat (f_add binary64 (unat a) (unat b))"

definition f64_sub :: "u64 \<Rightarrow> u64 \<Rightarrow> u64" where
  "f64_sub a b = of_nat (f_sub binary64 (unat a) (unat b))"

definition f64_mul :: "u64 \<Rightarrow> u64 \<Rightarrow> u64" where
  "f64_mul a b = of_nat (f_mul binary64 (unat a) (unat b))"

definition f64_div :: "u64 \<Rightarrow> u64 \<Rightarrow> u64" where
  "f64_div a b = of_nat (f_div binary64 (unat a) (unat b))"

definition f64_of_int :: "int \<Rightarrow> u64" where
  "f64_of_int i = of_nat (f_of_int binary64 i)"

definition f64_to_int :: "int \<Rightarrow> int \<Rightarrow> u64 \<Rightarrow> int" where
  "f64_to_int lo hi a = f_to_int binary64 lo hi (unat a)"

definition f64_NAN :: u64 where
  "f64_NAN = of_nat (f_nan binary64)"

definition f64_abs :: "u64 \<Rightarrow> u64" where
  "f64_abs a = a AND 0x7FFFFFFFFFFFFFFF"

definition f64_neg :: "u64 \<Rightarrow> u64" where
  "f64_neg a = a XOR 0x8000000000000000"

definition f64_copysign :: "u64 \<Rightarrow> u64 \<Rightarrow> u64" where
  "f64_copysign a b = (a AND 0x7FFFFFFFFFFFFFFF) OR (b AND 0x8000000000000000)"

definition f64_min :: "u64 \<Rightarrow> u64 \<Rightarrow> u64" where
  "f64_min a b =
     (if f64_is_nan a \<or> f64_is_nan b then f64_NAN
      else if f64_eq a 0 \<and> f64_eq b 0 then (if a AND 0x8000000000000000 \<noteq> 0 then a else b)
      else if f64_lt a b then a else b)"

definition f64_max :: "u64 \<Rightarrow> u64 \<Rightarrow> u64" where
  "f64_max a b =
     (if f64_is_nan a \<or> f64_is_nan b then f64_NAN
      else if f64_eq a 0 \<and> f64_eq b 0 then (if a AND 0x8000000000000000 \<noteq> 0 then b else a)
      else if f64_lt b a then a else b)"

definition f64_ceil :: "u64 \<Rightarrow> u64" where
  "f64_ceil a =
     (if f64_is_nan a \<or> f64_is_infinite a \<or> f64_eq a 0 then a
      else let i = f64_of_int (f64_to_int i64_lo i64_hi a) in
           if f64_lt 0 a \<and> f64_lt i a then f64_add i (f64_of_int 1) else i)"

definition f64_floor :: "u64 \<Rightarrow> u64" where
  "f64_floor a =
     (if f64_is_nan a \<or> f64_is_infinite a \<or> f64_eq a 0 then a
      else let i = f64_of_int (f64_to_int i64_lo i64_hi a) in
           if f64_lt a 0 \<and> f64_lt a i then f64_sub i (f64_of_int 1) else i)"

definition f64_trunc :: "u64 \<Rightarrow> u64" where
  "f64_trunc a =
     (if f64_is_nan a \<or> f64_is_infinite a \<or> f64_eq a 0 then a
      else f64_of_int (f64_to_int i64_lo i64_hi a))"

definition f64_half :: u64 where
  "f64_half = 0x3FE0000000000000"

definition f64_nearest :: "u64 \<Rightarrow> u64" where
  "f64_nearest a =
     (if f64_is_nan a \<or> f64_is_infinite a \<or> f64_eq a 0 then a
      else let r = f64_floor (f64_add a f64_half) in
           if f64_eq (f64_add a f64_half) r \<and> f64_to_int i64_lo i64_hi r smod 2 \<noteq> 0
           then f64_sub r (f64_of_int 1) else r)"

definition f64_sqrt :: "u64 \<Rightarrow> u64" where
  "f64_sqrt a =
     (if f64_is_nan a \<or> f64_lt a 0 then f64_NAN
      else if f64_eq a 0 \<or> f64_is_infinite a then a
      else ((\<lambda>x. f64_mul f64_half (f64_add x (f64_div a x))) ^^ 12)
             (drop_bit 1 a + 0x1FF8000000000000))"

section \<open>Saturating truncation\<close>

definition trunc_sat_f32_i32 :: "u32 \<Rightarrow> i32" where
  "trunc_sat_f32_i32 a =
     (if f32_is_nan a then 0
      else if f32_le (f32_of_int i32_hi) a then of_int i32_hi
      else if f32_le a (f32_of_int i32_lo) then of_int i32_lo
      else of_int (f32_to_int i32_lo i32_hi a))"

definition trunc_sat_f32_u32 :: "u32 \<Rightarrow> u32" where
  "trunc_sat_f32_u32 a =
     (if f32_is_nan a then 0
      else if f32_le (f32_of_int u32_hi) a then of_int u32_hi
      else if f32_le a 0 then 0
      else of_int (f32_to_int 0 u32_hi a))"

definition trunc_sat_f64_i32 :: "u64 \<Rightarrow> i32" where
  "trunc_sat_f64_i32 a =
     (if f64_is_nan a then 0
      else if f64_le (f64_of_int i32_hi) a then of_int i32_hi
      else if f64_le a (f64_of_int i32_lo) then of_int i32_lo
      else of_int (f64_to_int i32_lo i32_hi a))"

definition trunc_sat_f64_u32 :: "u64 \<Rightarrow> u32" where
  "trunc_sat_f64_u32 a =
     (if f64_is_nan a then 0
      else if f64_le (f64_of_int u32_hi) a then of_int u32_hi
      else if f64_le a 0 then 0
      else of_int (f64_to_int 0 u32_hi a))"

definition trunc_sat_f32_i64 :: "u32 \<Rightarrow> i64" where
  "trunc_sat_f32_i64 a =
     (if f32_is_nan a then 0
      else if f32_le (f32_of_int i64_hi) a then of_int i64_hi
      else if f32_le a (f32_of_int i64_lo) then of_int i64_lo
      else of_int (f32_to_int i64_lo i64_hi a))"

definition trunc_sat_f32_u64 :: "u32 \<Rightarrow> u64" where
  "trunc_sat_f32_u64 a =
     (if f32_is_nan a then 0
      else if f32_le (f32_of_int u64_hi) a then of_int u64_hi
      else if f32_le a 0 then 0
      else of_int (f32_to_int 0 u64_hi a))"

definition trunc_sat_f64_i64 :: "u64 \<Rightarrow> i64" where
  "trunc_sat_f64_i64 a =
     (if f64_is_nan a then 0
      else if f64_le (f64_of_int i64_hi) a then of_int i64_hi
      else if f64_le a (f64_of_int i64_lo) then of_int i64_lo
      else of_int (f64_to_int i64_lo i64_hi a))"

definition trunc_sat_f64_u64 :: "u64 \<Rightarrow> u64" where
  "trunc_sat_f64_u64 a =
     (if f64_is_nan a then 0
      else if f64_le (f64_of_int u64_hi) a then of_int u64_hi
      else if f64_le a 0 then 0
      else of_int (f64_to_int 0 u64_hi a))"

section \<open>The instruction groups\<close>

definition f32_un :: "(u32 \<Rightarrow> wasm_value) \<Rightarrow> (value_stack, trap_error, unit) st" where
  "f32_un g = bind vs_pop_f32 (\<lambda>a. vs_push (g a))"

definition f32_bin :: "(u32 \<Rightarrow> u32 \<Rightarrow> wasm_value) \<Rightarrow> (value_stack, trap_error, unit) st" where
  "f32_bin g = bind vs_pop_f32 (\<lambda>b. bind vs_pop_f32 (\<lambda>a. vs_push (g a b)))"

fun exec_f32_comparison :: "f32_comparison \<Rightarrow> (value_stack, trap_error, unit) st" where
  "exec_f32_comparison F32Eq = f32_bin (\<lambda>a b. bool_i32 (f32_eq a b))"
| "exec_f32_comparison F32Ne = f32_bin (\<lambda>a b. bool_i32 (\<not> f32_eq a b))"
| "exec_f32_comparison F32Lt = f32_bin (\<lambda>a b. bool_i32 (f32_lt a b))"
| "exec_f32_comparison F32Gt = f32_bin (\<lambda>a b. bool_i32 (f32_lt b a))"
| "exec_f32_comparison F32Le = f32_bin (\<lambda>a b. bool_i32 (f32_le a b))"
| "exec_f32_comparison F32Ge = f32_bin (\<lambda>a b. bool_i32 (f32_le b a))"

fun exec_f32_arithmetic :: "f32_arithmetic \<Rightarrow> (value_stack, trap_error, unit) st" where
  "exec_f32_arithmetic F32Abs = f32_un (\<lambda>a. F32 (f32_abs a))"
| "exec_f32_arithmetic F32Neg = f32_un (\<lambda>a. F32 (f32_neg a))"
| "exec_f32_arithmetic F32Ceil = f32_un (\<lambda>a. F32 (f32_ceil a))"
| "exec_f32_arithmetic F32Floor = f32_un (\<lambda>a. F32 (f32_floor a))"
| "exec_f32_arithmetic F32Trunc = f32_un (\<lambda>a. F32 (f32_trunc a))"
| "exec_f32_arithmetic F32Nearest = f32_un (\<lambda>a. F32 (f32_nearest a))"
| "exec_f32_arithmetic F32Sqrt = f32_un (\<lambda>a. F32 (f32_sqrt a))"
| "exec_f32_arithmetic F32Add = f32_bin (\<lambda>a b. F32 (f32_add a b))"
| "exec_f32_arithmetic F32Sub = f32_bin (\<lambda>a b. F32 (f32_sub a b))"
| "exec_f32_arithmetic F32Mul = f32_bin (\<lambda>a b. F32 (f32_mul a b))"
| "exec_f32_arithmetic F32Div = f32_bin (\<lambda>a b. F32 (f32_div a b))"
| "exec_f32_arithmetic F32Min = f32_bin (\<lambda>a b. F32 (f32_min a b))"
| "exec_f32_arithmetic F32Max = f32_bin (\<lambda>a b. F32 (f32_max a b))"
| "exec_f32_arithmetic F32Copysign = f32_bin (\<lambda>a b. F32 (f32_copysign a b))"

text \<open>A trapping truncation: NaN and numbers the guard rejects trap.\<close>

definition f32_trunc_trap :: "(u32 \<Rightarrow> bool) \<Rightarrow> (u32 \<Rightarrow> wasm_value) \<Rightarrow> (value_stack, trap_error, unit) st" where
  "f32_trunc_trap out g = bind vs_pop_f32 (\<lambda>a.
     if f32_is_nan a then throw InvalidConversionToInteger
     else if out a then throw IntegerOverflow
     else vs_push (g a))"

definition f64_un :: "(u64 \<Rightarrow> wasm_value) \<Rightarrow> (value_stack, trap_error, unit) st" where
  "f64_un g = bind vs_pop_f64 (\<lambda>a. vs_push (g a))"

definition f64_bin :: "(u64 \<Rightarrow> u64 \<Rightarrow> wasm_value) \<Rightarrow> (value_stack, trap_error, unit) st" where
  "f64_bin g = bind vs_pop_f64 (\<lambda>b. bind vs_pop_f64 (\<lambda>a. vs_push (g a b)))"

fun exec_f64_comparison :: "f64_comparison \<Rightarrow> (value_stack, trap_error, unit) st" where
  "exec_f64_comparison F64Eq = f64_bin (\<lambda>a b. bool_i32 (f64_eq a b))"
| "exec_f64_comparison F64Ne = f64_bin (\<lambda>a b. bool_i32 (\<not> f64_eq a b))"
| "exec_f64_comparison F64Lt = f64_bin (\<lambda>a b. bool_i32 (f64_lt a b))"
| "exec_f64_comparison F64Gt = f64_bin (\<lambda>a b. bool_i32 (f64_lt b a))"
| "exec_f64_comparison F64Le = f64_bin (\<lambda>a b. bool_i32 (f64_le a b))"
| "exec_f64_comparison F64Ge = f64_bin (\<lambda>a b. bool_i32 (f64_le b a))"

fun exec_f64_arithmetic :: "f64_arithmetic \<Rightarrow> (value_stack, trap_error, unit) st" where
  "exec_f64_arithmetic F64Abs = f64_un (\<lambda>a. F64 (f64_abs a))"
| "exec_f64_arithmetic F64Neg = f64_un (\<lambda>a. F64 (f64_neg a))"
| "exec_f64_arithmetic F64Ceil = f64_un (\<lambda>a. F64 (f64_ceil a))"
| "exec_f64_arithmetic F64Floor = f64_un (\<lambda>a. F64 (f64_floor a))"
| "exec_f64_arithmetic F64Trunc = f64_un (\<lambda>a. F64 (f64_trunc a))"
| "exec_f64_arithmetic F64Nearest = f64_un (\<lambda>a. F64 (f64_nearest a))"
| "exec_f64_arithmetic F64Sqrt = f64_un (\<lambda>a. F64 (f64_sqrt a))"
| "exec_f64_arithmetic F64Add = f64_bin (\<lambda>a b. F64 (f64_add a b))"
| "exec_f64_arithmetic F64Sub = f64_bin (\<lambda>a b. F64 (f64_sub a b))"
| "exec_f64_arithmetic F64Mul = f64_bin (\<lambda>a b. F64 (f64_mul a b))"
| "exec_f64_arithmetic F64Div = f64_bin (\<lambda>a b. F64 (f64_div a b))"
| "exec_f64_arithmetic F64Min = f64_bin (\<lambda>a b. F64 (f64_min a b))"
| "exec_f64_arithmetic F64Max = f64_bin (\<lambda>a b. F64 (f64_max a b))"
| "exec_f64_arithmetic F64Copysign = f64_bin (\<lambda>a b. F64 (f64_copysign a b))"

text \<open>A trapping truncation: NaN and numbers the guard rejects trap.\<close>

definition f64_trunc_trap :: "(u64 \<Rightarrow> bool) \<Rightarrow> (u64 \<Rightarrow> wasm_value) \<Rightarrow> (value_stack, trap_error, unit) st" where
  "f64_trunc_trap out g = bind vs_pop_f64 (\<lambda>a.
     if f64_is_nan a then throw InvalidConversionToInteger
     else if out a then throw IntegerOverflow
     else vs_push (g a))"

fun exec_conversion :: "conversion \<Rightarrow> (value_stack, trap_error, unit) st" where
  "exec_conversion I32WrapI64 = i64_un (\<lambda>a. I32 (ucast a))"
| "exec_conversion I32TruncF32S = f32_trunc_trap
     (\<lambda>a. f32_le (f32_of_int (2147483648)) a \<or> f32_lt a (f32_of_int (- 2147483648)))
     (\<lambda>a. I32 (of_int (f32_to_int i32_lo i32_hi a)))"
| "exec_conversion I32TruncF32U = f32_trunc_trap
     (\<lambda>a. f32_le (f32_of_int (4294967296)) a \<or> f32_le a (f32_of_int (- 1)))
     (\<lambda>a. I32 (of_int (f32_to_int 0 u32_hi a)))"
| "exec_conversion I32TruncF64S = f64_trunc_trap
     (\<lambda>a. f64_le (f64_of_int (2147483648)) a \<or> f64_le a (f64_of_int (- 2147483649)))
     (\<lambda>a. I32 (of_int (f64_to_int i32_lo i32_hi a)))"
| "exec_conversion I32TruncF64U = f64_trunc_trap
     (\<lambda>a. f64_le (f64_of_int (4294967296)) a \<or> f64_le a (f64_of_int (- 1)))
     (\<lambda>a. I32 (of_int (f64_to_int 0 u32_hi a)))"
| "exec_conversion I64ExtendI32S = i32_un (\<lambda>a. I64 (scast a))"
| "exec_conversion I64ExtendI32U = i32_un (\<lambda>a. I64 (ucast a))"
| "exec_conversion I64TruncF32S = f32_trunc_trap
     (\<lambda>a. f32_le (f32_of_int (9223372036854775808)) a \<or> f32_lt a (f32_of_int (- 9223372036854775808)))
     (\<lambda>a. I64 (of_int (f32_to_int i64_lo i64_hi a)))"
| "exec_conversion I64TruncF32U = f32_trunc_trap
     (\<lambda>a. f32_le (f32_of_int (18446744073709551616)) a \<or> f32_le a (f32_of_int (- 1)))
     (\<lambda>a. I64 (of_int (f32_to_int 0 u64_hi a)))"
| "exec_conversion I64TruncF64S = f64_trunc_trap
     (\<lambda>a. f64_le (f64_of_int (9223372036854775808)) a \<or> f64_lt a (f64_of_int (- 9223372036854775808)))
     (\<lambda>a. I64 (of_int (f64_to_int i64_lo i64_hi a)))"
| "exec_conversion I64TruncF64U = f64_trunc_trap
     (\<lambda>a. f64_le (f64_of_int (18446744073709551616)) a \<or> f64_le a (f64_of_int (- 1)))
     (\<lambda>a. I64 (of_int (f64_to_int 0 u64_hi a)))"
| "exec_conversion F32ConvertI32S = i32_un (\<lambda>a. F32 (f32_of_int (sint a)))"
| "exec_conversion F32ConvertI32U = i32_un (\<lambda>a. F32 (f32_of_int (uint a)))"
| "exec_conversion F32ConvertI64S = i64_un (\<lambda>a. F32 (f32_of_int (sint a)))"
| "exec_conversion F32ConvertI64U = i64_un (\<lambda>a. F32 (f32_of_int (uint a)))"
| "exec_conversion F32DemoteF64 = f64_un (\<lambda>a. F32 (of_nat (f_cast binary64 binary32 (unat a))))"
| "exec_conversion F64ConvertI32S = i32_un (\<lambda>a. F64 (f64_of_int (sint a)))"
| "exec_conversion F64ConvertI32U = i32_un (\<lambda>a. F64 (f64_of_int (uint a)))"
| "exec_conversion F64ConvertI64S = i64_un (\<lambda>a. F64 (f64_of_int (sint a)))"
| "exec_conversion F64ConvertI64U = i64_un (\<lambda>a. F64 (f64_of_int (uint a)))"
| "exec_conversion F64PromoteF32 = f32_un (\<lambda>a. F64 (of_nat (f_cast binary32 binary64 (unat a))))"

fun exec_reinterpretation :: "reinterpretation \<Rightarrow> (value_stack, trap_error, unit) st" where
  "exec_reinterpretation I32ReinterpretF32 = f32_un (\<lambda>a. I32 a)"
| "exec_reinterpretation I64ReinterpretF64 = f64_un (\<lambda>a. I64 a)"
| "exec_reinterpretation F32ReinterpretI32 = i32_un (\<lambda>a. F32 a)"
| "exec_reinterpretation F64ReinterpretI64 = i64_un (\<lambda>a. F64 a)"

fun exec_saturating_truncation :: "saturating_truncation \<Rightarrow> (value_stack, trap_error, unit) st" where
  "exec_saturating_truncation I32TruncSatF32S = f32_un (\<lambda>a. I32 (trunc_sat_f32_i32 a))"
| "exec_saturating_truncation I32TruncSatF32U = f32_un (\<lambda>a. I32 (trunc_sat_f32_u32 a))"
| "exec_saturating_truncation I32TruncSatF64S = f64_un (\<lambda>a. I32 (trunc_sat_f64_i32 a))"
| "exec_saturating_truncation I32TruncSatF64U = f64_un (\<lambda>a. I32 (trunc_sat_f64_u32 a))"
| "exec_saturating_truncation I64TruncSatF32S = f32_un (\<lambda>a. I64 (trunc_sat_f32_i64 a))"
| "exec_saturating_truncation I64TruncSatF32U = f32_un (\<lambda>a. I64 (trunc_sat_f32_u64 a))"
| "exec_saturating_truncation I64TruncSatF64S = f64_un (\<lambda>a. I64 (trunc_sat_f64_i64 a))"
| "exec_saturating_truncation I64TruncSatF64U = f64_un (\<lambda>a. I64 (trunc_sat_f64_u64 a))"

section \<open>Effect on the operand stack\<close>

lemma float_operands_wf [pres]:
  "preserves vs_wf (f32_un g)" "preserves vs_wf (f32_bin h)" "preserves vs_wf (f32_trunc_trap t g)"
  "preserves vs_wf (f64_un k)" "preserves vs_wf (f64_bin l)" "preserves vs_wf (f64_trunc_trap t' k)"
  unfolding f32_un_def f32_bin_def f64_un_def f64_bin_def f32_trunc_trap_def f64_trunc_trap_def
  by (intro pres)+

lemma exec_float_wf [pres]:
  "preserves vs_wf (exec_f32_comparison c32)" "preserves vs_wf (exec_f64_comparison c64)"
  "preserves vs_wf (exec_f32_arithmetic a32)" "preserves vs_wf (exec_f64_arithmetic a64)"
  "preserves vs_wf (exec_conversion cv)" "preserves vs_wf (exec_reinterpretation ri)"
  "preserves vs_wf (exec_saturating_truncation st)"
  subgoal by (cases c32; simp add: pres)
  subgoal by (cases c64; simp add: pres)
  subgoal by (cases a32; simp add: pres)
  subgoal by (cases a64; simp add: pres)
  subgoal by (cases cv; simp add: pres)
  subgoal by (cases ri; simp add: pres)
  subgoal by (cases st; simp add: pres)
  done

end
