(* ===== verification/Wasm_Exec.thy ===== *)
theory Wasm_Exec
  imports Wasm_Memory Wasm_Float
begin

unbundle bit_operations_syntax

text \<open>
  The executor (runtime/src/executor.rs): the execution context and its construction from a
  module, the effect of every instruction, and the main loop with its call stack and fuel.

  The machine of the main loop is the context, the value stack and the call stack. A host
  function is named by a number in the host-function table; what the number stands for is
  the parameter \<open>host\<close> of the functions that call it. The components of the context that
  only host functions use (the WASI contexts) are the field \<open>ec_wasi\<close> of an arbitrary type.

  The properties about the main loop are in the theory on execution properties.
\<close>

section \<open>The execution context\<close>

record host_function =
  hf_module :: string
  hf_name :: string
  hf_func :: nat
  hf_type_idx :: "u32 option"

record 'h executor_context =
  ec_module :: wasm_module
  ec_memories :: "linear_memory list"
  ec_tables :: "table list"
  ec_globals :: "global_value list"
  ec_host_functions :: "host_function option list"
  ec_fuel :: "u64 option"
  ec_stdout :: "u8 list"
  ec_stderr :: "u8 list"
  ec_exit_code :: "i32 option"
  ec_wasi :: "'h option"

type_synonym 'h host_env = "nat \<Rightarrow> wasm_value list \<Rightarrow> ('h executor_context, trap_error, wasm_value list) st"

section \<open>Error texts\<close>

fun memory_error_message :: "memory_error \<Rightarrow> string" where
  "memory_error_message InitialExceedsMaximum = ''Initial memory size exceeds maximum''"
| "memory_error_message MaximumExceedsLimit = ''Maximum memory size exceeds limit''"
| "memory_error_message InitialPagesExceedMaximumPages = ''Initial pages exceeds maximum pages''"
| "memory_error_message PageCountOverflow = ''Page count overflow''"
| "memory_error_message WouldExceedMaximum = ''Would exceed maximum memory size''"
| "memory_error_message WouldExceedAbsoluteMaximum = ''Would exceed absolute maximum memory size''"
| "memory_error_message AddressOverflow = ''Address overflow''"
| "memory_error_message (AccessOutOfBounds off len sz) =
     ''Memory access out of bounds: '' @ show_nat off @ '' + '' @ show_nat len @ '' > '' @ show_nat sz"
| "memory_error_message SliceOutOfBounds = ''Memory access out of bounds''"

text \<open>\<open>format!("{:?}", e)\<close>\<close>

definition memory_error_debug :: "memory_error \<Rightarrow> string" where
  "memory_error_debug e = ''MemoryError('' @ [char_of (34 :: nat)] @ memory_error_message e
     @ [char_of (34 :: nat)] @ '')''"

section \<open>Instantiation\<close>

fun eval_const_expr_static :: "instruction list \<Rightarrow> global_value list \<Rightarrow> (trap_error, wasm_value) result" where
  "eval_const_expr_static [] globals = Ok (I32 0)"
| "eval_const_expr_static (instr # rest) globals =
     (case instr of
        Const (I32Const v) \<Rightarrow> Ok (I32 v)
      | Const (I64Const v) \<Rightarrow> Ok (I64 v)
      | Const (F32Const v) \<Rightarrow> Ok (F32 v)
      | Const (F64Const v) \<Rightarrow> Ok (F64 v)
      | Variable (GlobalGet idx) \<Rightarrow>
          (case list_get globals (unat idx) of
             None \<Rightarrow> Err (ExecutionError ''global index out of range in init expr'')
           | Some g \<Rightarrow> Ok (gv_value g))
      | Reference RefNull \<Rightarrow> Ok (FuncRef None)
      | Reference (RefFunc idx) \<Rightarrow> Ok (FuncRef (Some idx))
      | _ \<Rightarrow> eval_const_expr_static rest globals)"

text \<open>\<open>as_i32().unwrap_or(0)\<close>, then \<open>as usize\<close>, which extends the sign to 64 bits.\<close>

definition usize_of_i32 :: "i32 \<Rightarrow> usize" where
  "usize_of_i32 x = unat (scast x :: u64)"

definition i32_or_0 :: "wasm_value \<Rightarrow> i32" where
  "i32_or_0 v = (case as_i32 v of Some x \<Rightarrow> x | None \<Rightarrow> 0)"

text \<open>Run an operation on the element of a vector that an index selects.\<close>

definition on_nth :: "nat \<Rightarrow> ('s, 'e, 'a) st \<Rightarrow> ('s list, 'e, 'a) st" where
  "on_nth i m xs = (case m (xs ! i) of (r, x) \<Rightarrow> (r, xs[i := x]))"

definition on_memories :: "(linear_memory list, 'e, 'a) st \<Rightarrow> ('h executor_context, 'e, 'a) st" where
  "on_memories m c = (case m (ec_memories c) of (r, x) \<Rightarrow> (r, c\<lparr>ec_memories := x\<rparr>))"

definition on_tables :: "(table list, 'e, 'a) st \<Rightarrow> ('h executor_context, 'e, 'a) st" where
  "on_tables m c = (case m (ec_tables c) of (r, x) \<Rightarrow> (r, c\<lparr>ec_tables := x\<rparr>))"

definition map_error :: "('e \<Rightarrow> 's \<Rightarrow> 'f) \<Rightarrow> ('s, 'e, 'a) st \<Rightarrow> ('s, 'f, 'a) st" where
  "map_error f m s = (case m s of (r, s') \<Rightarrow> (map_err (\<lambda>e. f e s') r, s'))"

definition with_memory :: "nat \<Rightarrow> trap_error \<Rightarrow> (linear_memory, trap_error, 'a) st
    \<Rightarrow> ('h executor_context, trap_error, 'a) st" where
  "with_memory i missing m = bind (gets (\<lambda>c. length (ec_memories c))) (\<lambda>n.
     if i < n then on_memories (on_nth i m) else throw missing)"

definition with_table :: "u32 \<Rightarrow> (table, trap_error, 'a) st \<Rightarrow> ('h executor_context, trap_error, 'a) st" where
  "with_table i m = bind (gets (\<lambda>c. length (ec_tables c))) (\<lambda>n.
     if unat i < n then on_tables (on_nth (unat i) m) else throw (UndefinedElement i))"

definition init_data_segment :: "data_segment \<Rightarrow> ('h executor_context, trap_error, unit) st" where
  "init_data_segment seg =
     (if ds_passive seg then ret ()
      else bind (gets ec_globals) (\<lambda>globals.
        bind (lift (eval_const_expr_static (ds_offset_expr seg) globals)) (\<lambda>v.
          let offset = usize_of_i32 (i32_or_0 v); n = length (ds_data seg) in
          with_memory (unat (ds_memory_idx seg)) (MemoryOutOfBounds offset n 0)
            (map_error (\<lambda>_ mem. MemoryOutOfBounds offset n (mem_size mem))
               (write_bytes offset (ds_data seg))))))"

definition init_data_segments :: "('h executor_context, trap_error, unit) st" where
  "init_data_segments = bind (gets (\<lambda>c. mo_data (ec_module c))) (\<lambda>segs. for_each segs init_data_segment)"

text \<open>\<open>a + b\<close> on \<open>u32\<close>: an overflow panics.\<close>

definition add_u32 :: "u32 \<Rightarrow> u32 \<Rightarrow> ('s, 'e, u32) st" where
  "add_u32 a b = (case checked_add_u32 a b of None \<Rightarrow> panic | Some c \<Rightarrow> ret c)"

definition init_element_segment :: "element \<Rightarrow> ('h executor_context, trap_error, unit) st" where
  "init_element_segment seg =
     (if el_passive seg then ret ()
      else bind (gets ec_globals) (\<lambda>globals.
        bind (lift (eval_const_expr_static (el_offset_expr seg) globals)) (\<lambda>v.
          let offset = i32_or_0 v in
          with_table (el_table_idx seg)
            (for_each (enumerate 0 (el_func_indices seg)) (\<lambda>(i, func_idx).
               bind (add_u32 offset (of_nat i)) (\<lambda>d. table_set d (Some func_idx)))))))"

definition init_element_segments :: "('h executor_context, trap_error, unit) st" where
  "init_element_segments = bind (gets (\<lambda>c. mo_elements (ec_module c))) (\<lambda>segs. for_each segs init_element_segment)"

text \<open>The imported functions are bound to the first host function of the same names.\<close>

definition bind_imports :: "host_function list \<Rightarrow> import list \<Rightarrow> host_function option list" where
  "bind_imports host_fns imports =
     map (\<lambda>i. find (\<lambda>hf. hf_module hf = im_module i \<and> hf_name hf = im_name i) host_fns)
       (filter is_function_import imports)"

fun new_memories :: "memory_type list \<Rightarrow> (trap_error, linear_memory list) result" where
  "new_memories [] = Ok []"
| "new_memories (mt # mts) =
     and_then (map_err (\<lambda>e. ExecutionError (memory_error_debug e)) (linear_memory_new (mt_min mt) (mt_max mt)))
       (\<lambda>m. and_then (new_memories mts) (\<lambda>ms. Ok (m # ms)))"

definition imported_memories :: "import list \<Rightarrow> memory_type list" where
  "imported_memories = List.map_filter (\<lambda>i. case im_kind i of ImportMemory mt \<Rightarrow> Some mt | _ \<Rightarrow> None)"

definition imported_tables :: "import list \<Rightarrow> table_type list" where
  "imported_tables = List.map_filter (\<lambda>i. case im_kind i of ImportTable tt \<Rightarrow> Some tt | _ \<Rightarrow> None)"

definition imported_globals :: "import list \<Rightarrow> global_type list" where
  "imported_globals = List.map_filter (\<lambda>i. case im_kind i of ImportGlobal gt \<Rightarrow> Some gt | _ \<Rightarrow> None)"

text \<open>Each initial value may read the globals before it.\<close>

fun new_globals :: "global list \<Rightarrow> global_value list \<Rightarrow> (trap_error, global_value list) result" where
  "new_globals [] globals = Ok globals"
| "new_globals (g # gs) globals =
     and_then (eval_const_expr_static (gl_init_expr g) globals)
       (\<lambda>v. new_globals gs (globals @ [\<lparr>gv_value = v, gv_mutable = gt_mutable (gl_global_type g)\<rparr>]))"

definition new_with_host_functions :: "wasm_module \<Rightarrow> host_function list
    \<Rightarrow> (trap_error, 'h executor_context) result" where
  "new_with_host_functions md host_fns =
     and_then (new_memories (imported_memories (mo_imports md) @ mo_memories md)) (\<lambda>memories.
     let tables = map (\<lambda>tt. table_new (tt_min tt) (tt_max tt)) (imported_tables (mo_imports md) @ mo_tables md);
         imported = map (\<lambda>gt. \<lparr>gv_value = default_for (gt_value_type gt), gv_mutable = gt_mutable gt\<rparr>)
                      (imported_globals (mo_imports md))
     in
     and_then (new_globals (mo_globals md) imported) (\<lambda>globals.
       let ctx = \<lparr>ec_module = md, ec_memories = memories, ec_tables = tables, ec_globals = globals,
                  ec_host_functions = bind_imports host_fns (mo_imports md) @ replicate (length (mo_functions md)) None,
                  ec_fuel = Some 10000000, ec_stdout = [], ec_stderr = [], ec_exit_code = None,
                  ec_wasi = None\<rparr>
       in case seq init_data_segments init_element_segments ctx of
            (Ok _, ctx') \<Rightarrow> Ok ctx'
          | (Err e, _) \<Rightarrow> Err e
          | (Panic, _) \<Rightarrow> Panic))"

definition is_host_function :: "'h executor_context \<Rightarrow> u32 \<Rightarrow> bool" where
  "is_host_function c func_idx = (unat func_idx < import_function_count (ec_module c))"

definition func_type :: "'h executor_context \<Rightarrow> u32 \<Rightarrow> function_type option" where
  "func_type c func_idx = function_type_of (ec_module c) func_idx"

definition call_host_function :: "'h host_env \<Rightarrow> u32 \<Rightarrow> wasm_value list
    \<Rightarrow> ('h executor_context, trap_error, wasm_value list) st" where
  "call_host_function host func_idx args c =
     (case list_get (ec_host_functions c) (unat func_idx) of
        Some (Some hf) \<Rightarrow> host (hf_func hf) args c
      | _ \<Rightarrow> (Err (FunctionNotFound func_idx), c))"

section \<open>The machine\<close>

record 'h machine =
  mc_ctx :: "'h executor_context"
  mc_stack :: value_stack
  mc_calls :: "call_frame list"

definition on_ctx :: "('h executor_context, 'e, 'a) st \<Rightarrow> ('h machine, 'e, 'a) st" where
  "on_ctx m s = (case m (mc_ctx s) of (r, c) \<Rightarrow> (r, s\<lparr>mc_ctx := c\<rparr>))"

definition on_stack :: "(value_stack, 'e, 'a) st \<Rightarrow> ('h machine, 'e, 'a) st" where
  "on_stack m s = (case m (mc_stack s) of (r, v) \<Rightarrow> (r, s\<lparr>mc_stack := v\<rparr>))"

text \<open>\<open>call_stack.last_mut().unwrap()\<close>\<close>

definition cur_frame :: "('h machine, 'e, call_frame) st" where
  "cur_frame s = (case mc_calls s of [] \<Rightarrow> (Panic, s) | f # _ \<Rightarrow> (Ok f, s))"

definition with_frame :: "(call_frame \<Rightarrow> ('h machine, 'e, 'a) st) \<Rightarrow> ('h machine, 'e, 'a) st" where
  "with_frame g = bind cur_frame g"

definition set_frame :: "call_frame \<Rightarrow> ('h machine, 'e, unit) st" where
  "set_frame f = modify (\<lambda>s. s\<lparr>mc_calls := f # tl (mc_calls s)\<rparr>)"

datatype control_flow =
  FlowContinue | FlowReturn | FlowCall u32 "wasm_value list" | FlowExit i32

section \<open>Control helpers\<close>

definition collect_results :: "usize \<Rightarrow> usize \<Rightarrow> value_stack \<Rightarrow> wasm_value list \<times> value_stack" where
  "collect_results arity base s =
     (let n = min arity (vs_len s - base)
      in (rev (take n (vs_values s)), s\<lparr>vs_values := drop n (vs_values s)\<rparr>))"

text \<open>Keep the top \<open>arity\<close> values, drop what the block left below them.\<close>

definition unwind :: "usize \<Rightarrow> usize \<Rightarrow> (value_stack, trap_error, unit) st" where
  "unwind arity base s =
     (case collect_results arity base s of
        (results, s') \<Rightarrow> for_each results vs_push (vs_truncate base s'))"

definition is_opener :: "instruction \<Rightarrow> bool" where
  "is_opener i = (case i of Control (Block _) \<Rightarrow> True | Control (Loop _) \<Rightarrow> True | Control (If _) \<Rightarrow> True
                  | _ \<Rightarrow> False)"

fun scan_end :: "instruction list \<Rightarrow> usize \<Rightarrow> nat \<Rightarrow> usize option" where
  "scan_end [] i depth = None"
| "scan_end (x # xs) i depth =
     (if is_opener x then scan_end xs (i + 1) (depth + 1)
      else if x = Control End then (if depth = 1 then Some i else scan_end xs (i + 1) (depth - 1))
      else scan_end xs (i + 1) depth)"

definition find_block_end :: "instruction list \<Rightarrow> usize \<Rightarrow> usize" where
  "find_block_end instructions start_pc =
     (case scan_end (drop (start_pc + 1) instructions) (start_pc + 1) 1 of
        Some i \<Rightarrow> i | None \<Rightarrow> length instructions - 1)"

fun scan_else :: "instruction list \<Rightarrow> usize \<Rightarrow> nat \<Rightarrow> usize option" where
  "scan_else [] i depth = None"
| "scan_else (x # xs) i depth =
     (if is_opener x then scan_else xs (i + 1) (depth + 1)
      else if x = Control Else \<and> depth = 1 then Some i
      else if x = Control End then (if depth = 1 then None else scan_else xs (i + 1) (depth - 1))
      else scan_else xs (i + 1) depth)"

definition find_else :: "instruction list \<Rightarrow> usize \<Rightarrow> usize option" where
  "find_else instructions start_pc = scan_else (drop (start_pc + 1) instructions) (start_pc + 1) 1"

definition block_arity :: "block_type \<Rightarrow> wasm_module \<Rightarrow> usize" where
  "block_arity bt md = (case bt of
     BtEmpty \<Rightarrow> 0 | BtValue _ \<Rightarrow> 1
   | BtTypeIndex idx \<Rightarrow> (case list_get (mo_types md) (unat idx) of
        Some t \<Rightarrow> length (ft_results t) | None \<Rightarrow> 0))"

definition block_param_arity :: "block_type \<Rightarrow> wasm_module \<Rightarrow> usize" where
  "block_param_arity bt md = (case bt of
     BtEmpty \<Rightarrow> 0 | BtValue _ \<Rightarrow> 0
   | BtTypeIndex idx \<Rightarrow> (case list_get (mo_types md) (unat idx) of
        Some t \<Rightarrow> length (ft_params t) | None \<Rightarrow> 0))"

text \<open>Subtraction on \<open>usize\<close> and indexing: both panic out of range.\<close>

definition sub_usize :: "usize \<Rightarrow> usize \<Rightarrow> ('s, 'e, usize) st" where
  "sub_usize a b = (if b \<le> a then ret (a - b) else panic)"

definition index_vec :: "'a list \<Rightarrow> usize \<Rightarrow> ('s, 'e, 'a) st" where
  "index_vec xs i = (if i < length xs then ret (xs ! i) else panic)"

definition get_current_instructions :: "call_frame \<Rightarrow> ('h machine, 'e, instruction list) st" where
  "get_current_instructions frame =
     bind (gets (\<lambda>s. ec_module (mc_ctx s))) (\<lambda>md.
     bind (sub_usize (unat (cf_func_idx frame)) (import_function_count md)) (\<lambda>local_idx.
     bind (index_vec (mo_code md) local_idx) (\<lambda>body. ret (fb_instructions body))))"

definition branch :: "u32 \<Rightarrow> ('h machine, trap_error, unit) st" where
  "branch label_idx = with_frame (\<lambda>frame.
     bind (sub_usize (length (cf_block_stack frame)) 1) (\<lambda>m.
     bind (sub_usize m (unat label_idx)) (\<lambda>_.
     let target = cf_block_stack frame ! unat label_idx in
     seq (on_stack (unwind (bf_arity target) (bf_stack_depth target)))
       (if bf_kind target = KLoop
        then set_frame (frame\<lparr>cf_pc := bf_start_pc target + 1\<rparr>)
        else set_frame (frame\<lparr>cf_pc := bf_end_pc target + 1,
                              cf_block_stack := drop (unat label_idx + 1) (cf_block_stack frame)\<rparr>)))))"


section \<open>Control instructions\<close>

text \<open>\<open>block\<close>, \<open>loop\<close> and \<open>if\<close> push a frame for the instructions up to the matching \<open>end\<close>;
  the program counter already points behind the instruction.\<close>

definition push_block :: "block_kind \<Rightarrow> block_type \<Rightarrow> bool \<Rightarrow> ('h machine, trap_error, block_frame) st" where
  "push_block kind bt is_if = with_frame (\<lambda>frame.
     bind (gets (\<lambda>s. ec_module (mc_ctx s))) (\<lambda>md.
     let arity = block_arity bt md; param = block_param_arity bt md in
     bind (get_current_instructions frame) (\<lambda>instructions.
     bind (sub_usize (cf_pc frame) 1) (\<lambda>start.
     let end_pc = find_block_end instructions start;
         else_pc = (if is_if then find_else instructions start else None) in
     bind (gets (\<lambda>s. vs_len (mc_stack s))) (\<lambda>n.
     bind (sub_usize n param) (\<lambda>depth.
     let b = \<lparr>bf_kind = kind, bf_block_type = bt, bf_stack_depth = depth, bf_start_pc = start,
              bf_end_pc = end_pc, bf_else_pc = else_pc,
              bf_arity = (if kind = KLoop then param else arity), bf_param_arity = param\<rparr> in
     seq (set_frame (frame\<lparr>cf_block_stack := b # cf_block_stack frame\<rparr>)) (ret b)))))))"

definition exec_if :: "block_type \<Rightarrow> ('h machine, trap_error, unit) st" where
  "exec_if bt = bind (on_stack vs_pop_i32) (\<lambda>cond.
     bind (push_block KIf bt True) (\<lambda>b.
     if cond = 0 then with_frame (\<lambda>frame.
       case bf_else_pc b of
         Some else_pc \<Rightarrow> set_frame (frame\<lparr>cf_pc := else_pc + 1\<rparr>)
       | None \<Rightarrow> set_frame (frame\<lparr>cf_pc := bf_end_pc b + 1, cf_block_stack := tl (cf_block_stack frame)\<rparr>))
     else ret ()))"

definition exec_else :: "('h machine, trap_error, unit) st" where
  "exec_else = with_frame (\<lambda>frame.
     case cf_block_stack frame of
       [] \<Rightarrow> ret ()
     | block # rest \<Rightarrow>
         seq (on_stack (unwind (bf_arity block) (bf_stack_depth block)))
             (set_frame (frame\<lparr>cf_pc := bf_end_pc block + 1, cf_block_stack := rest\<rparr>)))"

definition exec_end :: "('h machine, trap_error, unit) st" where
  "exec_end = with_frame (\<lambda>frame.
     case cf_block_stack frame of
       [] \<Rightarrow> ret ()
     | block # rest \<Rightarrow>
         if bf_kind block = KFunction then
           bind (get_current_instructions frame) (\<lambda>instructions.
             set_frame (frame\<lparr>cf_pc := length instructions\<rparr>))
         else seq (set_frame (frame\<lparr>cf_block_stack := rest\<rparr>))
                  (on_stack (unwind (bf_arity block) (bf_stack_depth block))))"

definition pop_args :: "function_type \<Rightarrow> (value_stack, trap_error, wasm_value list) st" where
  "pop_args ft = bind (repeat_st (length (ft_params ft)) vs_pop) (\<lambda>args. ret (rev args))"

definition exec_call :: "u32 \<Rightarrow> ('h machine, trap_error, control_flow) st" where
  "exec_call func_idx = bind (gets (\<lambda>s. func_type (mc_ctx s) func_idx)) (\<lambda>t.
     bind (lift (ok_or (FunctionNotFound func_idx) t)) (\<lambda>ft.
     bind (on_stack (pop_args ft)) (\<lambda>args. ret (FlowCall func_idx args))))"

definition exec_call_indirect :: "u32 \<Rightarrow> u32 \<Rightarrow> ('h machine, trap_error, control_flow) st" where
  "exec_call_indirect type_idx table_idx = bind (on_stack vs_pop_i32) (\<lambda>elem_idx.
     bind (gets mc_ctx) (\<lambda>c.
     bind (lift (ok_or (UndefinedElement table_idx) (list_get (ec_tables c) (unat table_idx)))) (\<lambda>table.
     bind (lift (table_get table elem_idx)) (\<lambda>entry.
     bind (lift (ok_or (UninitializedElement elem_idx) entry)) (\<lambda>func_idx.
     bind (lift (ok_or (ExecutionError ''type index OOB'') (list_get (mo_types (ec_module c)) (unat type_idx)))) (\<lambda>expected_type.
     bind (lift (ok_or (FunctionNotFound func_idx) (func_type c func_idx))) (\<lambda>actual_type.
     if expected_type \<noteq> actual_type then throw (IndirectCallTypeMismatch type_idx 0)
     else bind (on_stack (pop_args actual_type)) (\<lambda>args. ret (FlowCall func_idx args)))))))))"

fun exec_control :: "control_instr \<Rightarrow> ('h machine, trap_error, control_flow) st" where
  "exec_control Unreachable = throw UnreachableTrap"
| "exec_control Nop = ret FlowContinue"
| "exec_control (Block bt) = bind (push_block KBlock bt False) (\<lambda>_. ret FlowContinue)"
| "exec_control (Loop bt) = bind (push_block KLoop bt False) (\<lambda>_. ret FlowContinue)"
| "exec_control (If bt) = seq (exec_if bt) (ret FlowContinue)"
| "exec_control Else = seq exec_else (ret FlowContinue)"
| "exec_control End = seq exec_end (ret FlowContinue)"
| "exec_control (Br label_idx) = seq (branch label_idx) (ret FlowContinue)"
| "exec_control (BrIf label_idx) = bind (on_stack vs_pop_i32) (\<lambda>cond.
     if cond \<noteq> 0 then seq (branch label_idx) (ret FlowContinue) else ret FlowContinue)"
| "exec_control (BrTable targets dflt) = bind (on_stack vs_pop_i32) (\<lambda>idx.
     seq (branch (if unat idx < length targets then targets ! unat idx else dflt)) (ret FlowContinue))"
| "exec_control Return = ret FlowReturn"
| "exec_control (Call func_idx) = exec_call func_idx"
| "exec_control (CallIndirect type_idx table_idx) = exec_call_indirect type_idx table_idx"

section \<open>References, parametric and variable instructions\<close>

fun exec_reference :: "reference_instr \<Rightarrow> (value_stack, trap_error, unit) st" where
  "exec_reference RefNull = vs_push (FuncRef None)"
| "exec_reference RefIsNull = bind vs_pop (\<lambda>v.
     vs_push (bool_i32 (v = FuncRef None \<or> v = ExternRef None)))"
| "exec_reference (RefFunc idx) = vs_push (FuncRef (Some idx))"

fun exec_parametric :: "parametric_instr \<Rightarrow> (value_stack, trap_error, unit) st" where
  "exec_parametric Drop = bind vs_pop (\<lambda>_. ret ())"
| "exec_parametric Select = bind vs_pop_i32 (\<lambda>cond. bind vs_pop (\<lambda>val2. bind vs_pop (\<lambda>val1.
     vs_push (if cond \<noteq> 0 then val1 else val2))))"

definition set_local :: "u32 \<Rightarrow> wasm_value \<Rightarrow> ('h machine, trap_error, unit) st" where
  "set_local idx val = with_frame (\<lambda>frame.
     set_frame (frame\<lparr>cf_locals := (cf_locals frame)[unat idx := val]\<rparr>))"

definition set_global :: "global_value list \<Rightarrow> nat \<Rightarrow> wasm_value \<Rightarrow> global_value list" where
  "set_global gs i val = (if i < length gs then gs[i := (gs ! i)\<lparr>gv_value := val\<rparr>] else gs)"

fun exec_variable :: "variable_instr \<Rightarrow> ('h machine, trap_error, unit) st" where
  "exec_variable (LocalGet idx) = with_frame (\<lambda>frame.
     bind (lift (ok_or (ExecutionError ''local index OOB'') (list_get (cf_locals frame) (unat idx)))) (\<lambda>val.
     on_stack (vs_push val)))"
| "exec_variable (LocalSet idx) = bind (on_stack vs_pop) (\<lambda>val. set_local idx val)"
| "exec_variable (LocalTee idx) = bind (on_stack vs_peek) (\<lambda>val. set_local idx val)"
| "exec_variable (GlobalGet idx) = bind (gets (\<lambda>s. ec_globals (mc_ctx s))) (\<lambda>globals.
     bind (lift (ok_or (ExecutionError ''global index OOB'') (list_get globals (unat idx)))) (\<lambda>g.
     on_stack (vs_push (gv_value g))))"
| "exec_variable (GlobalSet idx) = bind (on_stack vs_pop) (\<lambda>val.
     on_ctx (modify (\<lambda>c. c\<lparr>ec_globals := set_global (ec_globals c) (unat idx) val\<rparr>)))"

section \<open>Table instructions\<close>

definition ref_of :: "wasm_value \<Rightarrow> u32 option" where
  "ref_of v = (case v of FuncRef r \<Rightarrow> r | _ \<Rightarrow> None)"

definition table_get_st :: "u32 \<Rightarrow> (table, trap_error, u32 option) st" where
  "table_get_st i t = (table_get t i, t)"

definition table_grow_or_minus1 :: "u32 \<Rightarrow> u32 option \<Rightarrow> (table, trap_error, i32) st" where
  "table_grow_or_minus1 n init t = (case table_grow n init t of
     (Ok old, t') \<Rightarrow> (Ok old, t') | (Err _, t') \<Rightarrow> (Ok (- 1), t') | (Panic, t') \<Rightarrow> (Panic, t'))"

text \<open>One step of the copy within a table.\<close>

definition table_move :: "u32 \<Rightarrow> u32 \<Rightarrow> nat \<Rightarrow> (table, trap_error, unit) st" where
  "table_move d s i = bind (add_u32 s (of_nat i)) (\<lambda>from. bind (table_get_st from) (\<lambda>val.
     bind (add_u32 d (of_nat i)) (\<lambda>to. table_set to val)))"

fun table_read_range :: "u32 \<Rightarrow> nat list \<Rightarrow> (table, trap_error, u32 option list) st" where
  "table_read_range s [] = ret []"
| "table_read_range s (i # is) = bind (add_u32 s (of_nat i)) (\<lambda>from. bind (table_get_st from) (\<lambda>val.
     bind (table_read_range s is) (\<lambda>vals. ret (val # vals))))"

definition drop_element :: "element list \<Rightarrow> nat \<Rightarrow> element list" where
  "drop_element els i =
     (if i < length els then els[i := (els ! i)\<lparr>el_func_indices := [], el_passive := False\<rparr>] else els)"

fun exec_table :: "table_instr \<Rightarrow> ('h machine, trap_error, unit) st" where
  "exec_table (TableGet table_idx) = bind (on_stack vs_pop_i32) (\<lambda>idx.
     bind (on_ctx (with_table table_idx (table_get_st idx))) (\<lambda>val.
     on_stack (vs_push (FuncRef val))))"
| "exec_table (TableSet table_idx) = bind (on_stack vs_pop) (\<lambda>val. bind (on_stack vs_pop_i32) (\<lambda>idx.
     on_ctx (with_table table_idx (table_set idx (ref_of val)))))"
| "exec_table (TableSize table_idx) = bind (on_ctx (with_table table_idx (gets table_size))) (\<lambda>n.
     on_stack (vs_push (I32 n)))"
| "exec_table (TableGrow table_idx) = bind (on_stack vs_pop_i32) (\<lambda>n. bind (on_stack vs_pop) (\<lambda>init.
     bind (on_ctx (with_table table_idx (table_grow_or_minus1 n (ref_of init)))) (\<lambda>r.
     on_stack (vs_push (I32 r)))))"
| "exec_table (TableInit elem_idx table_idx) =
     bind (on_stack vs_pop_i32) (\<lambda>n. bind (on_stack vs_pop_i32) (\<lambda>s. bind (on_stack vs_pop_i32) (\<lambda>d.
     bind (gets (\<lambda>m. list_get (mo_elements (ec_module (mc_ctx m))) (unat elem_idx))) (\<lambda>e.
     bind (lift (ok_or (ExecutionError ''element segment index OOB'') e)) (\<lambda>elem.
     if (case checked_add_u32 s n of None \<Rightarrow> True | Some fin \<Rightarrow> unat fin > length (el_func_indices elem))
     then throw (ExecutionError ''table.init: source range out of bounds'')
     else on_ctx (with_table table_idx (for_each [0..<unat n] (\<lambda>i.
            bind (add_u32 d (of_nat i)) (\<lambda>to. table_set to (Some (el_func_indices elem ! (unat s + i))))))))))))"
| "exec_table (ElemDrop elem_idx) = on_ctx (modify (\<lambda>c. c\<lparr>ec_module :=
     (ec_module c)\<lparr>mo_elements := drop_element (mo_elements (ec_module c)) (unat elem_idx)\<rparr>\<rparr>))"
| "exec_table (TableCopy dst_table src_table) =
     bind (on_stack vs_pop_i32) (\<lambda>n. bind (on_stack vs_pop_i32) (\<lambda>s. bind (on_stack vs_pop_i32) (\<lambda>d.
     if dst_table = src_table
     then on_ctx (with_table dst_table
            (for_each (if d \<le> s then [0..<unat n] else rev [0..<unat n]) (table_move d s)))
     else bind (on_ctx (with_table src_table (table_read_range s [0..<unat n]))) (\<lambda>entries.
            on_ctx (with_table dst_table (for_each (enumerate 0 entries) (\<lambda>(i, val).
              bind (add_u32 d (of_nat i)) (\<lambda>to. table_set to val))))))))"
| "exec_table (TableFill table_idx) =
     bind (on_stack vs_pop_i32) (\<lambda>n. bind (on_stack vs_pop) (\<lambda>val. bind (on_stack vs_pop_i32) (\<lambda>d.
     on_ctx (with_table table_idx (for_each [0..<unat n] (\<lambda>i.
       bind (add_u32 d (of_nat i)) (\<lambda>to. table_set to (ref_of val))))))))"

section \<open>Loads and stores\<close>

text \<open>\<open>(base as u64 + *offset as u64) as usize\<close> does not overflow.\<close>

definition effective_address :: "i32 \<Rightarrow> u32 \<Rightarrow> usize" where
  "effective_address base offset = unat base + unat offset"

definition load_op :: "usize \<Rightarrow> (linear_memory \<Rightarrow> usize \<Rightarrow> (memory_error, 'a) result) \<Rightarrow> ('a \<Rightarrow> wasm_value)
    \<Rightarrow> u32 \<Rightarrow> ('h machine, trap_error, unit) st" where
  "load_op sz rd conv offset = bind (on_stack vs_pop_i32) (\<lambda>base.
     let addr = effective_address base offset in
     bind (on_ctx (with_memory 0 (MemoryOutOfBounds addr sz 0)
       (\<lambda>mem. (map_err (\<lambda>_. MemoryOutOfBounds addr sz (mem_size mem)) (rd mem addr), mem)))) (\<lambda>val.
     on_stack (vs_push (conv val))))"

definition store_op :: "usize \<Rightarrow> (value_stack, trap_error, 'a) st
    \<Rightarrow> (usize \<Rightarrow> 'a \<Rightarrow> (linear_memory, memory_error, unit) st) \<Rightarrow> u32 \<Rightarrow> ('h machine, trap_error, unit) st" where
  "store_op sz pop wr offset = bind (on_stack pop) (\<lambda>val. bind (on_stack vs_pop_i32) (\<lambda>base.
     let addr = effective_address base offset in
     on_ctx (with_memory 0 (MemoryOutOfBounds addr sz 0)
       (map_error (\<lambda>_ mem. MemoryOutOfBounds addr sz (mem_size mem)) (wr addr val)))))"

fun exec_load :: "load_instr \<Rightarrow> ('h machine, trap_error, unit) st" where
  "exec_load (I32Load _ offset) = load_op 4 read_u32 (\<lambda>v. I32 v) offset"
| "exec_load (I64Load _ offset) = load_op 8 read_u64 (\<lambda>v. I64 v) offset"
| "exec_load (F32Load _ offset) = load_op 4 read_u32 (\<lambda>v. F32 v) offset"
| "exec_load (F64Load _ offset) = load_op 8 read_u64 (\<lambda>v. F64 v) offset"
| "exec_load (I32Load8S _ offset) = load_op 1 read_u8 (\<lambda>v. I32 (scast v)) offset"
| "exec_load (I32Load8U _ offset) = load_op 1 read_u8 (\<lambda>v. I32 (ucast v)) offset"
| "exec_load (I32Load16S _ offset) = load_op 2 read_u16 (\<lambda>v. I32 (scast v)) offset"
| "exec_load (I32Load16U _ offset) = load_op 2 read_u16 (\<lambda>v. I32 (ucast v)) offset"
| "exec_load (I64Load8S _ offset) = load_op 1 read_u8 (\<lambda>v. I64 (scast v)) offset"
| "exec_load (I64Load8U _ offset) = load_op 1 read_u8 (\<lambda>v. I64 (ucast v)) offset"
| "exec_load (I64Load16S _ offset) = load_op 2 read_u16 (\<lambda>v. I64 (scast v)) offset"
| "exec_load (I64Load16U _ offset) = load_op 2 read_u16 (\<lambda>v. I64 (ucast v)) offset"
| "exec_load (I64Load32S _ offset) = load_op 4 read_u32 (\<lambda>v. I64 (scast v)) offset"
| "exec_load (I64Load32U _ offset) = load_op 4 read_u32 (\<lambda>v. I64 (ucast v)) offset"

fun exec_store :: "store_instr \<Rightarrow> ('h machine, trap_error, unit) st" where
  "exec_store (I32Store _ offset) = store_op 4 vs_pop_i32 (\<lambda>a v. write_u32 a v) offset"
| "exec_store (I64Store _ offset) = store_op 8 vs_pop_i64 (\<lambda>a v. write_u64 a v) offset"
| "exec_store (F32Store _ offset) = store_op 4 vs_pop_f32 (\<lambda>a v. write_u32 a v) offset"
| "exec_store (F64Store _ offset) = store_op 8 vs_pop_f64 (\<lambda>a v. write_u64 a v) offset"
| "exec_store (I32Store8 _ offset) = store_op 1 vs_pop_i32 (\<lambda>a v. write_u8 a (ucast v)) offset"
| "exec_store (I32Store16 _ offset) = store_op 2 vs_pop_i32 (\<lambda>a v. write_u16 a (ucast v)) offset"
| "exec_store (I64Store8 _ offset) = store_op 1 vs_pop_i64 (\<lambda>a v. write_u8 a (ucast v)) offset"
| "exec_store (I64Store16 _ offset) = store_op 2 vs_pop_i64 (\<lambda>a v. write_u16 a (ucast v)) offset"
| "exec_store (I64Store32 _ offset) = store_op 4 vs_pop_i64 (\<lambda>a v. write_u32 a (ucast v)) offset"


section \<open>Memory instructions\<close>

definition mem_grow_or_minus1 :: "u32 \<Rightarrow> (linear_memory, trap_error, i32) st" where
  "mem_grow_or_minus1 delta m = (case mem_grow delta m of
     (Ok old, m') \<Rightarrow> (Ok old, m') | (Err _, m') \<Rightarrow> (Ok (- 1), m') | (Panic, m') \<Rightarrow> (Panic, m'))"

definition grow_first :: "u32 \<Rightarrow> ('h executor_context, trap_error, i32) st" where
  "grow_first delta c =
     (if ec_memories c = [] then (Ok (- 1), c) else on_memories (on_nth 0 (mem_grow_or_minus1 delta)) c)"

definition exec_memory_init :: "u32 \<Rightarrow> ('h machine, trap_error, unit) st" where
  "exec_memory_init data_idx =
     bind (on_stack vs_pop_i32) (\<lambda>n. bind (on_stack vs_pop_i32) (\<lambda>s. bind (on_stack vs_pop_i32) (\<lambda>d.
     bind (gets (\<lambda>m. list_get (mo_data (ec_module (mc_ctx m))) (unat data_idx))) (\<lambda>e.
     bind (lift (ok_or (ExecutionError ''data segment index OOB'') e)) (\<lambda>seg.
     let total_len = length (ds_data seg); oob = MemoryOutOfBounds (unat s) (unat n) total_len in
     bind (lift (ok_or oob (checked_add_u32 s n))) (\<lambda>src_end.
     if unat src_end > total_len then throw oob
     else on_ctx (with_memory 0 (MemoryOutOfBounds (unat d) (unat n) 0)
            (map_error (\<lambda>_ mem. MemoryOutOfBounds (unat d) (unat n) (mem_size mem))
               (write_bytes (unat d) (get_slice (ds_data seg) (unat s) (unat n)))))))))))"

text \<open>\<open>x.checked_add(n).map_or(true, |end| end > sz)\<close>\<close>

definition past_end :: "usize \<Rightarrow> usize \<Rightarrow> usize \<Rightarrow> bool" where
  "past_end x n sz = (case checked_add x n of None \<Rightarrow> True | Some fin \<Rightarrow> fin > sz)"

definition memory_copy :: "usize \<Rightarrow> usize \<Rightarrow> usize \<Rightarrow> (linear_memory, trap_error, unit) st" where
  "memory_copy s d n mem =
     (let sz = mem_size mem in
      if past_end s n sz \<or> past_end d n sz then (Err (MemoryOutOfBounds (max d s) n sz), mem)
      else map_error (\<lambda>_ _. MemoryOutOfBounds d n sz) (copy_within s d n) mem)"

definition memory_fill :: "usize \<Rightarrow> usize \<Rightarrow> u8 \<Rightarrow> (linear_memory, trap_error, unit) st" where
  "memory_fill d n val mem =
     (let sz = mem_size mem in
      if past_end d n sz then (Err (MemoryOutOfBounds d n sz), mem)
      else map_error (\<lambda>_ _. MemoryOutOfBounds d n sz) (mem_fill d n val) mem)"

definition drop_data :: "data_segment list \<Rightarrow> nat \<Rightarrow> data_segment list" where
  "drop_data segs i =
     (if i < length segs then segs[i := (segs ! i)\<lparr>ds_data := [], ds_passive := False\<rparr>] else segs)"

fun exec_memory :: "memory_instr \<Rightarrow> ('h machine, trap_error, unit) st" where
  "exec_memory MemorySize = bind (gets (\<lambda>s. ec_memories (mc_ctx s))) (\<lambda>ms.
     on_stack (vs_push (I32 (case ms of [] \<Rightarrow> 0 | m # _ \<Rightarrow> mem_pages m))))"
| "exec_memory MemoryGrow = bind (on_stack vs_pop_i32) (\<lambda>delta.
     bind (on_ctx (grow_first delta)) (\<lambda>r. on_stack (vs_push (I32 r))))"
| "exec_memory (MemoryInit data_idx) = exec_memory_init data_idx"
| "exec_memory (DataDrop data_idx) = on_ctx (modify (\<lambda>c. c\<lparr>ec_module :=
     (ec_module c)\<lparr>mo_data := drop_data (mo_data (ec_module c)) (unat data_idx)\<rparr>\<rparr>))"
| "exec_memory MemoryCopy =
     bind (on_stack vs_pop_i32) (\<lambda>n. bind (on_stack vs_pop_i32) (\<lambda>s. bind (on_stack vs_pop_i32) (\<lambda>d.
     on_ctx (with_memory 0 (MemoryOutOfBounds (usize_of_i32 d) (usize_of_i32 n) 0)
       (memory_copy (usize_of_i32 s) (usize_of_i32 d) (usize_of_i32 n))))))"
| "exec_memory MemoryFill =
     bind (on_stack vs_pop_i32) (\<lambda>n. bind (on_stack vs_pop_i32) (\<lambda>val. bind (on_stack vs_pop_i32) (\<lambda>d.
     on_ctx (with_memory 0 (MemoryOutOfBounds (usize_of_i32 d) (usize_of_i32 n) 0)
       (memory_fill (usize_of_i32 d) (usize_of_i32 n) (ucast val))))))"

fun exec_const :: "const_instr \<Rightarrow> (value_stack, trap_error, unit) st" where
  "exec_const (I32Const v) = vs_push (I32 v)"
| "exec_const (I64Const v) = vs_push (I64 v)"
| "exec_const (F32Const v) = vs_push (F32 v)"
| "exec_const (F64Const v) = vs_push (F64 v)"

section \<open>One instruction\<close>

definition continue :: "('h machine, trap_error, unit) st \<Rightarrow> ('h machine, trap_error, control_flow) st" where
  "continue m = seq m (ret FlowContinue)"

text \<open>The call stack is never empty here (\<open>call_stack.last_mut().unwrap()\<close>).\<close>

definition execute_instruction :: "instruction \<Rightarrow> ('h machine, trap_error, control_flow) st" where
  "execute_instruction instr = with_frame (\<lambda>_.
     case instr of
       Control i \<Rightarrow> exec_control i
     | Reference i \<Rightarrow> continue (on_stack (exec_reference i))
     | Parametric i \<Rightarrow> continue (on_stack (exec_parametric i))
     | Variable i \<Rightarrow> continue (exec_variable i)
     | Table i \<Rightarrow> continue (exec_table i)
     | Load i \<Rightarrow> continue (exec_load i)
     | Store i \<Rightarrow> continue (exec_store i)
     | Memory i \<Rightarrow> continue (exec_memory i)
     | Const i \<Rightarrow> continue (on_stack (exec_const i))
     | I32Comparison i \<Rightarrow> continue (on_stack (exec_i32_comparison i))
     | I64Comparison i \<Rightarrow> continue (on_stack (exec_i64_comparison i))
     | F32Comparison i \<Rightarrow> continue (on_stack (exec_f32_comparison i))
     | F64Comparison i \<Rightarrow> continue (on_stack (exec_f64_comparison i))
     | I32Arithmetic i \<Rightarrow> continue (on_stack (exec_i32_arithmetic i))
     | I64Arithmetic i \<Rightarrow> continue (on_stack (exec_i64_arithmetic i))
     | F32Arithmetic i \<Rightarrow> continue (on_stack (exec_f32_arithmetic i))
     | F64Arithmetic i \<Rightarrow> continue (on_stack (exec_f64_arithmetic i))
     | Conversion i \<Rightarrow> continue (on_stack (exec_conversion i))
     | Reinterpretation i \<Rightarrow> continue (on_stack (exec_reinterpretation i))
     | SignExtension i \<Rightarrow> continue (on_stack (exec_sign_extension i))
     | SaturatingTruncation i \<Rightarrow> continue (on_stack (exec_saturating_truncation i)))"

section \<open>The main loop\<close>

text \<open>Parameters come from the arguments as far as these go; declared locals are zero.\<close>

definition make_locals :: "function_type \<Rightarrow> function_body \<Rightarrow> wasm_value list \<Rightarrow> wasm_value list" where
  "make_locals ft body args =
     map (\<lambda>(i, t). if i < length args then args ! i else default_for t) (enumerate 0 (ft_params ft))
     @ concat (map (\<lambda>(count, t). replicate (unat count) (default_for t)) (fb_locals body))"

definition make_frame :: "u32 \<Rightarrow> function_type \<Rightarrow> function_body \<Rightarrow> wasm_value list \<Rightarrow> usize \<Rightarrow> call_frame" where
  "make_frame func_idx ft body args base =
     (let arity = length (ft_results ft) in
      \<lparr>cf_func_idx = func_idx, cf_locals = make_locals ft body args, cf_pc = 0, cf_stack_base = base,
       cf_return_arity = arity,
       cf_block_stack = [\<lparr>bf_kind = KFunction,
         bf_block_type = (if arity = 1 then BtValue (ft_results ft ! 0) else BtEmpty),
         bf_stack_depth = base, bf_start_pc = 0, bf_end_pc = length (fb_instructions body) - 1,
         bf_else_pc = None, bf_arity = arity, bf_param_arity = 0\<rparr>],
       cf_is_host = False\<rparr>)"

definition pop_frame :: "('h machine, 'e, unit) st" where
  "pop_frame = modify (\<lambda>s. s\<lparr>mc_calls := tl (mc_calls s)\<rparr>)"

datatype loop_state = Next | Break

definition next_unless_done :: "('h machine, 'e, loop_state) st" where
  "next_unless_done = gets (\<lambda>s. if mc_calls s = [] then Break else Next)"

text \<open>The frame's code is exhausted.\<close>

definition finish_frame :: "call_frame \<Rightarrow> ('h machine, trap_error, loop_state) st" where
  "finish_frame frame = seq pop_frame
     (seq (on_stack (unwind (cf_return_arity frame) (cf_stack_base frame))) next_unless_done)"

text \<open>An explicit \<open>return\<close>; the first truncation of the source, to the caller's base plus what
  is left above the callee's, comes before the one to the callee's base.\<close>

definition return_values :: "call_frame \<Rightarrow> call_frame list \<Rightarrow> (value_stack, trap_error, unit) st" where
  "return_values frame callers s =
     (case collect_results (cf_return_arity frame) (cf_stack_base frame) s of
        (results, s1) \<Rightarrow>
          let s2 = (case callers of
                      [] \<Rightarrow> s1
                    | parent # _ \<Rightarrow> vs_truncate (cf_stack_base parent + (vs_len s1 - cf_stack_base frame)) s1)
          in for_each results vs_push (vs_truncate (cf_stack_base frame) s2))"

definition return_frame :: "('h machine, trap_error, loop_state) st" where
  "return_frame = with_frame (\<lambda>frame. seq pop_frame
     (bind (gets mc_calls) (\<lambda>callers. seq (on_stack (return_values frame callers)) next_unless_done)))"

definition consume_fuel :: "('h executor_context, trap_error, unit) st" where
  "consume_fuel c = (case ec_fuel c of
     None \<Rightarrow> (Ok (), c)
   | Some f \<Rightarrow> if f = 0 then (Err FuelExhausted, c) else (Ok (), c\<lparr>ec_fuel := Some (f - 1)\<rparr>))"

definition call_local :: "u32 \<Rightarrow> wasm_value list \<Rightarrow> ('h machine, trap_error, unit) st" where
  "call_local target args = bind (gets mc_ctx) (\<lambda>c.
     bind (lift (ok_or (FunctionNotFound target) (func_type c target))) (\<lambda>ft.
     bind (sub_usize (unat target) (import_function_count (ec_module c))) (\<lambda>lidx.
     bind (lift (ok_or (FunctionNotFound target) (list_get (mo_code (ec_module c)) lidx))) (\<lambda>body.
     modify (\<lambda>s. s\<lparr>mc_calls := make_frame target ft body args (vs_len (mc_stack s)) # mc_calls s\<rparr>)))))"

definition do_call :: "'h host_env \<Rightarrow> u32 \<Rightarrow> wasm_value list \<Rightarrow> ('h machine, trap_error, unit) st" where
  "do_call host target args = bind (gets (\<lambda>s. length (mc_calls s))) (\<lambda>depth.
     if depth \<ge> MAX_CALL_STACK_DEPTH then throw CallStackOverflow
     else bind (gets (\<lambda>s. is_host_function (mc_ctx s) target)) (\<lambda>is_host.
       if is_host then bind (on_ctx (call_host_function host target args)) (\<lambda>results.
         on_stack (for_each results vs_push))
       else call_local target args))"

fun handle_flow :: "'h host_env \<Rightarrow> control_flow \<Rightarrow> ('h machine, trap_error, loop_state) st" where
  "handle_flow host FlowContinue = ret Next"
| "handle_flow host FlowReturn = return_frame"
| "handle_flow host (FlowCall target args) = seq (do_call host target args) (ret Next)"
| "handle_flow host (FlowExit code) =
     seq (on_ctx (modify (\<lambda>c. c\<lparr>ec_exit_code := Some code\<rparr>))) (throw (ProcessExit code))"

definition step_instruction :: "'h host_env \<Rightarrow> call_frame \<Rightarrow> instruction \<Rightarrow> ('h machine, trap_error, loop_state) st" where
  "step_instruction host frame instr =
     seq (set_frame (frame\<lparr>cf_pc := cf_pc frame + 1\<rparr>))
    (seq (on_ctx consume_fuel)
    (bind (execute_instruction instr) (handle_flow host)))"

definition exec_step :: "'h host_env \<Rightarrow> ('h machine, trap_error, loop_state) st" where
  "exec_step host = bind (gets mc_calls) (\<lambda>calls.
     case calls of
       [] \<Rightarrow> ret Break
     | frame # _ \<Rightarrow> bind (get_current_instructions frame) (\<lambda>instructions.
         if cf_pc frame \<ge> length instructions then finish_frame frame
         else step_instruction host frame (instructions ! cf_pc frame)))"

text \<open>The loop may run forever when the fuel is unlimited.\<close>

partial_function (option) exec_loop ::
  "'h host_env \<Rightarrow> 'h machine \<Rightarrow> ((trap_error, unit) result \<times> 'h machine) option" where
  "exec_loop host s = (case exec_step host s of
     (Ok Next, s') \<Rightarrow> exec_loop host s'
   | (Ok Break, s') \<Rightarrow> Some (Ok (), s')
   | (Err e, s') \<Rightarrow> Some (Err e, s')
   | (Panic, s') \<Rightarrow> Some (Panic, s'))"

declare exec_loop.simps [code]

definition execute_function :: "'h host_env \<Rightarrow> 'h executor_context \<Rightarrow> u32 \<Rightarrow> wasm_value list
    \<Rightarrow> ((trap_error, wasm_value list) result \<times> 'h executor_context) option" where
  "execute_function host c func_idx args =
     (if is_host_function c func_idx then Some (call_host_function host func_idx args c)
      else case func_type c func_idx of
        None \<Rightarrow> Some (Err (FunctionNotFound func_idx), c)
      | Some ft \<Rightarrow>
        (case list_get (mo_code (ec_module c)) (unat func_idx - import_function_count (ec_module c)) of
           None \<Rightarrow> Some (Err (FunctionNotFound func_idx), c)
         | Some body \<Rightarrow>
           (case exec_loop host \<lparr>mc_ctx = c, mc_stack = value_stack_new,
                                 mc_calls = [make_frame func_idx ft body args 0]\<rparr> of
              None \<Rightarrow> None
            | Some (Ok _, s) \<Rightarrow>
                let vs = vs_values (mc_stack s); n = min (length (ft_results ft)) (length vs)
                in Some (Ok (rev (take n vs)), mc_ctx s)
            | Some (Err e, s) \<Rightarrow> Some (Err e, mc_ctx s)
            | Some (Panic, s) \<Rightarrow> Some (Panic, mc_ctx s))))"

definition execute_export :: "'h host_env \<Rightarrow> 'h executor_context \<Rightarrow> string \<Rightarrow> wasm_value list
    \<Rightarrow> ((trap_error, wasm_value list) result \<times> 'h executor_context) option" where
  "execute_export host c name args =
     (case find_export (ec_module c) name of
        None \<Rightarrow> Some (Err (ExportNotFound name), c)
      | Some ex \<Rightarrow> if ex_kind ex \<noteq> ExportFunction then Some (Err (ExportNotFound name), c)
                   else execute_function host c (ex_index ex) args)"

end
