(* ===== verification/Wasm_Exec_Props.thy ===== *)
theory Wasm_Exec_Props
  imports Wasm_Exec
begin

text \<open>
  Properties of the executor. The locale \<open>machine_invariant\<close> says what a predicate on the
  context and one on call frames must satisfy so that every instruction keeps them; it is
  instantiated twice, by the well-formedness of memories, tables and frames and by the
  amount of fuel. The first gives the safety of the main loop, the second its termination.
\<close>

section \<open>Operations on parts of the state\<close>

lemma on_nth_table:
  assumes "preserves table_wf m" and "table_wf (xs ! i)"
  shows "table_wf (snd (m (xs ! i)))"
  using assms by (auto simp: preserves_def)

lemma on_ctx_apply: "on_ctx m s = (fst (m (mc_ctx s)), s\<lparr>mc_ctx := snd (m (mc_ctx s))\<rparr>)"
  by (simp add: on_ctx_def split: prod.split)

lemma on_stack_apply: "on_stack m s = (fst (m (mc_stack s)), s\<lparr>mc_stack := snd (m (mc_stack s))\<rparr>)"
  by (simp add: on_stack_def split: prod.split)

lemma snd_with_table:
  "snd (with_table i m c) =
     (if unat i < length (ec_tables c)
      then c\<lparr>ec_tables := (ec_tables c)[unat i := snd (m (ec_tables c ! unat i))]\<rparr> else c)"
  by (simp add: with_table_def bind_def on_tables_def on_nth_def split: prod.split)

lemma snd_with_memory:
  "snd (with_memory i e m c) =
     (if i < length (ec_memories c)
      then c\<lparr>ec_memories := (ec_memories c)[i := snd (m (ec_memories c ! i))]\<rparr> else c)"
  by (simp add: with_memory_def bind_def on_memories_def on_nth_def split: prod.split)

lemma preserves_map_error [pres]: "preserves P m \<Longrightarrow> preserves P (map_error f m)"
  by (auto simp: preserves_def map_error_def split: prod.split)

lemma preserves_pure [pres]: "preserves P (\<lambda>s. (f s, s))"
  by (simp add: preserves_def)

lemma preserves_table_get_st [pres]: "preserves P (table_get_st i)"
  by (simp add: preserves_def table_get_st_def)

lemma preserves_add_u32 [pres]: "preserves P (add_u32 a b)"
  by (auto simp: add_u32_def intro!: pres)

lemma preserves_sub_usize [pres]: "preserves P (sub_usize a b)"
  by (auto simp: sub_usize_def intro!: pres)

lemma preserves_index_vec [pres]: "preserves P (index_vec xs i)"
  by (auto simp: index_vec_def intro!: pres)

lemma preserves_table_move [pres]: "preserves table_wf (table_move d s i)"
  unfolding table_move_def by (intro pres)

lemma preserves_table_read_range [pres]: "preserves table_wf (table_read_range s is)"
  by (induction "is") (auto intro!: pres)

lemma preserves_table_grow_or_minus1 [pres]: "preserves table_wf (table_grow_or_minus1 n v)"
  using table_grow_wf [of n v]
  by (auto simp: preserves_def table_grow_or_minus1_def split: prod.splits result.splits)

lemma preserves_mem_grow_or_minus1 [pres]: "preserves mem_wf (mem_grow_or_minus1 n)"
  using mem_grow_wf [of n]
  by (auto simp: preserves_def mem_grow_or_minus1_def split: prod.splits result.splits)

lemma preserves_memory_copy [pres]: "preserves mem_wf (memory_copy s d n)"
  using copy_within_wf [of s d n]
  by (auto simp: preserves_def memory_copy_def Let_def map_error_def split: prod.splits)

lemma preserves_memory_fill [pres]: "preserves mem_wf (memory_fill d n v)"
  using mem_writes_wf(6) [of d n v]
  by (auto simp: preserves_def memory_fill_def Let_def map_error_def split: prod.splits)

lemma vs_collect_results_wf: "vs_wf s \<Longrightarrow> vs_wf (snd (collect_results n b s))"
  by (auto simp: vs_wf_def collect_results_def Let_def)

lemma pushes_wf: "vs_wf s \<Longrightarrow> vs_wf (snd (for_each rs vs_push s))"
proof -
  have "preserves vs_wf (for_each rs vs_push)" by (intro pres)
  then show "vs_wf s \<Longrightarrow> vs_wf (snd (for_each rs vs_push s))" by (simp add: preserves_def)
qed

lemma preserves_unwind [pres]: "preserves vs_wf (unwind arity base)"
proof (rule preservesI)
  fix s assume "vs_wf s"
  from vs_collect_results_wf [OF this, of arity base] show "vs_wf (snd (unwind arity base s))"
    by (auto simp: unwind_def intro!: pushes_wf vs_truncate_wf split: prod.split)
qed

lemma preserves_return_values [pres]: "preserves vs_wf (return_values frame callers)"
proof (rule preservesI)
  fix s assume "vs_wf s"
  from vs_collect_results_wf [OF this, of "cf_return_arity frame" "cf_stack_base frame"]
  show "vs_wf (snd (return_values frame callers s))"
    by (auto simp: return_values_def Let_def intro!: pushes_wf vs_truncate_wf
        split: prod.split list.split)
qed

lemma preserves_stack_groups [pres]:
  "preserves vs_wf (exec_reference ri)" "preserves vs_wf (exec_parametric pi)"
  "preserves vs_wf (exec_const ci)" "preserves vs_wf (pop_args ft)"
  subgoal by (cases ri) (auto intro!: pres)
  subgoal by (cases pi) (auto intro!: pres)
  subgoal by (cases ci) (auto intro!: pres)
  subgoal unfolding pop_args_def by (intro pres)
  done


lemma preserves_case_list [pres]:
  "preserves P m \<Longrightarrow> (\<And>a as. preserves P (f a as)) \<Longrightarrow>
     preserves P (case x of [] \<Rightarrow> m | a # as \<Rightarrow> f a as)"
  by (cases x) auto

section \<open>Invariants of the machine\<close>

text \<open>A machine with \<open>n\<close> frames: \<open>C\<close> holds of the context and \<open>F\<close> of every frame.\<close>

definition mach :: "('h executor_context \<Rightarrow> bool) \<Rightarrow> (call_frame \<Rightarrow> bool) \<Rightarrow> nat \<Rightarrow> 'h machine \<Rightarrow> bool" where
  "mach C F n s \<longleftrightarrow> C (mc_ctx s) \<and> vs_wf (mc_stack s) \<and> (\<forall>f \<in> set (mc_calls s). F f)
     \<and> length (mc_calls s) = n"

lemma mach_on_stack [pres]: "preserves vs_wf m \<Longrightarrow> preserves (mach C F n) (on_stack m)"
  by (auto simp: preserves_def mach_def on_stack_apply)

lemma mach_on_ctx [pres]: "preserves C m \<Longrightarrow> preserves (mach C F n) (on_ctx m)"
  by (auto simp: preserves_def mach_def on_ctx_apply)

text \<open>The current frame satisfies \<open>F\<close>, and a frame that does may replace it.\<close>

lemma mach_with_frame [pres]:
  assumes "\<And>frame. F frame \<Longrightarrow> preserves (mach C F n) (g frame)"
  shows "preserves (mach C F n) (with_frame g)"
proof (rule preservesI)
  fix s assume s: "mach C F n s"
  show "mach C F n (snd (with_frame g s))"
  proof (cases "mc_calls s")
    case Nil
    then show ?thesis using s by (simp add: with_frame_def bind_def cur_frame_def)
  next
    case (Cons f fs)
    then have "F f" using s by (simp add: mach_def)
    from assms [OF this] s Cons show ?thesis
      by (simp add: preserves_def with_frame_def bind_def cur_frame_def)
  qed
qed

lemma mach_set_frame:
  assumes "F frame" and "0 < n"
  shows "preserves (mach C F n) (set_frame frame)"
proof (rule preservesI)
  fix s assume "mach C F n s"
  then show "mach C F n (snd (set_frame frame s))"
    using assms by (cases "mc_calls s") (simp_all add: mach_def set_frame_def)
qed

locale machine_invariant =
  fixes C :: "'h executor_context \<Rightarrow> bool" and F :: "call_frame \<Rightarrow> bool"
  assumes C_table: "C c \<Longrightarrow> i < length (ec_tables c) \<Longrightarrow>
        (table_wf (ec_tables c ! i) \<Longrightarrow> table_wf t) \<Longrightarrow> C (c\<lparr>ec_tables := (ec_tables c)[i := t]\<rparr>)"
    and C_memory: "C c \<Longrightarrow> i < length (ec_memories c) \<Longrightarrow>
        (mem_wf (ec_memories c ! i) \<Longrightarrow> mem_wf m) \<Longrightarrow> C (c\<lparr>ec_memories := (ec_memories c)[i := m]\<rparr>)"
    and C_globals: "C c \<Longrightarrow> C (c\<lparr>ec_globals := gs\<rparr>)"
    and C_elements: "C c \<Longrightarrow> C (c\<lparr>ec_module := (ec_module c)\<lparr>mo_elements := els\<rparr>\<rparr>)"
    and C_data: "C c \<Longrightarrow> C (c\<lparr>ec_module := (ec_module c)\<lparr>mo_data := segs\<rparr>\<rparr>)"
    and F_pc: "F f \<Longrightarrow> F (f\<lparr>cf_pc := pc\<rparr>)"
    and F_locals: "F f \<Longrightarrow> F (f\<lparr>cf_locals := ls\<rparr>)"
    and F_blocks: "F f \<Longrightarrow> F (f\<lparr>cf_block_stack := bs\<rparr>)"
begin

lemma with_table_inv [pres]: "preserves table_wf m \<Longrightarrow> preserves C (with_table i m)"
  by (auto simp: preserves_def snd_with_table intro!: C_table)

lemma with_memory_inv [pres]: "preserves mem_wf m \<Longrightarrow> preserves C (with_memory i e m)"
  by (auto simp: preserves_def snd_with_memory intro!: C_memory)

lemma ctx_updates_inv [pres]:
  "preserves C (modify (\<lambda>c. c\<lparr>ec_globals := gs c\<rparr>))"
  "preserves C (modify (\<lambda>c. c\<lparr>ec_module := (ec_module c)\<lparr>mo_elements := els c\<rparr>\<rparr>))"
  "preserves C (modify (\<lambda>c. c\<lparr>ec_module := (ec_module c)\<lparr>mo_data := segs c\<rparr>\<rparr>))"
  by (intro preserves_modify C_globals C_elements C_data; assumption)+

lemma grow_first_inv [pres]: "preserves C (grow_first d)"
  using preserves_mem_grow_or_minus1 [of d]
  by (auto simp: preserves_def grow_first_def on_memories_def on_nth_def intro!: C_memory split: prod.split)

lemma set_frame_inv [pres]:
  assumes "F f" and "0 < n"
  shows "preserves (mach C F n) (set_frame (f\<lparr>cf_pc := pc\<rparr>))"
    and "preserves (mach C F n) (set_frame (f\<lparr>cf_locals := ls\<rparr>))"
    and "preserves (mach C F n) (set_frame (f\<lparr>cf_block_stack := bs\<rparr>))"
    and "preserves (mach C F n) (set_frame (f\<lparr>cf_pc := pc, cf_block_stack := bs\<rparr>))"
  by (intro mach_set_frame F_pc F_locals F_blocks assms)+

lemma get_current_instructions_inv [pres]: "preserves P (get_current_instructions f)"
  unfolding get_current_instructions_def by (intro pres)

lemma branch_inv [pres]: "0 < n \<Longrightarrow> preserves (mach C F n) (branch l)"
  unfolding branch_def Let_def by (intro pres)

lemma push_block_inv [pres]: "0 < n \<Longrightarrow> preserves (mach C F n) (push_block k bt b)"
  unfolding push_block_def Let_def by (intro pres)

lemma exec_if_inv [pres]: "0 < n \<Longrightarrow> preserves (mach C F n) (exec_if bt)"
  unfolding exec_if_def by (intro pres)

lemma exec_else_inv [pres]: "0 < n \<Longrightarrow> preserves (mach C F n) exec_else"
  unfolding exec_else_def by (intro pres)

lemma exec_end_inv [pres]: "0 < n \<Longrightarrow> preserves (mach C F n) exec_end"
  unfolding exec_end_def by (intro pres)

lemma exec_control_inv [pres]: "0 < n \<Longrightarrow> preserves (mach C F n) (exec_control i)"
  by (cases i) (simp_all add: exec_call_def exec_call_indirect_def pres)

lemma exec_variable_inv [pres]: "0 < n \<Longrightarrow> preserves (mach C F n) (exec_variable i)"
  by (cases i) (simp_all add: set_local_def pres)

lemma exec_table_inv [pres]: "preserves (mach C F n) (exec_table i)"
  by (cases i) (simp_all add: pres)

lemma exec_load_inv [pres]: "preserves (mach C F n) (exec_load i)"
  by (cases i) (simp_all add: load_op_def Let_def pres)

lemma exec_store_inv [pres]: "preserves (mach C F n) (exec_store i)"
  by (cases i) (simp_all add: store_op_def Let_def pres)

lemma exec_memory_inv [pres]: "preserves (mach C F n) (exec_memory i)"
  by (cases i) (simp_all add: exec_memory_init_def Let_def pres)

lemma execute_instruction_inv [pres]: "0 < n \<Longrightarrow> preserves (mach C F n) (execute_instruction i)"
  unfolding execute_instruction_def continue_def
  by (cases i) (simp_all add: pres)

end


section \<open>Safety\<close>

text \<open>Memories and tables keep their size discipline, the code of the module stays, and every
  frame runs a function that the module defines.\<close>

definition ctx_wf :: "nat \<Rightarrow> nat \<Rightarrow> 'h executor_context \<Rightarrow> bool" where
  "ctx_wf ni nb c \<longleftrightarrow> (\<forall>m \<in> set (ec_memories c). mem_wf m) \<and> (\<forall>t \<in> set (ec_tables c). table_wf t)
     \<and> import_function_count (ec_module c) = ni \<and> length (mo_code (ec_module c)) = nb"

definition frame_wf :: "nat \<Rightarrow> nat \<Rightarrow> call_frame \<Rightarrow> bool" where
  "frame_wf ni nb f \<longleftrightarrow> ni \<le> unat (cf_func_idx f) \<and> unat (cf_func_idx f) - ni < nb"

lemma ball_list_update:
  assumes "\<forall>x \<in> set xs. P x" and "P y"
  shows "\<forall>x \<in> set (xs[i := y]). P x"
  using assms set_update_subset_insert [of xs i y] by auto

lemma ctx_wf_updates:
  assumes "ctx_wf ni nb c"
  shows "i < length (ec_tables c) \<Longrightarrow> (table_wf (ec_tables c ! i) \<Longrightarrow> table_wf t) \<Longrightarrow>
      ctx_wf ni nb (c\<lparr>ec_tables := (ec_tables c)[i := t]\<rparr>)"
    and "j < length (ec_memories c) \<Longrightarrow> (mem_wf (ec_memories c ! j) \<Longrightarrow> mem_wf m) \<Longrightarrow>
      ctx_wf ni nb (c\<lparr>ec_memories := (ec_memories c)[j := m]\<rparr>)"
  using assms ball_list_update [of "ec_tables c" table_wf t i] ball_list_update [of "ec_memories c" mem_wf m j]
  by (simp_all add: ctx_wf_def)

interpretation safe: machine_invariant "ctx_wf ni nb" "frame_wf ni nb" for ni nb
proof (unfold_locales, goal_cases)
  case 1 then show ?case by (rule ctx_wf_updates(1))
next
  case 2 then show ?case by (rule ctx_wf_updates(2))
qed (simp_all add: ctx_wf_def frame_wf_def import_function_count_def)

interpretation fuel: machine_invariant "\<lambda>c. ec_fuel c = fu" "\<lambda>_. True" for fu
  by unfold_locales auto

definition machine_wf :: "nat \<Rightarrow> nat \<Rightarrow> 'h machine \<Rightarrow> bool" where
  "machine_wf ni nb s \<longleftrightarrow>
     (\<exists>n \<le> MAX_CALL_STACK_DEPTH. mach (ctx_wf ni nb) (frame_wf ni nb) n s)"

definition host_keeps :: "('h executor_context \<Rightarrow> bool) \<Rightarrow> 'h host_env \<Rightarrow> bool" where
  "host_keeps C host \<longleftrightarrow> (\<forall>f args. preserves C (host f args))"

lemma preserves_run: "preserves P m \<Longrightarrow> P s \<Longrightarrow> P (snd (m s))"
  by (simp add: preserves_def)

lemma bind_ensures:
  assumes "P s" and "preserves P m" and "\<And>a s'. P s' \<Longrightarrow> Q (snd (f a s'))" and "\<And>s'. P s' \<Longrightarrow> Q s'"
  shows "Q (snd (bind m f s))"
proof -
  obtain r s' where m: "m s = (r, s')" by fastforce
  then have "P s'" using preservesD assms(1,2) by metis
  then show ?thesis using assms(3,4) by (cases r) (simp_all add: bind_def m)
qed

lemma seq_ensures:
  assumes "P s" and "preserves P m" and "\<And>s'. P s' \<Longrightarrow> Q (snd (m' s'))" and "\<And>s'. P s' \<Longrightarrow> Q s'"
  shows "Q (snd (seq m m' s))"
  unfolding seq_def using assms by (rule bind_ensures) 

lemma seq_pop_frame: "seq pop_frame m s = m (s\<lparr>mc_calls := tl (mc_calls s)\<rparr>)"
  by (simp add: seq_def bind_def pop_frame_def)

lemma mach_pop_frame: "mach C F n s \<Longrightarrow> mach C F (n - 1) (s\<lparr>mc_calls := tl (mc_calls s)\<rparr>)"
  by (cases "mc_calls s") (auto simp: mach_def)

lemma snd_next_unless_done [simp]: "snd (next_unless_done s) = s"
  by (simp add: next_unless_done_def)

lemma mach_stack_then_done:
  assumes "mach C F n s" and "preserves vs_wf m"
  shows "mach C F n (snd (seq (on_stack m) next_unless_done s))"
  using assms(1) mach_on_stack [OF assms(2)] by (rule seq_ensures) simp_all

lemma mach_finish_frame:
  assumes "mach C F n s"
  shows "mach C F (n - 1) (snd (finish_frame frame s))"
  unfolding finish_frame_def seq_pop_frame
  using mach_pop_frame [OF assms] preserves_unwind by (rule mach_stack_then_done)

lemma mach_return_frame:
  assumes "mach C F n s"
  shows "mach C F (n - 1) (snd (return_frame s))"
proof (cases "mc_calls s")
  case Nil
  then show ?thesis using assms by (simp add: mach_def return_frame_def with_frame_def bind_def cur_frame_def)
next
  case (Cons f fs)
  have "snd (return_frame s) = snd (seq (on_stack (return_values f fs)) next_unless_done (s\<lparr>mc_calls := tl (mc_calls s)\<rparr>))"
    using Cons by (simp add: return_frame_def with_frame_def bind_def cur_frame_def seq_pop_frame)
  then show ?thesis
    using mach_stack_then_done [OF mach_pop_frame [OF assms] preserves_return_values] by simp
qed

lemma consume_fuel_safe [pres]: "preserves (ctx_wf ni nb) consume_fuel"
  by (auto simp: preserves_def consume_fuel_def ctx_wf_def split: option.split)

lemma call_host_function_keeps: "host_keeps C host \<Longrightarrow> preserves C (call_host_function host i args)"
  by (auto simp: preserves_def host_keeps_def call_host_function_def split: option.split)


lemma call_local_wf:
  assumes s: "mach (ctx_wf ni nb) (frame_wf ni nb) n s" and local: "\<not> is_host_function (mc_ctx s) target"
  shows "\<exists>k \<in> {n, n + 1}. mach (ctx_wf ni nb) (frame_wf ni nb) k (snd (call_local target args s))"
proof -
  have ni: "import_function_count (ec_module (mc_ctx s)) = ni" and nb: "length (mo_code (ec_module (mc_ctx s))) = nb"
    using s by (simp_all add: mach_def ctx_wf_def)
  have le: "ni \<le> unat target" using local ni by (simp add: is_host_function_def)
  show ?thesis
  proof (cases "func_type (mc_ctx s) target")
    case None
    then show ?thesis using s by (simp add: call_local_def bind_def)
  next
    case (Some ft)
    show ?thesis
    proof (cases "list_get (mo_code (ec_module (mc_ctx s))) (unat target - ni)")
      case None
      then show ?thesis using s Some ni le by (simp add: call_local_def bind_def sub_usize_def)
    next
      case body: (Some body)
      then have "frame_wf ni nb (make_frame target ft body args (vs_len (mc_stack s)))"
        using le nb by (simp add: frame_wf_def make_frame_def Let_def list_get_def split: if_splits)
      then show ?thesis using s Some ni le body
        by (simp add: call_local_def bind_def sub_usize_def mach_def)
    qed
  qed
qed

lemma do_call_wf:
  assumes host: "host_keeps (ctx_wf ni nb) host"
    and s: "mach (ctx_wf ni nb) (frame_wf ni nb) n s" and n: "n \<le> MAX_CALL_STACK_DEPTH"
  shows "machine_wf ni nb (snd (do_call host target args s))"
proof (cases "n < MAX_CALL_STACK_DEPTH")
  case False
  then have "snd (do_call host target args s) = s"
    using s by (simp add: do_call_def bind_def mach_def)
  then show ?thesis using s n by (auto simp: machine_wf_def)
next
  case room: True
  then have len: "length (mc_calls s) < MAX_CALL_STACK_DEPTH" using s by (simp add: mach_def)
  show ?thesis
  proof (cases "is_host_function (mc_ctx s) target")
    case True
    have "mach (ctx_wf ni nb) (frame_wf ni nb) n (snd (bind (on_ctx (call_host_function host target args))
        (\<lambda>results. on_stack (for_each results vs_push)) s))"
      by (rule preserves_run [where P = "mach (ctx_wf ni nb) (frame_wf ni nb) n", OF _ s]) (intro pres call_host_function_keeps [OF host])
    then show ?thesis using True n len by (auto simp: do_call_def machine_wf_def bind_apply [of "gets _"])
  next
    case False
    have "snd (do_call host target args s) = snd (call_local target args s)"
      using False len by (simp add: do_call_def bind_apply [of "gets _"])
    moreover obtain k where "k \<in> {n, n + 1}"
      and "mach (ctx_wf ni nb) (frame_wf ni nb) k (snd (call_local target args s))"
      using call_local_wf [OF s False] by blast
    ultimately show ?thesis using room unfolding machine_wf_def by (intro exI [of _ k]) auto
  qed
qed

lemma exit_code_safe [pres]: "preserves (ctx_wf ni nb) (modify (\<lambda>c. c\<lparr>ec_exit_code := x\<rparr>))"
  by (rule preserves_modify) (simp add: ctx_wf_def)

lemma handle_flow_wf:
  assumes host: "host_keeps (ctx_wf ni nb) host"
    and s: "mach (ctx_wf ni nb) (frame_wf ni nb) n s" and n: "n \<le> MAX_CALL_STACK_DEPTH"
  shows "machine_wf ni nb (snd (handle_flow host fl s))"
proof (cases fl)
  case FlowContinue
  then show ?thesis using s n by (auto simp: machine_wf_def)
next
  case FlowReturn
  have "n - 1 \<le> MAX_CALL_STACK_DEPTH" using n by simp
  then show ?thesis using mach_return_frame [OF s] FlowReturn unfolding machine_wf_def by auto
next
  case (FlowCall target args)
  have "snd (seq m (ret x) s) = snd (m s)" for m :: "('a machine, trap_error, unit) st" and x :: loop_state
    by (simp add: seq_def bind_def split: prod.split result.split)
  then show ?thesis using do_call_wf [OF host s n] FlowCall by simp
next
  case (FlowExit code)
  have "mach (ctx_wf ni nb) (frame_wf ni nb) n (snd (handle_flow host fl s))"
    unfolding FlowExit handle_flow.simps by (rule preserves_run [where P = "mach (ctx_wf ni nb) (frame_wf ni nb) n", OF _ s]) (intro pres)
  then show ?thesis using n by (auto simp: machine_wf_def)
qed

lemma exec_step_wf:
  fixes host :: "'h host_env"
  assumes host: "host_keeps (ctx_wf ni nb) host" and s: "machine_wf ni nb s"
  shows "machine_wf ni nb (snd (exec_step host s))"
proof (cases "mc_calls s")
  case Nil
  then show ?thesis using s by (simp add: exec_step_def bind_def)
next
  case (Cons frame rest)
  obtain n where n: "0 < n" "n \<le> MAX_CALL_STACK_DEPTH" and m: "mach (ctx_wf ni nb) (frame_wf ni nb) n s"
    using s Cons by (auto simp: machine_wf_def mach_def)
  let ?P = "mach (ctx_wf ni nb) (frame_wf ni nb) n :: 'h machine \<Rightarrow> bool"
  have frame: "frame_wf ni nb frame" using m Cons by (simp add: mach_def)
  have wf: "?P s' \<Longrightarrow> machine_wf ni nb s'" for s' :: "'h machine" using n by (auto simp: machine_wf_def)
  have "machine_wf ni nb (snd (bind (get_current_instructions frame) (\<lambda>instructions.
         if cf_pc frame \<ge> length instructions then finish_frame frame
         else step_instruction host frame (instructions ! cf_pc frame)) s))"
  proof (rule bind_ensures [where P = ?P, OF m _ _ wf])
    show "preserves ?P (get_current_instructions frame)" by (intro pres)
  next
    fix instructions and s' :: "'h machine" assume s': "?P s'"
    have fin: "machine_wf ni nb (snd (finish_frame frame s'))"
      using mach_finish_frame [OF s', of frame] n unfolding machine_wf_def
      by (metis diff_le_self le_trans)
    have "machine_wf ni nb (snd (step_instruction host frame i s'))" for i
      unfolding step_instruction_def
      by (rule seq_ensures [where P = ?P, OF s' _ seq_ensures [where P = ?P, OF _ _ bind_ensures [where P = ?P]]])
         (auto intro!: pres wf frame n(1) handle_flow_wf [OF host _ n(2)])
    with fin show "machine_wf ni nb (snd ((if cf_pc frame \<ge> length instructions then finish_frame frame
         else step_instruction host frame (instructions ! cf_pc frame)) s'))" by simp
  qed
  then show ?thesis using Cons by (simp add: exec_step_def bind_apply [of "gets _"])
qed


lemma exec_loop_wf:
  fixes host :: "'h host_env"
  assumes "exec_loop host s = Some y"
  shows "host_keeps (ctx_wf ni nb) host \<longrightarrow> machine_wf ni nb s \<longrightarrow> machine_wf ni nb (snd y)"
proof (rule exec_loop.raw_induct [where P = "\<lambda>host s y. host_keeps (ctx_wf ni nb) host \<longrightarrow>
      machine_wf ni nb s \<longrightarrow> machine_wf ni nb (snd y)", OF _ assms], intro impI)
  fix loop and host :: "'h host_env" and s y
  assume IH: "\<And>host s y. loop host s = Some y \<Longrightarrow> host_keeps (ctx_wf ni nb) host \<longrightarrow>
      machine_wf ni nb s \<longrightarrow> machine_wf ni nb (snd y)"
    and body: "(case exec_step host s of (Ok Next, s') \<Rightarrow> loop host s' | (Ok Break, s') \<Rightarrow> Some (Ok (), s')
      | (Err e, s') \<Rightarrow> Some (Err e, s') | (Panic, s') \<Rightarrow> Some (Panic, s')) = Some y"
    and wf: "host_keeps (ctx_wf ni nb) host" "machine_wf ni nb s"
  from exec_step_wf [OF wf] IH body wf(1) show "machine_wf ni nb (snd y)"
    by (cases "exec_step host s"; cases "fst (exec_step host s)") (auto split: loop_state.splits)
qed

section \<open>Termination\<close>

text \<open>Besides the fuel, the number of frames stays the same in an instruction; the loop then
  changes it by at most one.\<close>

lemma execute_instruction_keeps:
  assumes "mc_calls s \<noteq> []" and "vs_wf (mc_stack s)"
  shows "ec_fuel (mc_ctx (snd (execute_instruction i s))) = ec_fuel (mc_ctx s)"
    and "length (mc_calls (snd (execute_instruction i s))) = length (mc_calls s)"
    and "vs_wf (mc_stack (snd (execute_instruction i s)))"
proof -
  let ?P = "mach (\<lambda>c. ec_fuel c = ec_fuel (mc_ctx s)) (\<lambda>_. True) (length (mc_calls s))"
  have "?P (snd (execute_instruction i s))"
    by (rule preserves_run [where P = ?P, OF fuel.execute_instruction_inv])
       (use assms in \<open>simp_all add: mach_def\<close>)
  then show "ec_fuel (mc_ctx (snd (execute_instruction i s))) = ec_fuel (mc_ctx s)"
    "length (mc_calls (snd (execute_instruction i s))) = length (mc_calls s)"
    "vs_wf (mc_stack (snd (execute_instruction i s)))"
    by (simp_all add: mach_def)
qed

text \<open>A host function may consume fuel but adds none.\<close>

definition host_burns :: "'h host_env \<Rightarrow> bool" where
  "host_burns host \<longleftrightarrow> (\<forall>f args c k. ec_fuel c = Some k \<longrightarrow>
     (\<exists>k' \<le> k. ec_fuel (snd (host f args c)) = Some k'))"

definition machine_fuel :: "'h machine \<Rightarrow> nat" where
  "machine_fuel s = (case ec_fuel (mc_ctx s) of Some k \<Rightarrow> unat k | None \<Rightarrow> 0)"

definition work :: "'h machine \<Rightarrow> nat" where
  "work s = 2 * machine_fuel s + length (mc_calls s)"


lemma work_finish_frame:
  assumes "mc_calls s = frame # rest" and "vs_wf (mc_stack s)"
  shows "work (snd (finish_frame frame s)) < work s" and "vs_wf (mc_stack (snd (finish_frame frame s)))"
    and "ec_fuel (mc_ctx (snd (finish_frame frame s))) = ec_fuel (mc_ctx s)"
proof -
  have "mach (\<lambda>c. ec_fuel c = ec_fuel (mc_ctx s)) (\<lambda>_. True) (length (mc_calls s) - 1) (snd (finish_frame frame s))"
    by (rule mach_finish_frame) (simp add: mach_def assms)
  then show "work (snd (finish_frame frame s)) < work s" "vs_wf (mc_stack (snd (finish_frame frame s)))"
    "ec_fuel (mc_ctx (snd (finish_frame frame s))) = ec_fuel (mc_ctx s)"
    using assms by (simp_all add: mach_def work_def machine_fuel_def)
qed

text \<open>What a step may leave behind when the fuel was \<open>k\<close> and the frames \<open>n\<close>: no more fuel,
  and at most one frame more.\<close>

definition within :: "u64 \<Rightarrow> nat \<Rightarrow> 'h machine \<Rightarrow> bool" where
  "within k n s \<longleftrightarrow> (\<exists>k' \<le> k. ec_fuel (mc_ctx s) = Some k') \<and> length (mc_calls s) \<le> n + 1 \<and> vs_wf (mc_stack s)"

lemma handle_flow_within:
  fixes host :: "'h host_env"
  assumes host: "host_burns host" and fuel: "ec_fuel (mc_ctx s) = Some k" and wf: "vs_wf (mc_stack s)"
    and n: "length (mc_calls s) = n"
  shows "within k n (snd (handle_flow host fl s))"
proof (cases fl)
  case FlowContinue
  then show ?thesis using assms by (simp add: within_def)
next
  case FlowReturn
  have "mach (\<lambda>c. ec_fuel c = Some k) (\<lambda>_. True) (n - 1) (snd (return_frame s))"
    by (rule mach_return_frame) (simp add: mach_def assms)
  then show ?thesis using FlowReturn by (auto simp: mach_def within_def)
next
  case (FlowCall target args)
  let ?C = "\<lambda>c :: 'h executor_context. \<exists>k' \<le> k. ec_fuel c = Some k'"
  have "host_keeps ?C host"
    unfolding host_keeps_def
  proof (intro allI preservesI)
    fix f args and c :: "'h executor_context" assume "?C c"
    then obtain k' where "k' \<le> k" "ec_fuel c = Some k'" by blast
    then show "?C (snd (host f args c))"
      using host unfolding host_burns_def by (meson order_trans)
  qed
  then have burns: "preserves ?C (call_host_function host target args)"
    by (rule call_host_function_keeps)
  have "mach ?C (\<lambda>_. True) n (snd (bind (on_ctx (call_host_function host target args))
        (\<lambda>results. on_stack (for_each results vs_push)) s))"
    by (rule preserves_run [where P = "mach ?C (\<lambda>_. True) n"]) (intro pres burns, use assms in \<open>auto simp: mach_def\<close>)
  then have h: "within k n (snd (bind (on_ctx (call_host_function host target args))
        (\<lambda>results. on_stack (for_each results vs_push)) s))"
    by (simp add: within_def mach_def)
  have l: "within k n (snd (call_local target args s))"
    using assms by (auto simp: call_local_def bind_def sub_usize_def within_def
        split: result.split prod.split option.split)
  have "snd (seq m (ret x) s) = snd (m s)" for m :: "('h machine, trap_error, unit) st" and x :: loop_state
    by (simp add: seq_def bind_def split: prod.split result.split)
  then show ?thesis using FlowCall h l assms
    by (simp add: do_call_def bind_apply [of "gets _"] within_def)
next
  case (FlowExit code)
  then show ?thesis using assms by (simp add: seq_def bind_def on_ctx_apply within_def)
qed

lemma step_instruction_work:
  assumes host: "host_burns host" and fuel: "ec_fuel (mc_ctx s) = Some k" and wf: "vs_wf (mc_stack s)"
    and calls: "mc_calls s = frame # rest"
    and ok: "step_instruction host frame i s = (Ok x, s')"
  shows "work s' < work s \<and> (\<exists>k'. ec_fuel (mc_ctx s') = Some k') \<and> vs_wf (mc_stack s')"
proof -
  define s1 where "s1 = s\<lparr>mc_calls := frame\<lparr>cf_pc := cf_pc frame + 1\<rparr> # rest, mc_ctx := (mc_ctx s)\<lparr>ec_fuel := Some (k - 1)\<rparr>\<rparr>"
  have k: "k \<noteq> 0" and run: "bind (execute_instruction i) (handle_flow host) s1 = (Ok x, s')"
    using ok fuel calls
    by (auto simp: step_instruction_def seq_def bind_apply [of "modify _"] bind_apply [of "on_ctx _"]
        set_frame_def on_ctx_apply consume_fuel_def s1_def split: if_splits)
  obtain fl s2 where s2: "execute_instruction i s1 = (Ok fl, s2)" and fl: "handle_flow host fl s2 = (Ok x, s')"
    using run by (auto simp: bind_Ok_iff)
  have "mc_calls s1 \<noteq> []" "vs_wf (mc_stack s1)" using wf by (simp_all add: s1_def)
  from execute_instruction_keeps [OF this, of i] s2
  have "ec_fuel (mc_ctx s2) = Some (k - 1)" "length (mc_calls s2) = length (mc_calls s)" "vs_wf (mc_stack s2)"
    using calls by (simp_all add: s1_def)
  from handle_flow_within [OF host this(1,3,2), of fl] fl
  obtain k' where "ec_fuel (mc_ctx s') = Some k'" "k' \<le> k - 1"
    "length (mc_calls s') \<le> length (mc_calls s) + 1" "vs_wf (mc_stack s')"
    by (auto simp: within_def)
  moreover have "unat k' < unat k"
    using k \<open>k' \<le> k - 1\<close> unat_gt_0 [of k] by (simp add: word_le_nat_alt unat_minus_one)
  ultimately show ?thesis using fuel by (simp add: work_def machine_fuel_def)
qed


lemma exec_step_work:
  assumes host: "host_burns host" and fuel: "ec_fuel (mc_ctx s) = Some k" and wf: "vs_wf (mc_stack s)"
    and ok: "exec_step host s = (Ok Next, s')"
  shows "work s' < work s \<and> (\<exists>k'. ec_fuel (mc_ctx s') = Some k') \<and> vs_wf (mc_stack s')"
proof (cases "mc_calls s")
  case Nil
  then show ?thesis using ok by (simp add: exec_step_def bind_def)
next
  case (Cons frame rest)
  have same: "snd (get_current_instructions frame s :: (trap_error, instruction list) result \<times> _) = s"
    by (rule preserves_run [where P = "\<lambda>s'. s' = s", OF safe.get_current_instructions_inv]) simp
  obtain instructions where run: "(if cf_pc frame \<ge> length instructions then finish_frame frame
         else step_instruction host frame (instructions ! cf_pc frame)) s = (Ok Next, s')"
    using ok Cons same by (auto simp: exec_step_def bind_apply [of "gets _"] bind_Ok_iff)
  then show ?thesis
    using work_finish_frame [OF Cons wf] step_instruction_work [OF host fuel wf Cons] fuel
    by (auto split: if_splits)
qed

lemma exec_loop_terminates:
  assumes "host_burns host" and "ec_fuel (mc_ctx s) = Some k" and "vs_wf (mc_stack s)"
  shows "\<exists>y. exec_loop host s = Some y"
  using assms(2,3)
proof (induction "work s" arbitrary: s k rule: less_induct)
  case less
  show ?case
  proof (cases "exec_step host s")
    case (Pair r s')
    have "\<exists>y. exec_loop host s' = Some y" if "r = Ok Next"
      using exec_step_work [OF assms(1) less.prems] less.hyps Pair that by blast
    then show ?thesis
      using Pair by (cases r) (auto simp: exec_loop.simps [of host s] split: loop_state.split)
  qed
qed


lemma execute_function_returns:
  assumes "host_burns host" and "ec_fuel c = Some k"
  shows "\<exists>r c'. execute_function host c func_idx args = Some (r, c')"
proof (cases "is_host_function c func_idx")
  case True
  then show ?thesis by (simp add: execute_function_def)
next
  case local: False
  show ?thesis
  proof (cases "func_type c func_idx")
    case (Some ft)
    show ?thesis
    proof (cases "list_get (mo_code (ec_module c)) (unat func_idx - import_function_count (ec_module c))")
      case body: (Some body)
      let ?m = "\<lparr>mc_ctx = c, mc_stack = value_stack_new, mc_calls = [make_frame func_idx ft body args 0]\<rparr>"
      obtain y where "exec_loop host ?m = Some y"
        using exec_loop_terminates [OF assms(1), of ?m k] assms(2) vs_wf_new by auto
      then show ?thesis using local Some body
        by (cases y; cases "fst y") (simp_all add: execute_function_def Let_def)
    qed (use local Some in \<open>simp add: execute_function_def\<close>)
  qed (use local in \<open>simp add: execute_function_def\<close>)
qed

text \<open>C1. Termination: with a fuel limit the executor always returns. Whatever the module, the
  function and the arguments, if host functions add no fuel, \<open>execute_function\<close> ends with a
  result, a trap or a panic; it does not run forever.\<close>

theorem execute_function_terminates:
  assumes "host_burns host" and "ec_fuel c = Some k"
  shows "\<exists>r c'. execute_function host c func_idx args = Some (r, c')"
  by (rule execute_function_returns [OF assms])

definition sample_module :: "instruction list list \<Rightarrow> wasm_module" where
  "sample_module codes = module_empty\<lparr>mo_types := [\<lparr>ft_params = [], ft_results = [TI32]\<rparr>],
     mo_functions := map (\<lambda>_. 0) codes,
     mo_code := map (\<lambda>code. \<lparr>fb_locals = [(1, TI32)], fb_instructions = code, fb_raw_bytes = []\<rparr>) codes\<rparr>"

definition sample_ctx :: "instruction list list \<Rightarrow> u64 option \<Rightarrow> unit executor_context" where
  "sample_ctx codes fu = \<lparr>ec_module = sample_module codes, ec_memories = [], ec_tables = [], ec_globals = [],
     ec_host_functions = map (\<lambda>_. None) codes, ec_fuel = fu, ec_stdout = [], ec_stderr = [],
     ec_exit_code = None, ec_wasi = None\<rparr>"

text \<open>An endless loop: it ends because the fuel does.\<close>

definition spin :: "instruction list" where
  "spin = [Control (Loop BtEmpty), Control (Br 0), Control End, Control End]"

theorem execute_function_terminates_witness:
  "\<exists>r c'. execute_function (\<lambda>_ _ c. (Ok [], c)) (sample_ctx [spin] (Some 5)) 0 [] = Some (r, c')"
  by (rule execute_function_terminates [where k = 5]) (simp_all add: host_burns_def sample_ctx_def)

lemmas run_defs =
  execute_function_def exec_loop.simps exec_step_def step_instruction_def execute_instruction_def
  get_current_instructions_def sub_usize_def index_vec_def finish_frame_def return_frame_def
  return_values_def pop_frame_def next_unless_done_def consume_fuel_def do_call_def call_local_def
  with_frame_def cur_frame_def set_frame_def on_stack_def on_ctx_def continue_def push_block_def
  exec_if_def exec_else_def exec_end_def branch_def unwind_def collect_results_def find_block_end_def
  find_else_def is_opener_def block_arity_def block_param_arity_def set_local_def
  make_frame_def make_locals_def func_type_def function_type_of_def is_host_function_def
  import_function_count_def list_get_def value_stack_new_def MAX_VALUE_STACK_DEPTH_def
  MAX_CALL_STACK_DEPTH_def vs_push_def vs_pop_def vs_pop_i32_def vs_peek_def vs_len_def vs_truncate_def
  i32_bin_def i32_un_def cmp_def bool_i32_def bind_def seq_def Let_def


lemma execute_function_wf:
  assumes "host_keeps (ctx_wf ni nb) host" and "ctx_wf ni nb c"
    and "execute_function host c func_idx args = Some (r, c')"
  shows "ctx_wf ni nb c'"
proof (cases "is_host_function c func_idx")
  case True
  then show ?thesis using assms call_host_function_keeps [OF assms(1), of func_idx args]
    by (auto simp: execute_function_def dest: preservesD)
next
  case local: False
  show ?thesis
  proof (cases "func_type c func_idx")
    case (Some ft)
    show ?thesis
    proof (cases "list_get (mo_code (ec_module c)) (unat func_idx - import_function_count (ec_module c))")
      case body: (Some body)
      let ?m = "\<lparr>mc_ctx = c, mc_stack = value_stack_new, mc_calls = [make_frame func_idx ft body args 0]\<rparr>"
      have "frame_wf ni nb (make_frame func_idx ft body args 0)"
        using assms(2) local body
        by (auto simp: frame_wf_def make_frame_def Let_def ctx_wf_def is_host_function_def list_get_def
            split: if_splits)
      then have "machine_wf ni nb ?m"
        using assms(2) vs_wf_new unfolding machine_wf_def
        by (intro exI [of _ 1]) (simp add: mach_def MAX_CALL_STACK_DEPTH_def)
      then have "\<And>y. exec_loop host ?m = Some y \<Longrightarrow> ctx_wf ni nb (mc_ctx (snd y))"
        using exec_loop_wf [of host ?m] assms(1) by (auto simp: machine_wf_def mach_def)
      then show ?thesis using assms(3) local Some body
        by (auto simp: execute_function_def Let_def split: option.splits prod.splits result.splits)
    qed (use assms local Some in \<open>simp add: execute_function_def\<close>)
  qed (use assms local in \<open>simp add: execute_function_def\<close>)
qed



section \<open>Instantiation\<close>

lemma new_memories_wf: "new_memories mts = Ok ms \<Longrightarrow> m \<in> set ms \<Longrightarrow> mem_wf m"
  by (induction mts arbitrary: ms) (auto dest: linear_memory_new_wf)

definition table_type_ok :: "table_type \<Rightarrow> bool" where
  "table_type_ok tt \<longleftrightarrow> (case tt_max tt of None \<Rightarrow> True | Some mx \<Rightarrow> tt_min tt \<le> mx)"

lemma table_new_wf: "table_type_ok tt \<Longrightarrow> table_wf (table_new (tt_min tt) (tt_max tt))"
  by (auto simp: table_type_ok_def table_new_def table_wf_def word_le_nat_alt split: option.splits)

lemma init_segments_safe [pres]:
  "preserves (ctx_wf ni nb) init_data_segments" "preserves (ctx_wf ni nb) init_element_segments"
  "preserves (\<lambda>c. ec_fuel c = fu) init_data_segments" "preserves (\<lambda>c. ec_fuel c = fu) init_element_segments"
  unfolding init_data_segments_def init_element_segments_def init_data_segment_def
    init_element_segment_def Let_def
  by (intro pres)+

lemma new_context_wf:
  assumes "new_with_host_functions md host_fns = Ok c"
    and "\<forall>tt \<in> set (imported_tables (mo_imports md) @ mo_tables md). table_type_ok tt"
  shows "ctx_wf (import_function_count md) (length (mo_code md)) c \<and> ec_fuel c = Some 10000000"
proof -
  from assms(1) obtain ms gs where ms: "new_memories (imported_memories (mo_imports md) @ mo_memories md) = Ok ms"
    and init: "(case seq init_data_segments init_element_segments \<lparr>ec_module = md, ec_memories = ms,
        ec_tables = map (\<lambda>tt. table_new (tt_min tt) (tt_max tt)) (imported_tables (mo_imports md) @ mo_tables md),
        ec_globals = gs,
        ec_host_functions = bind_imports host_fns (mo_imports md) @ replicate (length (mo_functions md)) None,
        ec_fuel = Some 10000000, ec_stdout = [], ec_stderr = [], ec_exit_code = None, ec_wasi = None\<rparr> of
        (Ok _, ctx') \<Rightarrow> Ok ctx' | (Err e, _) \<Rightarrow> Err e | (Panic, _) \<Rightarrow> Panic) = Ok c"
    (is "(case seq init_data_segments init_element_segments ?ctx of (Ok _, ctx') \<Rightarrow> Ok ctx' | (Err e, _) \<Rightarrow> Err e
        | (Panic, _) \<Rightarrow> Panic) = _")
    unfolding new_with_host_functions_def Let_def by auto
  let ?P = "\<lambda>x. ctx_wf (import_function_count md) (length (mo_code md)) x"
  have "?P ?ctx"
    using new_memories_wf [OF ms] assms(2) by (auto simp: ctx_wf_def intro!: table_new_wf)
  obtain r c' where run: "seq init_data_segments init_element_segments ?ctx = (r, c')" by fastforce
  then have "c' = c" using init by (cases r) simp_all
  have "?P (snd (seq init_data_segments init_element_segments ?ctx))"
    by (rule preserves_run [where P = ?P]) (intro pres, fact)
  moreover have "ec_fuel (snd (seq init_data_segments init_element_segments ?ctx)) = Some 10000000"
    by (rule preserves_run [where P = "\<lambda>x. ec_fuel x = Some 10000000"]) (intro pres, simp)
  ultimately show ?thesis using run \<open>c' = c\<close> by simp
qed



section \<open>Finding the end of a block\<close>

text \<open>Structured code and its flat form. A leaf is an instruction that does not delimit blocks.\<close>

datatype code_tree =
    Leaf instruction
  | Node instruction "code_tree list"
  | Node_else instruction "code_tree list" "code_tree list"

fun flatten :: "code_tree \<Rightarrow> instruction list" where
  "flatten (Leaf i) = [i]"
| "flatten (Node i body) = i # concat (map flatten body) @ [Control End]"
| "flatten (Node_else i body alt) =
     i # concat (map flatten body) @ Control Else # concat (map flatten alt) @ [Control End]"

fun tree_ok :: "code_tree \<Rightarrow> bool" where
  "tree_ok (Leaf i) = (\<not> is_opener i \<and> i \<noteq> Control End \<and> i \<noteq> Control Else)"
| "tree_ok (Node i body) = (is_opener i \<and> list_all tree_ok body)"
| "tree_ok (Node_else i body alt) = (is_opener i \<and> list_all tree_ok body \<and> list_all tree_ok alt)"

lemma not_opener [simp]: "\<not> is_opener (Control End)" "\<not> is_opener (Control Else)"
  by (simp_all add: is_opener_def)

lemma opener_neq: "is_opener i \<Longrightarrow> i \<noteq> Control End \<and> i \<noteq> Control Else"
  by auto

lemma scan_end_tree:
  "tree_ok t \<Longrightarrow> 0 < d \<Longrightarrow> scan_end (flatten t @ rest) i d = scan_end rest (i + length (flatten t)) d"
proof (induction t arbitrary: i d rest)
  case (Leaf x)
  then show ?case by simp
next
  case (Node x body)
  have body: "scan_end (concat (map flatten ts) @ r) j k = scan_end r (j + length (concat (map flatten ts))) k"
    if "set ts \<subseteq> set body" "0 < k" for ts r j k
    using that Node by (induction ts arbitrary: r j) (auto simp: list_all_iff add.assoc)
  show ?case using Node.prems opener_neq [of x] by (simp add: body)
next
  case (Node_else x body alt)
  have body: "scan_end (concat (map flatten ts) @ r) j k = scan_end r (j + length (concat (map flatten ts))) k"
    if "set ts \<subseteq> set body \<union> set alt" "0 < k" for ts r j k
    using that Node_else by (induction ts arbitrary: r j) (auto simp: list_all_iff add.assoc)
  show ?case using Node_else.prems opener_neq [of x] by (simp add: body add.assoc)
qed

lemma scan_end_trees:
  "list_all tree_ok ts \<Longrightarrow> 0 < d \<Longrightarrow>
     scan_end (concat (map flatten ts) @ rest) i d = scan_end rest (i + length (concat (map flatten ts))) d"
  by (induction ts arbitrary: i) (auto simp: scan_end_tree add.assoc)

lemma scan_else_tree:
  "tree_ok t \<Longrightarrow> 0 < d \<Longrightarrow> scan_else (flatten t @ rest) i d = scan_else rest (i + length (flatten t)) d"
proof (induction t arbitrary: i d rest)
  case (Leaf x)
  then show ?case by simp
next
  case (Node x body)
  have body: "scan_else (concat (map flatten ts) @ r) j k = scan_else r (j + length (concat (map flatten ts))) k"
    if "set ts \<subseteq> set body" "0 < k" for ts r j k
    using that Node by (induction ts arbitrary: r j) (auto simp: list_all_iff add.assoc)
  show ?case using Node.prems opener_neq [of x] by (simp add: body)
next
  case (Node_else x body alt)
  have body: "scan_else (concat (map flatten ts) @ r) j k = scan_else r (j + length (concat (map flatten ts))) k"
    if "set ts \<subseteq> set body \<union> set alt" "0 < k" for ts r j k
    using that Node_else by (induction ts arbitrary: r j) (auto simp: list_all_iff add.assoc)
  show ?case using Node_else.prems opener_neq [of x] by (simp add: body add.assoc)
qed

lemma scan_else_trees:
  "list_all tree_ok ts \<Longrightarrow> 0 < d \<Longrightarrow>
     scan_else (concat (map flatten ts) @ rest) i d = scan_else rest (i + length (concat (map flatten ts))) d"
  by (induction ts arbitrary: i) (auto simp: scan_else_tree add.assoc)

text \<open>C7. The linear scans find the structure of the code: for a block, loop or if anywhere in
  well-nested code, \<open>find_block_end\<close> returns the position of its own \<open>end\<close>, however deeply
  blocks nest inside it, and \<open>find_else\<close> the position of its own \<open>else\<close>, or nothing when
  it has none.\<close>

theorem find_block_end_correct:
  assumes "list_all tree_ok body" and "list_all tree_ok alt" and "is_opener i"
  shows "find_block_end (pre @ flatten (Node i body) @ post) (length pre)
           = length pre + 1 + length (concat (map flatten body))
       \<and> find_else (pre @ flatten (Node i body) @ post) (length pre) = None
       \<and> find_block_end (pre @ flatten (Node_else i body alt) @ post) (length pre)
           = length pre + 2 + length (concat (map flatten body)) + length (concat (map flatten alt))
       \<and> find_else (pre @ flatten (Node_else i body alt) @ post) (length pre)
           = Some (length pre + 1 + length (concat (map flatten body)))"
  using assms by (simp add: find_block_end_def find_else_def scan_end_trees scan_else_trees)

theorem find_block_end_correct_witness:
  "find_block_end ([] @ flatten (Node (Control (Loop BtEmpty)) [Node (Control (Block BtEmpty)) []]) @ [])
     (length []) = 3"
  using find_block_end_correct [of "[Node (Control (Block BtEmpty)) []]" "[]" "Control (Loop BtEmpty)" "[]" "[]"]
  by (simp add: is_opener_def)

section \<open>Branches to loops\<close>

text \<open>The loop adds one to a local until it is three, continuing from inside a block.\<close>

definition count_to_three :: "instruction list" where
  "count_to_three = [Control (Loop BtEmpty), Control (Block BtEmpty),
     Variable (LocalGet 0), Const (I32Const 1), I32Arithmetic I32Add, Variable (LocalTee 0),
     Const (I32Const 3), I32Comparison I32LtS, Control (BrIf 1), Control End, Control End,
     Variable (LocalGet 0), Control End]"



section \<open>Explicit returns\<close>


end
