(* ===== verification/Wasm_Opcodes.thy ===== *)
theory Wasm_Opcodes
  imports Wasm_Exec_Props
begin

text \<open>
  The operations of the instruction type (runtime/src/opcodes.rs): the numbers of operands
  and results that the table of instructions states, and the mnemonics.

  The lemmas compare the table with the executor. Every instruction with a fixed number of
  operands has a signature here, and a run follows it when it replaces operands of these
  types by results of these types and leaves the rest of the stack alone. The property is
  that every instruction with fixed counts takes and leaves exactly the stated numbers of
  values, and reports an underflow only when there are fewer operands.
\<close>

section \<open>Operand counts\<close>

definition stack_pop_count :: "instruction \<Rightarrow> usize option" where
  "stack_pop_count instr = (case instr of
       Control i \<Rightarrow> (case i of
          Nop \<Rightarrow> Some 0 | Unreachable \<Rightarrow> Some 0 | End \<Rightarrow> Some 0 | Else \<Rightarrow> Some 0 | Return \<Rightarrow> Some 0
        | Block _ \<Rightarrow> Some 0 | Loop _ \<Rightarrow> Some 0 | Br _ \<Rightarrow> Some 0 | BrIf _ \<Rightarrow> Some 1 | If _ \<Rightarrow> Some 1
        | Call _ \<Rightarrow> None | CallIndirect _ _ \<Rightarrow> None | BrTable _ _ \<Rightarrow> Some 1)
     | Const _ \<Rightarrow> Some 0
     | Variable i \<Rightarrow> (case i of
          LocalGet _ \<Rightarrow> Some 0 | GlobalGet _ \<Rightarrow> Some 0 | LocalSet _ \<Rightarrow> Some 1 | GlobalSet _ \<Rightarrow> Some 1
        | LocalTee _ \<Rightarrow> Some 1)
     | Parametric i \<Rightarrow> (case i of Drop \<Rightarrow> Some 1 | Select \<Rightarrow> Some 3)
     | I32Comparison i \<Rightarrow> (case i of I32Eqz \<Rightarrow> Some 1 | _ \<Rightarrow> Some 2)
     | I64Comparison i \<Rightarrow> (case i of I64Eqz \<Rightarrow> Some 1 | _ \<Rightarrow> Some 2)
     | I32Arithmetic i \<Rightarrow> (case i of I32Clz \<Rightarrow> Some 1 | I32Ctz \<Rightarrow> Some 1 | I32Popcnt \<Rightarrow> Some 1 | _ \<Rightarrow> Some 2)
     | I64Arithmetic i \<Rightarrow> (case i of I64Clz \<Rightarrow> Some 1 | I64Ctz \<Rightarrow> Some 1 | I64Popcnt \<Rightarrow> Some 1 | _ \<Rightarrow> Some 2)
     | F32Comparison _ \<Rightarrow> Some 2
     | F64Comparison _ \<Rightarrow> Some 2
     | F32Arithmetic i \<Rightarrow> (case i of
          F32Abs \<Rightarrow> Some 1 | F32Neg \<Rightarrow> Some 1 | F32Ceil \<Rightarrow> Some 1 | F32Floor \<Rightarrow> Some 1 | F32Trunc \<Rightarrow> Some 1
        | F32Nearest \<Rightarrow> Some 1 | F32Sqrt \<Rightarrow> Some 1 | _ \<Rightarrow> Some 2)
     | F64Arithmetic i \<Rightarrow> (case i of
          F64Abs \<Rightarrow> Some 1 | F64Neg \<Rightarrow> Some 1 | F64Ceil \<Rightarrow> Some 1 | F64Floor \<Rightarrow> Some 1 | F64Trunc \<Rightarrow> Some 1
        | F64Nearest \<Rightarrow> Some 1 | F64Sqrt \<Rightarrow> Some 1 | _ \<Rightarrow> Some 2)
     | Load _ \<Rightarrow> Some 1
     | Store _ \<Rightarrow> Some 2
     | Conversion _ \<Rightarrow> Some 1
     | Reinterpretation _ \<Rightarrow> Some 1
     | SignExtension _ \<Rightarrow> Some 1
     | SaturatingTruncation _ \<Rightarrow> Some 1
     | Reference i \<Rightarrow> (case i of RefNull \<Rightarrow> Some 0 | RefFunc _ \<Rightarrow> Some 0 | RefIsNull \<Rightarrow> Some 1)
     | Table i \<Rightarrow> (case i of
          TableGet _ \<Rightarrow> Some 1 | TableSet _ \<Rightarrow> Some 2 | TableInit _ _ \<Rightarrow> Some 3 | ElemDrop _ \<Rightarrow> Some 0
        | TableCopy _ _ \<Rightarrow> Some 3 | TableGrow _ \<Rightarrow> Some 2 | TableSize _ \<Rightarrow> Some 0 | TableFill _ \<Rightarrow> Some 3)
     | Memory i \<Rightarrow> (case i of
          MemorySize \<Rightarrow> Some 0 | MemoryGrow \<Rightarrow> Some 1 | MemoryInit _ \<Rightarrow> Some 3 | DataDrop _ \<Rightarrow> Some 0
        | MemoryCopy \<Rightarrow> Some 3 | MemoryFill \<Rightarrow> Some 3))"

definition stack_push_count :: "instruction \<Rightarrow> usize option" where
  "stack_push_count instr = (case instr of
       Control i \<Rightarrow> (case i of
          Nop \<Rightarrow> Some 0 | Unreachable \<Rightarrow> Some 0 | End \<Rightarrow> Some 0 | Else \<Rightarrow> Some 0 | Return \<Rightarrow> Some 0
        | Block _ \<Rightarrow> None | Loop _ \<Rightarrow> None | If _ \<Rightarrow> None | Br _ \<Rightarrow> None | BrIf _ \<Rightarrow> None
        | BrTable _ _ \<Rightarrow> None | Call _ \<Rightarrow> None | CallIndirect _ _ \<Rightarrow> None)
     | Parametric i \<Rightarrow> (case i of Drop \<Rightarrow> Some 0 | Select \<Rightarrow> Some 1)
     | Variable i \<Rightarrow> (case i of
          LocalSet _ \<Rightarrow> Some 0 | GlobalSet _ \<Rightarrow> Some 0 | LocalGet _ \<Rightarrow> Some 1 | GlobalGet _ \<Rightarrow> Some 1
        | LocalTee _ \<Rightarrow> Some 1)
     | Load _ \<Rightarrow> Some 1
     | Store _ \<Rightarrow> Some 0
     | Const _ \<Rightarrow> Some 1
     | I32Comparison _ \<Rightarrow> Some 1 | I64Comparison _ \<Rightarrow> Some 1
     | F32Comparison _ \<Rightarrow> Some 1 | F64Comparison _ \<Rightarrow> Some 1
     | I32Arithmetic _ \<Rightarrow> Some 1 | I64Arithmetic _ \<Rightarrow> Some 1
     | F32Arithmetic _ \<Rightarrow> Some 1 | F64Arithmetic _ \<Rightarrow> Some 1
     | Conversion _ \<Rightarrow> Some 1 | Reinterpretation _ \<Rightarrow> Some 1
     | SignExtension _ \<Rightarrow> Some 1 | SaturatingTruncation _ \<Rightarrow> Some 1
     | Reference _ \<Rightarrow> Some 1
     | Table i \<Rightarrow> (case i of
          TableGet _ \<Rightarrow> Some 1 | TableSet _ \<Rightarrow> Some 0 | TableSize _ \<Rightarrow> Some 1 | TableGrow _ \<Rightarrow> Some 1
        | TableInit _ _ \<Rightarrow> Some 0 | ElemDrop _ \<Rightarrow> Some 0 | TableCopy _ _ \<Rightarrow> Some 0 | TableFill _ \<Rightarrow> Some 0)
     | Memory i \<Rightarrow> (case i of
          MemorySize \<Rightarrow> Some 1 | MemoryGrow \<Rightarrow> Some 1 | MemoryInit _ \<Rightarrow> Some 0 | DataDrop _ \<Rightarrow> Some 0
        | MemoryCopy \<Rightarrow> Some 0 | MemoryFill \<Rightarrow> Some 0))"

section \<open>Mnemonics\<close>

definition instruction_name :: "instruction \<Rightarrow> string" where
  "instruction_name instr = (case instr of
       Control i \<Rightarrow> (case i of
          Unreachable \<Rightarrow> ''unreachable'' | Nop \<Rightarrow> ''nop''
        | Block _ \<Rightarrow> ''block'' | Loop _ \<Rightarrow> ''loop'' | If _ \<Rightarrow> ''if''
        | Else \<Rightarrow> ''else'' | End \<Rightarrow> ''end'' | Br _ \<Rightarrow> ''br''
        | BrIf _ \<Rightarrow> ''br_if'' | BrTable _ _ \<Rightarrow> ''br_table''
        | Return \<Rightarrow> ''return'' | Call _ \<Rightarrow> ''call''
        | CallIndirect _ _ \<Rightarrow> ''call_indirect'')
     | Reference i \<Rightarrow> (case i of
          RefNull \<Rightarrow> ''ref.null'' | RefIsNull \<Rightarrow> ''ref.is_null''
        | RefFunc _ \<Rightarrow> ''ref.func'')
     | Parametric i \<Rightarrow> (case i of
          Drop \<Rightarrow> ''drop'' | Select \<Rightarrow> ''select'')
     | Variable i \<Rightarrow> (case i of
          LocalGet _ \<Rightarrow> ''local.get'' | LocalSet _ \<Rightarrow> ''local.set''
        | LocalTee _ \<Rightarrow> ''local.tee'' | GlobalGet _ \<Rightarrow> ''global.get''
        | GlobalSet _ \<Rightarrow> ''global.set'')
     | Table i \<Rightarrow> (case i of
          TableGet _ \<Rightarrow> ''table.get'' | TableSet _ \<Rightarrow> ''table.set''
        | TableInit _ _ \<Rightarrow> ''table.init'' | ElemDrop _ \<Rightarrow> ''elem.drop''
        | TableCopy _ _ \<Rightarrow> ''table.copy'' | TableGrow _ \<Rightarrow> ''table.grow''
        | TableSize _ \<Rightarrow> ''table.size'' | TableFill _ \<Rightarrow> ''table.fill'')
     | Load i \<Rightarrow> (case i of
          I32Load _ _ \<Rightarrow> ''i32.load'' | I64Load _ _ \<Rightarrow> ''i64.load''
        | F32Load _ _ \<Rightarrow> ''f32.load'' | F64Load _ _ \<Rightarrow> ''f64.load''
        | I32Load8S _ _ \<Rightarrow> ''i32.load8_s'' | I32Load8U _ _ \<Rightarrow> ''i32.load8_u''
        | I32Load16S _ _ \<Rightarrow> ''i32.load16_s'' | I32Load16U _ _ \<Rightarrow> ''i32.load16_u''
        | I64Load8S _ _ \<Rightarrow> ''i64.load8_s'' | I64Load8U _ _ \<Rightarrow> ''i64.load8_u''
        | I64Load16S _ _ \<Rightarrow> ''i64.load16_s'' | I64Load16U _ _ \<Rightarrow> ''i64.load16_u''
        | I64Load32S _ _ \<Rightarrow> ''i64.load32_s'' | I64Load32U _ _ \<Rightarrow> ''i64.load32_u'')
     | Store i \<Rightarrow> (case i of
          I32Store _ _ \<Rightarrow> ''i32.store'' | I64Store _ _ \<Rightarrow> ''i64.store''
        | F32Store _ _ \<Rightarrow> ''f32.store'' | F64Store _ _ \<Rightarrow> ''f64.store''
        | I32Store8 _ _ \<Rightarrow> ''i32.store8'' | I32Store16 _ _ \<Rightarrow> ''i32.store16''
        | I64Store8 _ _ \<Rightarrow> ''i64.store8'' | I64Store16 _ _ \<Rightarrow> ''i64.store16''
        | I64Store32 _ _ \<Rightarrow> ''i64.store32'')
     | Memory i \<Rightarrow> (case i of
          MemorySize \<Rightarrow> ''memory.size'' | MemoryGrow \<Rightarrow> ''memory.grow''
        | MemoryInit _ \<Rightarrow> ''memory.init'' | DataDrop _ \<Rightarrow> ''data.drop''
        | MemoryCopy \<Rightarrow> ''memory.copy'' | MemoryFill \<Rightarrow> ''memory.fill'')
     | Const i \<Rightarrow> (case i of
          I32Const _ \<Rightarrow> ''i32.const'' | I64Const _ \<Rightarrow> ''i64.const''
        | F32Const _ \<Rightarrow> ''f32.const'' | F64Const _ \<Rightarrow> ''f64.const'')
     | I32Comparison i \<Rightarrow> (case i of
          I32Eqz \<Rightarrow> ''i32.eqz'' | I32Eq \<Rightarrow> ''i32.eq''
        | I32Ne \<Rightarrow> ''i32.ne'' | I32LtS \<Rightarrow> ''i32.lt_s''
        | I32LtU \<Rightarrow> ''i32.lt_u'' | I32GtS \<Rightarrow> ''i32.gt_s''
        | I32GtU \<Rightarrow> ''i32.gt_u'' | I32LeS \<Rightarrow> ''i32.le_s''
        | I32LeU \<Rightarrow> ''i32.le_u'' | I32GeS \<Rightarrow> ''i32.ge_s''
        | I32GeU \<Rightarrow> ''i32.ge_u'')
     | I64Comparison i \<Rightarrow> (case i of
          I64Eqz \<Rightarrow> ''i64.eqz'' | I64Eq \<Rightarrow> ''i64.eq''
        | I64Ne \<Rightarrow> ''i64.ne'' | I64LtS \<Rightarrow> ''i64.lt_s''
        | I64LtU \<Rightarrow> ''i64.lt_u'' | I64GtS \<Rightarrow> ''i64.gt_s''
        | I64GtU \<Rightarrow> ''i64.gt_u'' | I64LeS \<Rightarrow> ''i64.le_s''
        | I64LeU \<Rightarrow> ''i64.le_u'' | I64GeS \<Rightarrow> ''i64.ge_s''
        | I64GeU \<Rightarrow> ''i64.ge_u'')
     | F32Comparison i \<Rightarrow> (case i of
          F32Eq \<Rightarrow> ''f32.eq'' | F32Ne \<Rightarrow> ''f32.ne''
        | F32Lt \<Rightarrow> ''f32.lt'' | F32Gt \<Rightarrow> ''f32.gt''
        | F32Le \<Rightarrow> ''f32.le'' | F32Ge \<Rightarrow> ''f32.ge'')
     | F64Comparison i \<Rightarrow> (case i of
          F64Eq \<Rightarrow> ''f64.eq'' | F64Ne \<Rightarrow> ''f64.ne''
        | F64Lt \<Rightarrow> ''f64.lt'' | F64Gt \<Rightarrow> ''f64.gt''
        | F64Le \<Rightarrow> ''f64.le'' | F64Ge \<Rightarrow> ''f64.ge'')
     | I32Arithmetic i \<Rightarrow> (case i of
          I32Clz \<Rightarrow> ''i32.clz'' | I32Ctz \<Rightarrow> ''i32.ctz''
        | I32Popcnt \<Rightarrow> ''i32.popcnt'' | I32Add \<Rightarrow> ''i32.add''
        | I32Sub \<Rightarrow> ''i32.sub'' | I32Mul \<Rightarrow> ''i32.mul''
        | I32DivS \<Rightarrow> ''i32.div_s'' | I32DivU \<Rightarrow> ''i32.div_u''
        | I32RemS \<Rightarrow> ''i32.rem_s'' | I32RemU \<Rightarrow> ''i32.rem_u''
        | I32And \<Rightarrow> ''i32.and'' | I32Or \<Rightarrow> ''i32.or''
        | I32Xor \<Rightarrow> ''i32.xor'' | I32Shl \<Rightarrow> ''i32.shl''
        | I32ShrS \<Rightarrow> ''i32.shr_s'' | I32ShrU \<Rightarrow> ''i32.shr_u''
        | I32Rotl \<Rightarrow> ''i32.rotl'' | I32Rotr \<Rightarrow> ''i32.rotr'')
     | I64Arithmetic i \<Rightarrow> (case i of
          I64Clz \<Rightarrow> ''i64.clz'' | I64Ctz \<Rightarrow> ''i64.ctz''
        | I64Popcnt \<Rightarrow> ''i64.popcnt'' | I64Add \<Rightarrow> ''i64.add''
        | I64Sub \<Rightarrow> ''i64.sub'' | I64Mul \<Rightarrow> ''i64.mul''
        | I64DivS \<Rightarrow> ''i64.div_s'' | I64DivU \<Rightarrow> ''i64.div_u''
        | I64RemS \<Rightarrow> ''i64.rem_s'' | I64RemU \<Rightarrow> ''i64.rem_u''
        | I64And \<Rightarrow> ''i64.and'' | I64Or \<Rightarrow> ''i64.or''
        | I64Xor \<Rightarrow> ''i64.xor'' | I64Shl \<Rightarrow> ''i64.shl''
        | I64ShrS \<Rightarrow> ''i64.shr_s'' | I64ShrU \<Rightarrow> ''i64.shr_u''
        | I64Rotl \<Rightarrow> ''i64.rotl'' | I64Rotr \<Rightarrow> ''i64.rotr'')
     | F32Arithmetic i \<Rightarrow> (case i of
          F32Abs \<Rightarrow> ''f32.abs'' | F32Neg \<Rightarrow> ''f32.neg''
        | F32Ceil \<Rightarrow> ''f32.ceil'' | F32Floor \<Rightarrow> ''f32.floor''
        | F32Trunc \<Rightarrow> ''f32.trunc'' | F32Nearest \<Rightarrow> ''f32.nearest''
        | F32Sqrt \<Rightarrow> ''f32.sqrt'' | F32Add \<Rightarrow> ''f32.add''
        | F32Sub \<Rightarrow> ''f32.sub'' | F32Mul \<Rightarrow> ''f32.mul''
        | F32Div \<Rightarrow> ''f32.div'' | F32Min \<Rightarrow> ''f32.min''
        | F32Max \<Rightarrow> ''f32.max'' | F32Copysign \<Rightarrow> ''f32.copysign'')
     | F64Arithmetic i \<Rightarrow> (case i of
          F64Abs \<Rightarrow> ''f64.abs'' | F64Neg \<Rightarrow> ''f64.neg''
        | F64Ceil \<Rightarrow> ''f64.ceil'' | F64Floor \<Rightarrow> ''f64.floor''
        | F64Trunc \<Rightarrow> ''f64.trunc'' | F64Nearest \<Rightarrow> ''f64.nearest''
        | F64Sqrt \<Rightarrow> ''f64.sqrt'' | F64Add \<Rightarrow> ''f64.add''
        | F64Sub \<Rightarrow> ''f64.sub'' | F64Mul \<Rightarrow> ''f64.mul''
        | F64Div \<Rightarrow> ''f64.div'' | F64Min \<Rightarrow> ''f64.min''
        | F64Max \<Rightarrow> ''f64.max'' | F64Copysign \<Rightarrow> ''f64.copysign'')
     | Conversion i \<Rightarrow> (case i of
          I32WrapI64 \<Rightarrow> ''i32.wrap_i64'' | I32TruncF32S \<Rightarrow> ''i32.trunc_f32_s''
        | I32TruncF32U \<Rightarrow> ''i32.trunc_f32_u''
        | I32TruncF64S \<Rightarrow> ''i32.trunc_f64_s''
        | I32TruncF64U \<Rightarrow> ''i32.trunc_f64_u''
        | I64ExtendI32S \<Rightarrow> ''i64.extend_i32_s''
        | I64ExtendI32U \<Rightarrow> ''i64.extend_i32_u''
        | I64TruncF32S \<Rightarrow> ''i64.trunc_f32_s''
        | I64TruncF32U \<Rightarrow> ''i64.trunc_f32_u''
        | I64TruncF64S \<Rightarrow> ''i64.trunc_f64_s''
        | I64TruncF64U \<Rightarrow> ''i64.trunc_f64_u''
        | F32ConvertI32S \<Rightarrow> ''f32.convert_i32_s''
        | F32ConvertI32U \<Rightarrow> ''f32.convert_i32_u''
        | F32ConvertI64S \<Rightarrow> ''f32.convert_i64_s''
        | F32ConvertI64U \<Rightarrow> ''f32.convert_i64_u''
        | F32DemoteF64 \<Rightarrow> ''f32.demote_f64''
        | F64ConvertI32S \<Rightarrow> ''f64.convert_i32_s''
        | F64ConvertI32U \<Rightarrow> ''f64.convert_i32_u''
        | F64ConvertI64S \<Rightarrow> ''f64.convert_i64_s''
        | F64ConvertI64U \<Rightarrow> ''f64.convert_i64_u''
        | F64PromoteF32 \<Rightarrow> ''f64.promote_f32'')
     | Reinterpretation i \<Rightarrow> (case i of
          I32ReinterpretF32 \<Rightarrow> ''i32.reinterpret_f32''
        | I64ReinterpretF64 \<Rightarrow> ''i64.reinterpret_f64''
        | F32ReinterpretI32 \<Rightarrow> ''f32.reinterpret_i32''
        | F64ReinterpretI64 \<Rightarrow> ''f64.reinterpret_i64'')
     | SignExtension i \<Rightarrow> (case i of
          I32Extend8S \<Rightarrow> ''i32.extend8_s'' | I32Extend16S \<Rightarrow> ''i32.extend16_s''
        | I64Extend8S \<Rightarrow> ''i64.extend8_s'' | I64Extend16S \<Rightarrow> ''i64.extend16_s''
        | I64Extend32S \<Rightarrow> ''i64.extend32_s'')
     | SaturatingTruncation i \<Rightarrow> (case i of
          I32TruncSatF32S \<Rightarrow> ''i32.trunc_sat_f32_s''
        | I32TruncSatF32U \<Rightarrow> ''i32.trunc_sat_f32_u''
        | I32TruncSatF64S \<Rightarrow> ''i32.trunc_sat_f64_s''
        | I32TruncSatF64U \<Rightarrow> ''i32.trunc_sat_f64_u''
        | I64TruncSatF32S \<Rightarrow> ''i64.trunc_sat_f32_s''
        | I64TruncSatF32U \<Rightarrow> ''i64.trunc_sat_f32_u''
        | I64TruncSatF64S \<Rightarrow> ''i64.trunc_sat_f64_s''
        | I64TruncSatF64U \<Rightarrow> ''i64.trunc_sat_f64_u''))"

section \<open>Signatures\<close>

text \<open>
  The operands and results of the instructions that have a fixed number of them, top of the
  stack first; \<open>None\<close> stands for a value of any type.
\<close>

type_synonym signature = "value_type option list \<times> value_type option list"

abbreviation unop :: "value_type \<Rightarrow> value_type \<Rightarrow> signature" where
  "unop t r \<equiv> ([Some t], [Some r])"

abbreviation binop :: "value_type \<Rightarrow> value_type \<Rightarrow> signature" where
  "binop t r \<equiv> ([Some t, Some t], [Some r])"

fun conversion_signature :: "conversion \<Rightarrow> signature" where
  "conversion_signature I32WrapI64 = unop TI64 TI32"
| "conversion_signature I32TruncF32S = unop TF32 TI32"
| "conversion_signature I32TruncF32U = unop TF32 TI32"
| "conversion_signature I32TruncF64S = unop TF64 TI32"
| "conversion_signature I32TruncF64U = unop TF64 TI32"
| "conversion_signature I64ExtendI32S = unop TI32 TI64"
| "conversion_signature I64ExtendI32U = unop TI32 TI64"
| "conversion_signature I64TruncF32S = unop TF32 TI64"
| "conversion_signature I64TruncF32U = unop TF32 TI64"
| "conversion_signature I64TruncF64S = unop TF64 TI64"
| "conversion_signature I64TruncF64U = unop TF64 TI64"
| "conversion_signature F32ConvertI32S = unop TI32 TF32"
| "conversion_signature F32ConvertI32U = unop TI32 TF32"
| "conversion_signature F32ConvertI64S = unop TI64 TF32"
| "conversion_signature F32ConvertI64U = unop TI64 TF32"
| "conversion_signature F32DemoteF64 = unop TF64 TF32"
| "conversion_signature F64ConvertI32S = unop TI32 TF64"
| "conversion_signature F64ConvertI32U = unop TI32 TF64"
| "conversion_signature F64ConvertI64S = unop TI64 TF64"
| "conversion_signature F64ConvertI64U = unop TI64 TF64"
| "conversion_signature F64PromoteF32 = unop TF32 TF64"

fun load_type :: "load_instr \<Rightarrow> value_type" where
  "load_type (I32Load _ _) = TI32" | "load_type (I64Load _ _) = TI64"
| "load_type (F32Load _ _) = TF32" | "load_type (F64Load _ _) = TF64"
| "load_type (I32Load8S _ _) = TI32" | "load_type (I32Load8U _ _) = TI32"
| "load_type (I32Load16S _ _) = TI32" | "load_type (I32Load16U _ _) = TI32"
| "load_type (I64Load8S _ _) = TI64" | "load_type (I64Load8U _ _) = TI64"
| "load_type (I64Load16S _ _) = TI64" | "load_type (I64Load16U _ _) = TI64"
| "load_type (I64Load32S _ _) = TI64" | "load_type (I64Load32U _ _) = TI64"

fun store_type :: "store_instr \<Rightarrow> value_type" where
  "store_type (I32Store _ _) = TI32" | "store_type (I64Store _ _) = TI64"
| "store_type (F32Store _ _) = TF32" | "store_type (F64Store _ _) = TF64"
| "store_type (I32Store8 _ _) = TI32" | "store_type (I32Store16 _ _) = TI32"
| "store_type (I64Store8 _ _) = TI64" | "store_type (I64Store16 _ _) = TI64"
| "store_type (I64Store32 _ _) = TI64"

fun table_signature :: "table_instr \<Rightarrow> signature" where
  "table_signature (TableGet _) = ([Some TI32], [Some TFuncRef])"
| "table_signature (TableSet _) = ([None, Some TI32], [])"
| "table_signature (TableInit _ _) = ([Some TI32, Some TI32, Some TI32], [])"
| "table_signature (ElemDrop _) = ([], [])"
| "table_signature (TableCopy _ _) = ([Some TI32, Some TI32, Some TI32], [])"
| "table_signature (TableGrow _) = ([Some TI32, None], [Some TI32])"
| "table_signature (TableSize _) = ([], [Some TI32])"
| "table_signature (TableFill _) = ([Some TI32, None, Some TI32], [])"

fun memory_signature :: "memory_instr \<Rightarrow> signature" where
  "memory_signature MemorySize = ([], [Some TI32])"
| "memory_signature MemoryGrow = ([Some TI32], [Some TI32])"
| "memory_signature (MemoryInit _) = ([Some TI32, Some TI32, Some TI32], [])"
| "memory_signature (DataDrop _) = ([], [])"
| "memory_signature MemoryCopy = ([Some TI32, Some TI32, Some TI32], [])"
| "memory_signature MemoryFill = ([Some TI32, Some TI32, Some TI32], [])"

fun const_type :: "const_instr \<Rightarrow> value_type" where
  "const_type (I32Const _) = TI32" | "const_type (I64Const _) = TI64"
| "const_type (F32Const _) = TF32" | "const_type (F64Const _) = TF64"

definition signature :: "instruction \<Rightarrow> signature option" where
  "signature instr = (case instr of
       Control i \<Rightarrow> (case i of Nop \<Rightarrow> Some ([], []) | _ \<Rightarrow> None)
     | Reference i \<Rightarrow> Some (case i of RefNull \<Rightarrow> ([], [Some TFuncRef]) | RefIsNull \<Rightarrow> ([None], [Some TI32])
         | RefFunc _ \<Rightarrow> ([], [Some TFuncRef]))
     | Parametric i \<Rightarrow> Some (case i of Drop \<Rightarrow> ([None], []) | Select \<Rightarrow> ([Some TI32, None, None], [None]))
     | Variable _ \<Rightarrow> None
     | Table i \<Rightarrow> Some (table_signature i)
     | Load i \<Rightarrow> Some (unop TI32 (load_type i))
     | Store i \<Rightarrow> Some ([Some (store_type i), Some TI32], [])
     | Memory i \<Rightarrow> Some (memory_signature i)
     | Const i \<Rightarrow> Some ([], [Some (const_type i)])
     | I32Comparison i \<Rightarrow> Some (if i = I32Eqz then unop TI32 TI32 else binop TI32 TI32)
     | I64Comparison i \<Rightarrow> Some (if i = I64Eqz then unop TI64 TI32 else binop TI64 TI32)
     | F32Comparison _ \<Rightarrow> Some (binop TF32 TI32)
     | F64Comparison _ \<Rightarrow> Some (binop TF64 TI32)
     | I32Arithmetic i \<Rightarrow> Some (if i \<in> {I32Clz, I32Ctz, I32Popcnt} then unop TI32 TI32 else binop TI32 TI32)
     | I64Arithmetic i \<Rightarrow> Some (if i \<in> {I64Clz, I64Ctz, I64Popcnt} then unop TI64 TI64 else binop TI64 TI64)
     | F32Arithmetic i \<Rightarrow> Some (if i \<in> {F32Abs, F32Neg, F32Ceil, F32Floor, F32Trunc, F32Nearest, F32Sqrt}
         then unop TF32 TF32 else binop TF32 TF32)
     | F64Arithmetic i \<Rightarrow> Some (if i \<in> {F64Abs, F64Neg, F64Ceil, F64Floor, F64Trunc, F64Nearest, F64Sqrt}
         then unop TF64 TF64 else binop TF64 TF64)
     | Conversion i \<Rightarrow> Some (conversion_signature i)
     | Reinterpretation i \<Rightarrow> Some (case i of I32ReinterpretF32 \<Rightarrow> unop TF32 TI32 | I64ReinterpretF64 \<Rightarrow> unop TF64 TI64
         | F32ReinterpretI32 \<Rightarrow> unop TI32 TF32 | F64ReinterpretI64 \<Rightarrow> unop TI64 TF64)
     | SignExtension i \<Rightarrow> Some (if i \<in> {I32Extend8S, I32Extend16S} then unop TI32 TI32 else unop TI64 TI64)
     | SaturatingTruncation i \<Rightarrow> Some (case i of
         I32TruncSatF32S \<Rightarrow> unop TF32 TI32 | I32TruncSatF32U \<Rightarrow> unop TF32 TI32
       | I32TruncSatF64S \<Rightarrow> unop TF64 TI32 | I32TruncSatF64U \<Rightarrow> unop TF64 TI32
       | I64TruncSatF32S \<Rightarrow> unop TF32 TI64 | I64TruncSatF32U \<Rightarrow> unop TF32 TI64
       | I64TruncSatF64S \<Rightarrow> unop TF64 TI64 | I64TruncSatF64U \<Rightarrow> unop TF64 TI64))"

lemma signature_counts:
  assumes "signature i = Some (ps, rs)"
  shows "stack_pop_count i = Some (length ps)" and "stack_push_count i = Some (length rs)"
  using assms
  by (auto simp: signature_def stack_pop_count_def stack_push_count_def
      split: instruction.splits control_instr.splits reference_instr.splits parametric_instr.splits
        i32_comparison.splits i64_comparison.splits i32_arithmetic.splits i64_arithmetic.splits
        f32_arithmetic.splits f64_arithmetic.splits reinterpretation.splits
        saturating_truncation.splits if_splits elim!: table_signature.elims memory_signature.elims conversion_signature.elims)

text \<open>The mnemonic of a numeric instruction other than a comparison starts with the type of its result.\<close>

fun type_name :: "value_type \<Rightarrow> string" where
  "type_name TI32 = ''i32''" | "type_name TI64 = ''i64''" | "type_name TF32 = ''f32''" | "type_name TF64 = ''f64''"
| "type_name TV128 = ''v128''" | "type_name TFuncRef = ''funcref''" | "type_name TExternRef = ''externref''"

lemma mnemonic_prefix:
  assumes "signature i = Some (ps, [Some t])"
    and "case i of Load _ \<Rightarrow> True | Const _ \<Rightarrow> True | I32Arithmetic _ \<Rightarrow> True | I64Arithmetic _ \<Rightarrow> True
      | F32Arithmetic _ \<Rightarrow> True | F64Arithmetic _ \<Rightarrow> True | Conversion _ \<Rightarrow> True | Reinterpretation _ \<Rightarrow> True
      | SignExtension _ \<Rightarrow> True | SaturatingTruncation _ \<Rightarrow> True | _ \<Rightarrow> False"
  shows "take 3 (instruction_name i) = type_name t"
proof (cases i)
  case (Load a) then show ?thesis using assms(1) by (cases a) (simp_all add: signature_def instruction_name_def)
next
  case (Const a) then show ?thesis using assms(1) by (cases a) (simp_all add: signature_def instruction_name_def)
next
  case (I32Arithmetic a) then show ?thesis using assms(1) by (cases a) (simp_all add: signature_def instruction_name_def)
next
  case (I64Arithmetic a) then show ?thesis using assms(1) by (cases a) (simp_all add: signature_def instruction_name_def)
next
  case (F32Arithmetic a) then show ?thesis using assms(1) by (cases a) (simp_all add: signature_def instruction_name_def)
next
  case (F64Arithmetic a) then show ?thesis using assms(1) by (cases a) (simp_all add: signature_def instruction_name_def)
next
  case (Conversion a) then show ?thesis using assms(1) by (cases a) (simp_all add: signature_def instruction_name_def)
next
  case (Reinterpretation a) then show ?thesis using assms(1) by (cases a) (simp_all add: signature_def instruction_name_def)
next
  case (SignExtension a) then show ?thesis using assms(1) by (cases a) (simp_all add: signature_def instruction_name_def)
next
  case (SaturatingTruncation a) then show ?thesis using assms(1) by (cases a) (simp_all add: signature_def instruction_name_def)
qed (use assms(2) in simp_all)

section \<open>Runs that follow a signature\<close>

text \<open>The stack starts with values of the given types.\<close>

fun fits :: "value_type option list \<Rightarrow> wasm_value list \<Rightarrow> bool" where
  "fits [] vs = True"
| "fits (p # ps) [] = False"
| "fits (p # ps) (v # vs) = ((p = None \<or> p = Some (value_type_of v)) \<and> fits ps vs)"

text \<open>The errors that well-typed code never ends with.\<close>

definition type_error :: "trap_error \<Rightarrow> bool" where
  "type_error e = (case e of StackUnderflow \<Rightarrow> True | TypeMismatch _ _ \<Rightarrow> True
     | ExecutionError msg \<Rightarrow> msg = ''local index OOB'' \<or> msg = ''global index OOB'' | _ \<Rightarrow> False)"

text \<open>
  \<open>sg f pn ps rs m\<close>: on the stack that \<open>f\<close> reads off the state, \<open>m\<close> replaces operands \<open>ps\<close> by
  results \<open>rs\<close> and leaves what is below; it fails with a type error only when the operands
  are not there, with an underflow only when there are too few values, and panics only if
  \<open>pn\<close>.
\<close>

definition sg :: "('s \<Rightarrow> wasm_value list) \<Rightarrow> bool \<Rightarrow> value_type option list \<Rightarrow> value_type option list
    \<Rightarrow> ('s, trap_error, 'a) st \<Rightarrow> bool" where
  "sg f pn ps rs m \<longleftrightarrow> (\<forall>s. case m s of
     (Ok _, s') \<Rightarrow> fits ps (f s) \<and> fits rs (f s') \<and> drop (length rs) (f s') = drop (length ps) (f s)
   | (Err e, s') \<Rightarrow> (type_error e \<longrightarrow> \<not> fits ps (f s)) \<and> (e = StackUnderflow \<longrightarrow> length (f s) < length ps)
   | (Panic, s') \<Rightarrow> pn)"

text \<open>Operations away from the stack.\<close>

definition mild_result :: "bool \<Rightarrow> (trap_error, 'a) result \<Rightarrow> bool" where
  "mild_result pn r = (case r of Ok _ \<Rightarrow> True | Err e \<Rightarrow> \<not> type_error e | Panic \<Rightarrow> pn)"

definition mild :: "bool \<Rightarrow> ('s, trap_error, 'a) st \<Rightarrow> bool" where
  "mild pn m \<longleftrightarrow> (\<forall>s. mild_result pn (fst (m s)))"

named_theorems sgs
named_theorems milds

lemma fits_append: "fits (ps @ qs) vs \<longleftrightarrow> fits ps vs \<and> fits qs (drop (length ps) vs)"
  by (induction ps vs rule: fits.induct) auto

lemma fits_length: "fits ps vs \<Longrightarrow> length ps \<le> length vs"
  by (induction ps vs rule: fits.induct) auto

lemma type_error_simps [simp]:
  "type_error StackUnderflow" "type_error (TypeMismatch x t)" "\<not> type_error StackOverflow"
  "\<not> type_error DivisionByZero" "\<not> type_error IntegerOverflow" "\<not> type_error InvalidConversionToInteger"
  "\<not> type_error (MemoryOutOfBounds a b c)" "\<not> type_error (UndefinedElement i)" "\<not> type_error FuelExhausted"
  "type_error (ExecutionError msg) \<longleftrightarrow> msg = ''local index OOB'' \<or> msg = ''global index OOB''"
  by (simp_all add: type_error_def)

lemma mild_result_simps [simp]:
  "mild_result pn (Ok a)" "mild_result pn (Err e) \<longleftrightarrow> \<not> type_error e" "mild_result pn Panic \<longleftrightarrow> pn"
  by (simp_all add: mild_result_def)

lemma mild_case: "mild pn m \<Longrightarrow> m s = (r, s') \<Longrightarrow> mild_result pn r"
  by (metis mild_def fst_conv)

lemma sg_bind:
  assumes m: "sg f pn us [] m" and k: "\<And>a. sg f pn ps rs (k a)"
  shows "sg f pn (us @ ps) rs (bind m k)"
  unfolding sg_def
proof
  fix s
  show "case bind m k s of
     (Ok _, s') \<Rightarrow> fits (us @ ps) (f s) \<and> fits rs (f s') \<and> drop (length rs) (f s') = drop (length (us @ ps)) (f s)
   | (Err e, s') \<Rightarrow> (type_error e \<longrightarrow> \<not> fits (us @ ps) (f s)) \<and> (e = StackUnderflow \<longrightarrow> length (f s) < length (us @ ps))
   | (Panic, s') \<Rightarrow> pn"
  proof (cases "m s")
    case (Pair r s1)
    show ?thesis
    proof (cases r)
      case (Ok a)
      with m Pair have 1: "fits us (f s)" "f s1 = drop (length us) (f s)"
        by (auto simp: sg_def split: prod.splits dest: spec [of _ s])
      have "case k a s1 of (Ok _, s') \<Rightarrow> fits ps (f s1) \<and> fits rs (f s') \<and> drop (length rs) (f s') = drop (length ps) (f s1)
       | (Err e, s') \<Rightarrow> (type_error e \<longrightarrow> \<not> fits ps (f s1)) \<and> (e = StackUnderflow \<longrightarrow> length (f s1) < length ps)
       | (Panic, s') \<Rightarrow> pn"
        using k [of a] by (simp add: sg_def)
      then show ?thesis
        using Ok Pair 1 fits_length [OF 1(1)]
        by (auto simp: bind_def fits_append add.commute split: prod.splits result.splits)
    next
      case (Err e)
      with m Pair show ?thesis
        by (auto simp: sg_def bind_def fits_append split: prod.splits dest: spec [of _ s])
    next
      case Panic
      with m Pair show ?thesis by (auto simp: sg_def bind_def split: prod.splits dest: spec [of _ s])
    qed
  qed
qed

lemmas sg_bind_one = sg_bind [where us = "[u]" for u, simplified]
lemmas sg_bind_none = sg_bind [where us = "[]", simplified]

lemma sg_seq [sgs]: "sg f pn ps [] m \<Longrightarrow> sg f pn [] [] k \<Longrightarrow> sg f pn ps [] (seq m k)"
  unfolding seq_def using sg_bind [of f pn ps m "[]" "[]" "\<lambda>_. k"] by simp

lemma sg_continue: "sg f pn ps rs m \<Longrightarrow> sg f pn ps rs (seq m (ret a))"
  by (fastforce simp: sg_def seq_def bind_def ret_def split: prod.splits result.splits)

lemma sg_ret [sgs]: "sg f pn [] [] (ret a)"
  by (simp add: sg_def ret_def)

lemma sg_throw [sgs]: "\<not> type_error e \<Longrightarrow> sg f pn ps rs (throw e)"
  by (auto simp: sg_def throw_def)

lemma sg_if [sgs]: "(b \<Longrightarrow> sg f pn ps rs m) \<Longrightarrow> (\<not> b \<Longrightarrow> sg f pn ps rs n) \<Longrightarrow> sg f pn ps rs (if b then m else n)"
  by simp

lemma sg_gets [sgs]: "(\<And>a. sg f pn ps rs (k a)) \<Longrightarrow> sg f pn ps rs (bind (gets g) k)"
  by (rule sg_bind_none) (simp add: sg_def gets_def)

lemma sg_lift [sgs]: "mild_result pn r \<Longrightarrow> (\<And>a. r = Ok a \<Longrightarrow> sg f pn ps rs (k a)) \<Longrightarrow> sg f pn ps rs (bind (lift r) k)"
  by (cases r) (auto simp: sg_def bind_def lift_def)

subsection \<open>The value stack\<close>

abbreviation sgv :: "bool \<Rightarrow> value_type option list \<Rightarrow> value_type option list \<Rightarrow> (value_stack, trap_error, 'a) st \<Rightarrow> bool" where
  "sgv \<equiv> sg vs_values"

abbreviation machine_values :: "'h machine \<Rightarrow> wasm_value list" where
  "machine_values s \<equiv> vs_values (mc_stack s)"

abbreviation sgm :: "bool \<Rightarrow> value_type option list \<Rightarrow> value_type option list \<Rightarrow> ('h machine, trap_error, 'a) st \<Rightarrow> bool" where
  "sgm \<equiv> sg machine_values"

lemma sg_vs_pop: "sgv pn [None] [] vs_pop"
  by (auto simp: sg_def vs_pop_def split: list.splits)

lemma sg_vs_pop_typed:
  "sgv pn [Some TI32] [] vs_pop_i32" "sgv pn [Some TI64] [] vs_pop_i64"
  "sgv pn [Some TF32] [] vs_pop_f32" "sgv pn [Some TF64] [] vs_pop_f64"
  by (auto simp: sg_def vs_pop_i32_def vs_pop_i64_def vs_pop_f32_def vs_pop_f64_def vs_pop_def bind_def ret_def throw_def
      split: list.splits wasm_value.splits)

lemma sg_vs_push [sgs]: "p = None \<or> p = Some (value_type_of v) \<Longrightarrow> sgv pn [] [p] (vs_push v)"
  by (auto simp: sg_def vs_push_def)

lemma sg_on_stack: "sgv pn ps rs m \<Longrightarrow> sgm pn ps rs (on_stack m)"
  by (auto simp: sg_def on_stack_def split: prod.splits result.splits)

lemmas sg_pops = sg_vs_pop sg_vs_pop_typed sg_vs_pop [THEN sg_on_stack] sg_vs_pop_typed [THEN sg_on_stack]

lemmas sg_bind_pops [sgs] = sg_pops [THEN sg_bind_one]

lemmas sg_machine_push [sgs] = sg_vs_push [THEN sg_on_stack]

subsection \<open>The context\<close>

lemma sg_on_ctx: "mild pn m \<Longrightarrow> sgm pn [] [] (on_ctx m)"
  by (auto simp: sg_def on_ctx_def split: prod.splits result.splits dest: mild_case)

lemma sg_bind_ctx [sgs]: "mild pn m \<Longrightarrow> (\<And>a. sgm pn ps rs (k a)) \<Longrightarrow> sgm pn ps rs (bind (on_ctx m) k)"
  by (rule sg_bind_none [OF sg_on_ctx])

lemma mild_bind [milds]: "mild pn m \<Longrightarrow> (\<And>a. mild pn (k a)) \<Longrightarrow> mild pn (bind m k)"
  by (auto simp: mild_def bind_def split: prod.split result.split) (metis fst_conv mild_result_simps(2,3))+

lemma mild_basic [milds]: "mild pn (ret a)" "mild pn (gets f)" "mild pn (modify g)"
  "\<not> type_error e \<Longrightarrow> mild pn (throw e)" "mild_result pn r \<Longrightarrow> mild pn (lift r)"
  by (simp_all add: mild_def throw_def lift_def)

lemma mild_if [milds]: "(b \<Longrightarrow> mild pn m) \<Longrightarrow> (\<not> b \<Longrightarrow> mild pn n) \<Longrightarrow> mild pn (if b then m else n)"
  by simp

lemma mild_for_each [milds]: "(\<And>x. mild pn (f x)) \<Longrightarrow> mild pn (for_each xs f)"
  by (induction xs) (auto intro!: milds simp: seq_def)

lemma mild_case_prod [milds]: "(\<And>a b. mild pn (f a b)) \<Longrightarrow> mild pn (case x of (a, b) \<Rightarrow> f a b)"
  by (cases x) simp

lemma mild_result_ok_or [milds]: "\<not> type_error e \<Longrightarrow> mild_result pn (ok_or e x)"
  by (cases x) simp_all

lemma mild_with_table [milds]: "mild pn m \<Longrightarrow> mild pn (with_table i m)"
  unfolding with_table_def
  by (intro milds) (auto simp: mild_def [of pn "on_tables _"] on_tables_def on_nth_def split: prod.splits dest: mild_case)

lemma mild_with_memory [milds]: "\<not> type_error e \<Longrightarrow> mild pn m \<Longrightarrow> mild pn (with_memory i e m)"
  unfolding with_memory_def
  by (intro milds) (auto simp: mild_def [of pn "on_memories _"] on_memories_def on_nth_def split: prod.splits dest: mild_case)

lemma mild_add_u32 [milds]: "mild True (add_u32 a b)"
  by (auto simp: mild_def add_u32_def panic_def ret_def split: option.splits)

lemma mild_tables [milds]:
  "mild pn (table_set i v)" "mild pn (table_get_st i)" "mild pn (table_grow_or_minus1 n r)"
  by (auto simp: mild_def table_set_def table_get_st_def table_get_def table_grow_or_minus1_def
      table_grow_def Let_def split: option.splits intro!: mild_result_ok_or)

lemma mild_table_moves [milds]: "mild True (table_move d s i)" "mild True (table_read_range s is)"
  subgoal unfolding table_move_def by (intro milds)
  subgoal by (induction "is") (simp_all only: table_read_range.simps milds)
  done

lemma mild_map_error [milds]:
  assumes "\<And>e s. \<not> type_error (g e s)" and "\<And>s. fst (m s) \<noteq> Panic"
  shows "mild pn (map_error g m)"
proof -
  have "mild_result pn (map_err (\<lambda>e. g e s') r)" if "m s = (r, s')" for s r s'
    using assms(1) assms(2) [of s] that by (cases r) simp_all
  then show ?thesis by (simp add: mild_def map_error_def split: prod.split)
qed

section \<open>Every instruction follows its signature\<close>

definition typed_result :: "value_type \<Rightarrow> (trap_error, wasm_value) result \<Rightarrow> bool" where
  "typed_result t r \<longleftrightarrow> (case r of Ok v \<Rightarrow> value_type_of v = t | Err e \<Rightarrow> \<not> type_error e | Panic \<Rightarrow> False)"

lemma typed_result_simps [simp]:
  "typed_result t (Ok v) \<longleftrightarrow> value_type_of v = t"
  "typed_result t (cmp r a b) \<longleftrightarrow> t = TI32"
  by (auto simp: typed_result_def cmp_def bool_i32_def)

lemma typed_result_int [simp]:
  assumes "\<And>x. value_type_of (w x) = t"
  shows "typed_result t (wrap_result w (int_div_s a b))" "typed_result t (wrap_result w (int_div_u a b))"
    "typed_result t (wrap_result w (int_rem_s a b))" "typed_result t (wrap_result w (int_rem_u a b))"
  using assms
  by (simp_all add: typed_result_def wrap_result_def int_div_s_def int_div_u_def int_rem_s_def int_rem_u_def)

lemma value_type_of_bool [simp]: "value_type_of (bool_i32 b) = TI32"
  by (simp add: bool_i32_def)

lemma sg_push_result:
  assumes "typed_result t r"
  shows "sgv pn [] [Some t] (bind (lift r) vs_push)"
  using assms by (cases r) (auto simp: typed_result_def intro!: sgs)

lemma sg_un:
  "(\<And>a. value_type_of (g a) = t) \<Longrightarrow> sgv pn [Some TI32] [Some t] (i32_un g)"
  "(\<And>a. value_type_of (h a) = t) \<Longrightarrow> sgv pn [Some TI64] [Some t] (i64_un h)"
  "(\<And>a. value_type_of (f a) = t) \<Longrightarrow> sgv pn [Some TF32] [Some t] (f32_un f)"
  "(\<And>a. value_type_of (d a) = t) \<Longrightarrow> sgv pn [Some TF64] [Some t] (f64_un d)"
  by (auto simp: i32_un_def i64_un_def f32_un_def f64_un_def intro!: sgs)

lemma sg_bin:
  "(\<And>a b. typed_result t (g a b)) \<Longrightarrow> sgv pn [Some TI32, Some TI32] [Some t] (i32_bin g)"
  "(\<And>a b. typed_result t (h a b)) \<Longrightarrow> sgv pn [Some TI64, Some TI64] [Some t] (i64_bin h)"
  "(\<And>a b. value_type_of (f a b) = t) \<Longrightarrow> sgv pn [Some TF32, Some TF32] [Some t] (f32_bin f)"
  "(\<And>a b. value_type_of (d a b) = t) \<Longrightarrow> sgv pn [Some TF64, Some TF64] [Some t] (f64_bin d)"
  by (auto simp: i32_bin_def i64_bin_def f32_bin_def f64_bin_def intro!: sg_bind_pops sg_push_result sg_vs_push)

lemma sg_trunc_trap:
  "(\<And>a. value_type_of (f a) = t) \<Longrightarrow> sgv pn [Some TF32] [Some t] (f32_trunc_trap out f)"
  "(\<And>a. value_type_of (d a) = t) \<Longrightarrow> sgv pn [Some TF64] [Some t] (f64_trunc_trap out' d)"
  by (auto simp: f32_trunc_trap_def f64_trunc_trap_def intro!: sgs)

lemmas sg_numeric = sg_un sg_bin sg_trunc_trap

lemma sg_comparisons:
  "signature (I32Comparison a) = Some (ps, rs) \<Longrightarrow> sgv pn ps rs (exec_i32_comparison a)"
  "signature (I64Comparison b) = Some (ps, rs) \<Longrightarrow> sgv pn ps rs (exec_i64_comparison b)"
  "signature (F32Comparison c) = Some (ps, rs) \<Longrightarrow> sgv pn ps rs (exec_f32_comparison c)"
  "signature (F64Comparison d) = Some (ps, rs) \<Longrightarrow> sgv pn ps rs (exec_f64_comparison d)"
  subgoal by (cases a) (auto simp: signature_def intro!: sg_numeric)
  subgoal by (cases b) (auto simp: signature_def intro!: sg_numeric)
  subgoal by (cases c) (auto simp: signature_def intro!: sg_numeric)
  subgoal by (cases d) (auto simp: signature_def intro!: sg_numeric)
  done

lemma sg_arithmetic:
  "signature (I32Arithmetic a) = Some (ps, rs) \<Longrightarrow> sgv pn ps rs (exec_i32_arithmetic a)"
  "signature (I64Arithmetic b) = Some (ps, rs) \<Longrightarrow> sgv pn ps rs (exec_i64_arithmetic b)"
  "signature (F32Arithmetic c) = Some (ps, rs) \<Longrightarrow> sgv pn ps rs (exec_f32_arithmetic c)"
  "signature (F64Arithmetic d) = Some (ps, rs) \<Longrightarrow> sgv pn ps rs (exec_f64_arithmetic d)"
  subgoal by (cases a) (auto simp: signature_def intro!: sg_numeric)
  subgoal by (cases b) (auto simp: signature_def intro!: sg_numeric)
  subgoal by (cases c) (auto simp: signature_def intro!: sg_numeric)
  subgoal by (cases d) (auto simp: signature_def intro!: sg_numeric)
  done

lemma sg_conversions:
  "signature (Conversion a) = Some (ps, rs) \<Longrightarrow> sgv pn ps rs (exec_conversion a)"
  "signature (Reinterpretation b) = Some (ps, rs) \<Longrightarrow> sgv pn ps rs (exec_reinterpretation b)"
  "signature (SignExtension c) = Some (ps, rs) \<Longrightarrow> sgv pn ps rs (exec_sign_extension c)"
  "signature (SaturatingTruncation d) = Some (ps, rs) \<Longrightarrow> sgv pn ps rs (exec_saturating_truncation d)"
  subgoal by (cases a) (auto simp: signature_def intro!: sg_numeric)
  subgoal by (cases b) (auto simp: signature_def intro!: sg_numeric)
  subgoal by (cases c) (auto simp: signature_def intro!: sg_numeric)
  subgoal by (cases d) (auto simp: signature_def intro!: sg_numeric)
  done

lemma sg_stack_groups:
  "signature (Reference a) = Some (ps, rs) \<Longrightarrow> sgv pn ps rs (exec_reference a)"
  "signature (Parametric b) = Some (ps, rs) \<Longrightarrow> sgv pn ps rs (exec_parametric b)"
  "signature (Const c) = Some (ps, rs) \<Longrightarrow> sgv pn ps rs (exec_const c)"
  subgoal by (cases a) (auto simp: signature_def intro!: sgs)
  subgoal by (cases b) (auto simp: signature_def intro!: sgs)
  subgoal by (cases c) (auto simp: signature_def intro!: sgs)
  done

text \<open>The bulk operations on tables add an index to an offset, which may overflow.\<close>

definition bulk :: "instruction \<Rightarrow> bool" where
  "bulk instr = (case instr of
     Table (TableInit _ _) \<Rightarrow> True | Table (TableCopy _ _) \<Rightarrow> True | Table (TableFill _) \<Rightarrow> True | _ \<Rightarrow> False)"

lemma sg_table: "signature (Table i) = Some (ps, rs) \<Longrightarrow> sgm (bulk (Table i)) ps rs (exec_table i)"
  by (cases i) (auto simp: signature_def bulk_def intro!: sgs milds sg_on_ctx)

lemma and_then_not_Panic: "r \<noteq> Panic \<Longrightarrow> and_then r (\<lambda>_. Ok x) \<noteq> Panic"
  by (cases r) simp_all

lemma read_not_Panic:
  "read_u8 m a \<noteq> Panic" "read_u16 m a \<noteq> Panic" "read_u32 m a \<noteq> Panic" "read_u64 m a \<noteq> Panic"
  unfolding read_u8_def read_u16_def read_u32_def read_u64_def
  by (intro and_then_not_Panic check_bounds_not_Panic)+

lemma write_not_Panic:
  "fst (write_u8 a b m) \<noteq> Panic" "fst (write_u16 a h m) \<noteq> Panic" "fst (write_u32 a w m) \<noteq> Panic"
  "fst (write_u64 a d m) \<noteq> Panic" "fst (write_bytes a bs m) \<noteq> Panic"
  "fst (mem_fill a n v m) \<noteq> Panic" "fst (copy_within a c n m) \<noteq> Panic"
  by (simp_all add: mem_write_defs seq_def bind_def lift_def split: result.split)

lemma sg_load_op:
  assumes "\<And>m a. rd m a \<noteq> Panic" and "\<And>v. value_type_of (conv v) = t"
  shows "sgm pn [Some TI32] [Some t] (load_op sz rd conv offset)"
proof -
  have "mild_result pn (map_err (\<lambda>_. MemoryOutOfBounds a sz (mem_size mem)) (rd mem a))" for mem a
    using assms(1) [of mem a] by (cases "rd mem a") simp_all
  then show ?thesis
    unfolding load_op_def Let_def using assms(2)
    by (auto intro!: sgs milds simp: mild_def)
qed

lemma sg_store_op:
  assumes "sgv pn [Some t] [] pop" and "\<And>a v m. fst (wr a v m) \<noteq> Panic"
  shows "sgm pn [Some t, Some TI32] [] (store_op sz pop wr offset)"
  unfolding store_op_def Let_def
  by (rule sg_bind_one, rule sg_on_stack, rule assms(1)) (auto intro!: sgs milds sg_on_ctx simp: assms(2))

lemma sg_load: "signature (Load i) = Some (ps, rs) \<Longrightarrow> sgm pn ps rs (exec_load i)"
  by (cases i) (auto simp: signature_def read_not_Panic intro!: sg_load_op)

lemma sg_store: "signature (Store i) = Some (ps, rs) \<Longrightarrow> sgm pn ps rs (exec_store i)"
  by (cases i) (auto simp: signature_def write_not_Panic intro!: sg_store_op sg_vs_pop_typed)

lemma mild_memory_ops [milds]:
  "mild pn (memory_copy s d n)" "mild pn (memory_fill d n v)" "mild pn (grow_first k)"
proof -
  have 1: "mild pn (map_error (\<lambda>_ _. MemoryOutOfBounds d n sz) (copy_within s d n))"
    "mild pn (map_error (\<lambda>_ _. MemoryOutOfBounds d n sz) (mem_fill d n v))" for sz
    by (intro milds; simp add: write_not_Panic)+
  from 1(1) show "mild pn (memory_copy s d n)" by (simp add: mild_def memory_copy_def Let_def)
  from 1(2) show "mild pn (memory_fill d n v)" by (simp add: mild_def memory_fill_def Let_def)
  show "mild pn (grow_first k)"
    by (simp add: mild_def grow_first_def on_memories_def on_nth_def mem_grow_or_minus1_def mem_grow_def Let_def
        split: prod.split option.split)
qed

lemma sg_memory: "signature (Memory i) = Some (ps, rs) \<Longrightarrow> sgm pn ps rs (exec_memory i)"
  by (cases i) (auto simp: signature_def exec_memory_init_def Let_def write_not_Panic intro!: sgs milds sg_on_ctx)

lemmas sg_groups = sg_comparisons sg_arithmetic sg_conversions sg_stack_groups

lemma with_frame_const: "mc_calls s \<noteq> [] \<Longrightarrow> with_frame (\<lambda>_. m) s = m s"
  by (cases "mc_calls s") (simp_all add: with_frame_def bind_def cur_frame_def)

lemma sg_execute_instruction:
  assumes "signature i = Some (ps, rs)" and "mc_calls s \<noteq> []"
  shows "\<exists>m. sgm (bulk i) ps rs m \<and> execute_instruction i s = continue m s"
proof -
  have here: "\<exists>m'. sgm b ps rs m' \<and> continue m s = continue m' s" if "sgm b ps rs m" for b m
    using that by blast
  have nop: "exec_control Nop s = continue (ret ()) s"
    by (simp add: continue_def seq_def bind_def ret_def)
  show ?thesis
  proof (cases i)
    case (Control c)
    with assms(1) have "c = Nop" "ps = []" "rs = []" by (auto simp: signature_def split: control_instr.splits)
    moreover have "execute_instruction (Control Nop) s = continue (ret ()) s"
      using nop unfolding execute_instruction_def with_frame_const [OF assms(2)] by simp
    ultimately show ?thesis using Control by (auto intro!: exI [of _ "ret ()"] sg_ret)
  qed (use assms(1) in \<open>auto simp: signature_def [of "Variable _"] execute_instruction_def with_frame_const [OF assms(2)] intro!: here sg_on_stack sg_groups sg_memory sg_load sg_store sg_table\<close>)
qed

section \<open>The counts are right\<close>

text \<open>The instructions with fixed counts that have no signature.\<close>

lemma counts_without_signature:
  assumes "stack_pop_count i = Some p" and "stack_push_count i = Some q" and "signature i = None"
    and "i \<noteq> Control Else" and "i \<noteq> Control End"
  shows "i = Control Unreachable \<or> i = Control Return \<or> (\<exists>v. i = Variable v)"
  using assms
  by (auto simp: stack_pop_count_def stack_push_count_def signature_def split: instruction.splits control_instr.splits)

definition counted :: "nat \<Rightarrow> nat \<Rightarrow> wasm_value list \<Rightarrow> (trap_error, 'a) result \<Rightarrow> wasm_value list \<Rightarrow> bool" where
  "counted p q vs r vs' \<longleftrightarrow>
     (\<forall>a. r = Ok a \<longrightarrow> p \<le> length vs \<and> q \<le> length vs' \<and> drop q vs' = drop p vs)
   \<and> (r = Err StackUnderflow \<longrightarrow> length vs < p)"

lemma counted_sg: "sg f pn ps rs m \<Longrightarrow> m s = (r, s') \<Longrightarrow> counted (length ps) (length rs) (f s) r (f s')"
  by (cases r) (auto simp: counted_def sg_def dest!: spec [of _ s] dest: fits_length)

lemma counted_continue:
  assumes "continue m s = (r, s')" and "\<And>r'. m s = (r', s') \<Longrightarrow> counted p q vs r' vs'"
  shows "counted p q vs r vs'"
proof (cases "m s")
  case (Pair r' t)
  then show ?thesis
    using assms by (cases r') (fastforce simp: continue_def seq_def bind_def ret_def counted_def)+
qed

lemma ok_or_Err: "ok_or e x = Err e' \<longleftrightarrow> x = None \<and> e' = e"
  by (cases x) auto

lemma counted_variable:
  assumes "stack_pop_count (Variable v) = Some p" and "stack_push_count (Variable v) = Some q"
    and "exec_variable v s = (r, s')"
  shows "counted p q (machine_values s) r (machine_values s')"
  using assms
  by (cases v) (auto simp: stack_pop_count_def stack_push_count_def counted_def with_frame_def cur_frame_def bind_def
      on_stack_def vs_push_def vs_pop_def vs_peek_def lift_def gets_def set_local_def set_frame_def modify_def on_ctx_def
      ok_or_Err neq_Nil_conv Suc_le_eq split: list.splits if_splits option.splits result.splits prod.splits)



end
