(* ===== verification/Wasm_Typing.thy ===== *)
theory Wasm_Typing
  imports Wasm_Opcodes
begin

text \<open>
  Type safety of the executor (runtime/src/executor.rs) on code without jumps. A checker
  follows the types of the operand stack through a sequence of instructions; the lemmas show
  that one instruction keeps the machine in step with the checker, and the property that a
  function whose body passes the checker, called with arguments of its parameter types, gives
  results of its result types or a trap that is not a type error.
\<close>

section \<open>The checker\<close>

text \<open>Types of the stack, top first.\<close>

fun fits_types :: "value_type option list \<Rightarrow> value_type list \<Rightarrow> bool" where
  "fits_types [] ts = True"
| "fits_types (p # ps) [] = False"
| "fits_types (p # ps) (t # ts) = ((p = None \<or> p = Some t) \<and> fits_types ps ts)"

definition nth_is :: "value_type list \<Rightarrow> u32 \<Rightarrow> value_type \<Rightarrow> bool" where
  "nth_is ts i t = (list_get ts (unat i) = Some t)"

definition type_variable :: "value_type list \<Rightarrow> value_type list \<Rightarrow> variable_instr \<Rightarrow> value_type list
    \<Rightarrow> value_type list option" where
  "type_variable ls gs v ts = (case v of
     LocalGet i \<Rightarrow> map_option (\<lambda>t. t # ts) (list_get ls (unat i))
   | GlobalGet i \<Rightarrow> map_option (\<lambda>t. t # ts) (list_get gs (unat i))
   | LocalSet i \<Rightarrow> (case ts of t # us \<Rightarrow> if nth_is ls i t then Some us else None | [] \<Rightarrow> None)
   | LocalTee i \<Rightarrow> (case ts of t # us \<Rightarrow> if nth_is ls i t then Some ts else None | [] \<Rightarrow> None)
   | GlobalSet i \<Rightarrow> (case ts of t # us \<Rightarrow> if nth_is gs i t then Some us else None | [] \<Rightarrow> None))"

definition type_select :: "value_type list \<Rightarrow> value_type list option" where
  "type_select ts = (case ts of c # t # u # us \<Rightarrow> if c = TI32 \<and> t = u then Some (t # us) else None | _ \<Rightarrow> None)"

definition type_step :: "value_type list \<Rightarrow> value_type list \<Rightarrow> instruction \<Rightarrow> value_type list
    \<Rightarrow> value_type list option" where
  "type_step ls gs instr ts =
     (if instr = Parametric Select then type_select ts
      else case instr of
        Variable v \<Rightarrow> type_variable ls gs v ts
      | _ \<Rightarrow> (case signature instr of
          None \<Rightarrow> None
        | Some (ps, rs) \<Rightarrow> if fits_types ps ts then Some (map the rs @ drop (length ps) ts) else None))"

fun type_code :: "value_type list \<Rightarrow> value_type list \<Rightarrow> instruction list \<Rightarrow> value_type list
    \<Rightarrow> value_type list option" where
  "type_code ls gs [] ts = Some ts"
| "type_code ls gs (i # is) ts = (case type_step ls gs i ts of None \<Rightarrow> None | Some us \<Rightarrow> type_code ls gs is us)"

definition local_types :: "function_type \<Rightarrow> function_body \<Rightarrow> value_type list" where
  "local_types ft body = ft_params ft @ concat (map (\<lambda>(n, t). replicate (unat n) t) (fb_locals body))"

definition global_types :: "'h executor_context \<Rightarrow> value_type list" where
  "global_types c = map (\<lambda>g. value_type_of (gv_value g)) (ec_globals c)"

section \<open>Values and types\<close>

abbreviation types_of :: "wasm_value list \<Rightarrow> value_type list" where
  "types_of vs \<equiv> map value_type_of vs"

lemma fits_types: "fits ps vs \<longleftrightarrow> fits_types ps (types_of vs)"
  by (induction ps vs rule: fits.induct) auto

lemma signature_results:
  "signature i = Some (ps, rs) \<Longrightarrow> i \<noteq> Parametric Select \<Longrightarrow> None \<notin> set rs"
  by (auto simp: signature_def split: instruction.splits control_instr.splits reference_instr.splits
      parametric_instr.splits if_splits reinterpretation.splits saturating_truncation.splits
      elim!: table_signature.elims memory_signature.elims conversion_signature.elims)

lemma fits_known: "fits rs vs \<Longrightarrow> None \<notin> set rs \<Longrightarrow> types_of (take (length rs) vs) = map the rs"
  by (induction rs vs rule: fits.induct) auto

section \<open>What an instruction leaves alone\<close>

text \<open>Frames, globals, code and imports.\<close>

definition ctx_kept :: "global_value list \<Rightarrow> function_body list \<Rightarrow> import list \<Rightarrow> 'h executor_context \<Rightarrow> bool" where
  "ctx_kept G code imps c \<longleftrightarrow> ec_globals c = G \<and> mo_code (ec_module c) = code \<and> mo_imports (ec_module c) = imps"

definition kept :: "call_frame list \<Rightarrow> global_value list \<Rightarrow> function_body list \<Rightarrow> import list \<Rightarrow> 'h machine \<Rightarrow> bool" where
  "kept fs G code imps s \<longleftrightarrow> mc_calls s = fs \<and> ctx_kept G code imps (mc_ctx s)"

lemma kept_on_stack [pres]: "preserves (kept fs G code imps) (on_stack m)"
  by (simp add: preserves_def kept_def on_stack_apply)

lemma kept_on_ctx [pres]: "preserves (ctx_kept G code imps) m \<Longrightarrow> preserves (kept fs G code imps) (on_ctx m)"
  by (simp add: preserves_def kept_def on_ctx_apply)

lemma ctx_kept_ops [pres]:
  "preserves (ctx_kept G code imps) (with_table i mt)" "preserves (ctx_kept G code imps) (with_memory j e mm)"
  "preserves (ctx_kept G code imps) (grow_first d)" "preserves (ctx_kept G code imps) consume_fuel"
  "preserves (ctx_kept G code imps) (modify (\<lambda>c. c\<lparr>ec_module := (ec_module c)\<lparr>mo_elements := els c\<rparr>\<rparr>))"
  "preserves (ctx_kept G code imps) (modify (\<lambda>c. c\<lparr>ec_module := (ec_module c)\<lparr>mo_data := segs c\<rparr>\<rparr>))"
  by (auto simp: preserves_def ctx_kept_def snd_with_table snd_with_memory grow_first_def on_memories_def
      consume_fuel_def split: prod.split option.split)

lemma kept_with_frame [pres]:
  "(\<And>f. preserves (kept fs G code imps) (g f)) \<Longrightarrow> preserves (kept fs G code imps) (with_frame g)"
  by (auto simp: preserves_def with_frame_def bind_def cur_frame_def split: list.split)

lemma kept_groups [pres]:
  "preserves (kept fs G code imps) (exec_table ti)" "preserves (kept fs G code imps) (exec_load li)"
  "preserves (kept fs G code imps) (exec_store si)" "preserves (kept fs G code imps) (exec_memory mi)"
  subgoal by (cases ti) (simp_all add: pres)
  subgoal by (cases li) (simp_all add: load_op_def Let_def pres)
  subgoal by (cases si) (simp_all add: store_op_def Let_def pres)
  subgoal by (cases mi) (simp_all add: exec_memory_init_def Let_def pres)
  done

lemma execute_instruction_kept:
  assumes "signature i = Some sig"
  shows "preserves (kept fs G code imps) (execute_instruction i)"
  using assms unfolding execute_instruction_def continue_def
  by (cases i) (auto simp: signature_def [of "Control _"] signature_def [of "Variable _"] split: control_instr.splits intro!: pres)

section \<open>One instruction\<close>

text \<open>
  The machine is in the frame \<open>f\<close> up to the values of its locals, which have the types \<open>ls\<close>;
  the globals have the types \<open>gs\<close> and the operands the types \<open>ts\<close>.
\<close>

definition conf :: "value_type list \<Rightarrow> value_type list \<Rightarrow> call_frame \<Rightarrow> function_body list \<Rightarrow> import list
    \<Rightarrow> value_type list \<Rightarrow> 'h machine \<Rightarrow> bool" where
  "conf ls gs f code imps ts s \<longleftrightarrow>
     (\<exists>lv. mc_calls s = [f\<lparr>cf_locals := lv\<rparr>] \<and> types_of lv = ls) \<and> global_types (mc_ctx s) = gs
   \<and> mo_code (ec_module (mc_ctx s)) = code \<and> mo_imports (ec_module (mc_ctx s)) = imps
   \<and> types_of (machine_values s) = ts"

definition step_safe :: "bool \<Rightarrow> ('h machine \<Rightarrow> bool) \<Rightarrow> (trap_error, 'a) result \<times> 'h machine \<Rightarrow> bool" where
  "step_safe pn Q x = (case x of (Ok _, s) \<Rightarrow> Q s | (Err e, _) \<Rightarrow> \<not> type_error e | (Panic, _) \<Rightarrow> pn)"

lemma step_safe_continue: "step_safe pn Q (m s) \<Longrightarrow> step_safe pn Q (continue m s)"
  by (auto simp: step_safe_def continue_def seq_def bind_def split: prod.splits result.splits)

lemma continue_flow: "continue m s = (Ok flow, s') \<Longrightarrow> flow = FlowContinue"
  by (auto simp: continue_def seq_def bind_def split: prod.splits result.splits)

lemma conf_kept:
  assumes "conf ls gs f code imps ts s" and "kept (mc_calls s) (ec_globals (mc_ctx s)) code imps s'"
    and "types_of (machine_values s') = us"
  shows "conf ls gs f code imps us s'"
  using assms by (auto simp: conf_def kept_def ctx_kept_def global_types_def)

lemma kept_self: "conf ls gs f code imps ts s \<Longrightarrow> kept (mc_calls s) (ec_globals (mc_ctx s)) code imps s"
  by (auto simp: conf_def kept_def ctx_kept_def)

lemma safe_signature:
  assumes "signature i = Some (ps, rs)" and "fits_types ps ts" and "None \<notin> set rs"
    and conf: "conf ls gs f code imps ts s"
  shows "step_safe (bulk i) (conf ls gs f code imps (map the rs @ drop (length ps) ts)) (execute_instruction i s)"
proof -
  have ts: "types_of (machine_values s) = ts" and "mc_calls s \<noteq> []" using conf by (auto simp: conf_def)
  then obtain m where m: "sgm (bulk i) ps rs m" "execute_instruction i s = continue m s"
    using sg_execute_instruction [OF assms(1)] by metis
  obtain r s' where run: "m s = (r, s')" by (cases "m s")
  have fit: "fits ps (machine_values s)" using assms(2) ts by (simp add: fits_types)
  have "kept (mc_calls s) (ec_globals (mc_ctx s)) code imps (snd (execute_instruction i s))"
    by (rule preserves_run [OF execute_instruction_kept [OF assms(1)] kept_self [OF conf]])
  then have kept: "r = Ok a \<Longrightarrow> kept (mc_calls s) (ec_globals (mc_ctx s)) code imps s'" for a
    using m(2) run by (auto simp: continue_def seq_def bind_def)
  have types: "types_of (machine_values s') = map the rs @ drop (length ps) ts"
    if "r = Ok a" for a
  proof -
    from m(1) run that have rs: "fits rs (machine_values s')"
      and rest: "drop (length rs) (machine_values s') = drop (length ps) (machine_values s)"
      by (auto simp: sg_def dest: spec [of _ s])
    have "types_of (machine_values s') = types_of (take (length rs) (machine_values s')) @ types_of (drop (length rs) (machine_values s'))"
      by (metis append_take_drop_id map_append)
    then show ?thesis using fits_known [OF rs assms(3)] rest ts by (auto simp: drop_map)
  qed
  have "step_safe (bulk i) (conf ls gs f code imps (map the rs @ drop (length ps) ts)) (m s)"
    using m(1) run fit conf_kept [OF conf] kept types
    by (cases r) (auto simp: step_safe_def sg_def dest: spec [of _ s])
  then show ?thesis unfolding m(2) by (rule step_safe_continue)
qed

lemma safe_select:
  assumes "conf ls gs f code imps ts s" and "type_select ts = Some us"
  shows "step_safe pn (conf ls gs f code imps us) (continue (on_stack (exec_parametric Select)) s)"
  using assms
  by (intro step_safe_continue)
     (auto simp: type_select_def conf_def step_safe_def on_stack_def bind_def vs_pop_i32_def vs_pop_def vs_push_def ret_def throw_def
       map_eq_Cons_conv split: list.splits if_splits wasm_value.splits)

lemma list_get_types: "list_get (map g xs) i = Some t \<longleftrightarrow> (\<exists>x. list_get xs i = Some x \<and> g x = t)"
  by (auto simp: list_get_def)

lemma types_list_update: "list_get (map g xs) i = Some (g v) \<Longrightarrow> map g (xs[i := v]) = map g xs"
  by (auto simp: list_get_def map_update intro: list_update_id split: if_splits) (metis list_update_id nth_map)

lemma types_set_global:
  assumes "list_get (map (\<lambda>g. value_type_of (gv_value g)) G) i = Some (value_type_of v)"
  shows "map (\<lambda>g. value_type_of (gv_value g)) (set_global G i v) = map (\<lambda>g. value_type_of (gv_value g)) G"
  using types_list_update [of "\<lambda>g. value_type_of (gv_value g)" G i "(G ! i)\<lparr>gv_value := v\<rparr>"] assms
  by (auto simp: set_global_def)

lemma safe_variable:
  assumes "conf ls gs f code imps ts s" and "type_variable ls gs v ts = Some us"
  shows "step_safe pn (conf ls gs f code imps us) (continue (exec_variable v) s)"
proof (rule step_safe_continue)
  obtain lv where s: "mc_calls s = [f\<lparr>cf_locals := lv\<rparr>]" "types_of lv = ls" "global_types (mc_ctx s) = gs"
    "types_of (machine_values s) = ts"
    using assms(1) by (auto simp: conf_def)
  note run = conf_def step_safe_def with_frame_def cur_frame_def bind_def on_stack_def lift_def gets_def vs_push_def
  show "step_safe pn (conf ls gs f code imps us) (exec_variable v s)"
  proof (cases v)
    case (LocalGet i)
    then obtain x where "list_get lv (unat i) = Some x" "us = value_type_of x # ts"
      using assms(2) s(2) by (auto simp: type_variable_def list_get_types)
    then show ?thesis using assms(1) s LocalGet by (auto simp: run)
  next
    case (GlobalGet i)
    then obtain x where "list_get (ec_globals (mc_ctx s)) (unat i) = Some x" "us = value_type_of (gv_value x) # ts"
      using assms(2) s(3) by (auto simp: type_variable_def list_get_types global_types_def)
    then show ?thesis using assms(1) s GlobalGet by (auto simp: run)
  next
    case (LocalSet i)
    then obtain x vs where x: "machine_values s = x # vs" "types_of vs = us" "list_get ls (unat i) = Some (value_type_of x)"
      using assms(2) s(4) by (auto simp: type_variable_def nth_is_def split: list.splits if_splits)
    then have "types_of (lv[unat i := x]) = ls" using types_list_update s(2) by metis
    then show ?thesis using assms(1) s x LocalSet
      by (auto simp: run vs_pop_def set_local_def set_frame_def modify_def)
  next
    case (LocalTee i)
    then obtain x vs where x: "machine_values s = x # vs" "us = ts" "list_get ls (unat i) = Some (value_type_of x)"
      using assms(2) s(4) by (auto simp: type_variable_def nth_is_def split: list.splits if_splits)
    then have "types_of (lv[unat i := x]) = ls" using types_list_update s(2) by metis
    then show ?thesis using assms(1) s x LocalTee
      by (auto simp: run vs_peek_def set_local_def set_frame_def modify_def)
  next
    case (GlobalSet i)
    then obtain x vs where x: "machine_values s = x # vs" "types_of vs = us" "list_get gs (unat i) = Some (value_type_of x)"
      using assms(2) s(4) by (auto simp: type_variable_def nth_is_def split: list.splits if_splits)
    then show ?thesis using assms(1) s x GlobalSet
      by (auto simp: run vs_pop_def on_ctx_def modify_def global_types_def types_set_global)
  qed
qed

lemma execute_instruction_typed:
  assumes "type_step ls gs i ts = Some us" and conf: "conf ls gs f code imps ts s"
  shows "step_safe (bulk i) (conf ls gs f code imps us) (execute_instruction i s)"
    and "execute_instruction i s = (Ok flow, s') \<Longrightarrow> flow = FlowContinue"
proof -
  have ne: "mc_calls s \<noteq> []" using conf by (auto simp: conf_def)
  consider (select) "i = Parametric Select" "type_select ts = Some us"
    | (variable) v where "i = Variable v" "type_variable ls gs v ts = Some us"
    | (sig) ps rs where "i \<noteq> Parametric Select" "signature i = Some (ps, rs)" "fits_types ps ts" "us = map the rs @ drop (length ps) ts"
    using assms(1) by (auto simp: type_step_def split: if_splits instruction.splits option.splits)
  then have "step_safe (bulk i) (conf ls gs f code imps us) (execute_instruction i s)
    \<and> (execute_instruction i s = (Ok flow, s') \<longrightarrow> flow = FlowContinue)"
  proof cases
    case select
    then have e: "execute_instruction i s = continue (on_stack (exec_parametric Select)) s"
      by (simp add: execute_instruction_def with_frame_const [OF ne])
    show ?thesis unfolding e using safe_select [OF conf select(2)] continue_flow by blast
  next
    case variable
    then have e: "execute_instruction i s = continue (exec_variable v) s"
      by (simp add: execute_instruction_def with_frame_const [OF ne])
    show ?thesis unfolding e using safe_variable [OF conf variable(2)] continue_flow by blast
  next
    case sig
    from sg_execute_instruction [OF sig(2) ne] show ?thesis
      using safe_signature [OF sig(2,3) signature_results [OF sig(2,1)] conf] sig(4) continue_flow by metis
  qed
  then show "step_safe (bulk i) (conf ls gs f code imps us) (execute_instruction i s)"
    and "execute_instruction i s = (Ok flow, s') \<Longrightarrow> flow = FlowContinue" by simp_all
qed

section \<open>A function body\<close>

lemma exec_loop_next: "exec_step host s = (Ok Next, s') \<Longrightarrow> exec_loop host s = exec_loop host s'"
  by (subst exec_loop.simps) simp

lemma exec_loop_stop:
  "exec_step host s = (Ok Break, s') \<Longrightarrow> exec_loop host s = Some (Ok (), s')"
  "exec_step host s = (Err e, s') \<Longrightarrow> exec_loop host s = Some (Err e, s')"
  "exec_step host s = (Panic, s') \<Longrightarrow> exec_loop host s = Some (Panic, s')"
  by (subst exec_loop.simps, simp)+

lemma pushes_typed:
  assumes "for_each rs vs_push v = (r, v')"
  shows "(\<forall>a. r = Ok a \<longrightarrow> vs_values v' = rev rs @ vs_values v) \<and> (\<forall>e. r = Err e \<longrightarrow> e = StackOverflow) \<and> r \<noteq> Panic"
  using assms
  by (induction rs arbitrary: v)
     (auto simp: seq_def bind_def vs_push_def ret_def split: prod.splits result.splits if_splits)

lemma unwind_all:
  assumes "length (vs_values v) = arity" and "unwind arity 0 v = (r, v')"
  shows "(\<forall>a. r = Ok a \<longrightarrow> vs_values v' = vs_values v) \<and> (\<forall>e. r = Err e \<longrightarrow> e = StackOverflow) \<and> r \<noteq> Panic"
  using assms pushes_typed [of "rev (vs_values v)" "vs_truncate 0 (v\<lparr>vs_values := []\<rparr>)" r v']
  by (auto simp: unwind_def collect_results_def vs_len_def vs_truncate_def Let_def)

definition runs_body :: "call_frame \<Rightarrow> function_body list \<Rightarrow> import list \<Rightarrow> function_body \<Rightarrow> bool" where
  "runs_body f code imps body \<longleftrightarrow> (let n = length (filter is_function_import imps) in
     n \<le> unat (cf_func_idx f) \<and> list_get code (unat (cf_func_idx f) - n) = Some body)"

lemma get_instructions_conf:
  assumes "conf ls gs f code imps ts s" and "runs_body f code imps body"
  shows "get_current_instructions (f\<lparr>cf_locals := lv\<rparr>) s = (Ok (fb_instructions body), s)"
  using assms
  by (auto simp: get_current_instructions_def conf_def runs_body_def bind_def gets_def sub_usize_def index_vec_def ret_def
      import_function_count_def list_get_def Let_def split: if_splits)

text \<open>The program counter moves on before the instruction runs.\<close>

lemma conf_next_pc:
  assumes "conf ls gs f code imps ts s" and "mc_calls s = [g]"
  shows "conf ls gs (f\<lparr>cf_pc := n\<rparr>) code imps ts (s\<lparr>mc_calls := [g\<lparr>cf_pc := n\<rparr>]\<rparr>)"
proof -
  obtain lv where g: "g = f\<lparr>cf_locals := lv\<rparr>" "types_of lv = ls" using assms by (auto simp: conf_def)
  then have "g\<lparr>cf_pc := n\<rparr> = f\<lparr>cf_pc := n, cf_locals := lv\<rparr>" by simp
  then show ?thesis using assms(1) g(2) unfolding conf_def by auto
qed

lemma conf_fuel:
  assumes "conf ls gs f code imps ts s"
  shows "step_safe pn (conf ls gs f code imps ts) (on_ctx consume_fuel s)"
  using assms by (auto simp: step_safe_def on_ctx_def consume_fuel_def conf_def global_types_def split: option.splits)

lemma typed_step:
  assumes conf: "conf ls gs f code imps ts s" and body: "runs_body f code imps body"
    and pc: "cf_pc f < length (fb_instructions body)" "fb_instructions body ! cf_pc f = i"
    and step: "type_step ls gs i ts = Some us"
  shows "step_safe (bulk i) (conf ls gs (f\<lparr>cf_pc := Suc (cf_pc f)\<rparr>) code imps us) (exec_step host s)"
    and "exec_step host s = (Ok x, s') \<Longrightarrow> x = Next"
proof -
  obtain lv where lv: "mc_calls s = [f\<lparr>cf_locals := lv\<rparr>]" using conf by (auto simp: conf_def)
  let ?f = "f\<lparr>cf_pc := Suc (cf_pc f)\<rparr>" and ?s = "s\<lparr>mc_calls := [f\<lparr>cf_locals := lv, cf_pc := Suc (cf_pc f)\<rparr>]\<rparr>"
  have 1: "conf ls gs ?f code imps ts ?s" using conf_next_pc [OF conf lv] by simp
  have run: "exec_step host s = (case on_ctx consume_fuel ?s of
      (Ok _, t) \<Rightarrow> bind (execute_instruction i) (handle_flow host) t
    | (Err e, t) \<Rightarrow> (Err e, t) | (Panic, t) \<Rightarrow> (Panic, t))"
    using lv pc
    by (simp add: exec_step_def bind_apply gets_def get_instructions_conf [OF conf body]
        step_instruction_def seq_def set_frame_def modify_def split: prod.split result.split)
  have "step_safe (bulk i) (conf ls gs ?f code imps us) (exec_step host s) \<and> (exec_step host s = (Ok x, s') \<longrightarrow> x = Next)"
  proof (cases "on_ctx consume_fuel ?s")
    case (Pair r t)
    show ?thesis
    proof (cases r)
      case (Ok a)
      then have t: "conf ls gs ?f code imps ts t" using conf_fuel [OF 1] Pair by (simp add: step_safe_def)
      from execute_instruction_typed [OF step t] show ?thesis
        using run Pair Ok by (auto simp: step_safe_def bind_def ret_def split: prod.splits result.splits)
    qed (use run Pair conf_fuel [OF 1, of False] in \<open>auto simp: step_safe_def\<close>)
  qed
  then show "step_safe (bulk i) (conf ls gs ?f code imps us) (exec_step host s)"
    and "exec_step host s = (Ok x, s') \<Longrightarrow> x = Next" by blast+
qed

text \<open>The last two steps: the final \<open>end\<close>, and the return of the frame's values.\<close>

lemma typed_finish:
  assumes conf: "conf ls gs f code imps ts s" and body: "runs_body f code imps body"
    and pc: "cf_pc f \<ge> length (fb_instructions body)" and f: "cf_stack_base f = 0" "cf_return_arity f = length ts"
  shows "\<exists>r t. exec_loop host s = Some (r, t) \<and> step_safe False (\<lambda>t. types_of (machine_values t) = ts \<and> global_types (mc_ctx t) = gs) (r, t)"
proof -
  obtain lv where lv: "mc_calls s = [f\<lparr>cf_locals := lv\<rparr>]" using conf by (auto simp: conf_def)
  obtain r v where u: "unwind (length ts) 0 (mc_stack s) = (r, v)" by (cases "unwind (length ts) 0 (mc_stack s)")
  have len: "length (machine_values s) = length ts" using conf by (auto simp: conf_def)
  note u' = unwind_all [OF len u]
  have "exec_step host s = (case r of Ok _ \<Rightarrow> (Ok Break, s\<lparr>mc_calls := [], mc_stack := v\<rparr>)
     | Err e \<Rightarrow> (Err e, s\<lparr>mc_calls := [], mc_stack := v\<rparr>) | Panic \<Rightarrow> (Panic, s\<lparr>mc_calls := [], mc_stack := v\<rparr>))"
    using lv pc f u
    by (simp add: exec_step_def bind_def gets_def get_instructions_conf [OF conf body] finish_frame_def seq_def pop_frame_def modify_def on_stack_def
        next_unless_done_def split: result.split)
  then show ?thesis
    using u' conf by (cases r) (auto simp: step_safe_def conf_def exec_loop_stop)
qed

lemma typed_end:
  assumes conf: "conf ls gs f code imps ts s" and body: "runs_body f code imps body"
    and pc: "cf_pc f < length (fb_instructions body)" "fb_instructions body ! cf_pc f = Control End"
    and f: "cf_stack_base f = 0" "cf_return_arity f = length ts" "cf_block_stack f = [b]" "bf_kind b = KFunction"
  shows "\<exists>r t. exec_loop host s = Some (r, t) \<and> step_safe False (\<lambda>t. types_of (machine_values t) = ts \<and> global_types (mc_ctx t) = gs) (r, t)"
proof -
  obtain lv where lv: "mc_calls s = [f\<lparr>cf_locals := lv\<rparr>]" using conf by (auto simp: conf_def)
  let ?f = "f\<lparr>cf_pc := Suc (cf_pc f)\<rparr>" and ?s = "s\<lparr>mc_calls := [f\<lparr>cf_locals := lv, cf_pc := Suc (cf_pc f)\<rparr>]\<rparr>"
  have 1: "conf ls gs ?f code imps ts ?s" using conf_next_pc [OF conf lv] by simp
  obtain r t where fuel: "on_ctx consume_fuel ?s = (r, t)" by (cases "on_ctx consume_fuel ?s")
  have run: "exec_step host s = (case r of
      Ok _ \<Rightarrow> bind (execute_instruction (Control End)) (handle_flow host) t | Err e \<Rightarrow> (Err e, t) | Panic \<Rightarrow> (Panic, t))"
    using lv pc fuel
    by (simp add: exec_step_def bind_apply gets_def get_instructions_conf [OF conf body]
        step_instruction_def seq_def set_frame_def modify_def split: prod.split result.split)
  show ?thesis
  proof (cases r)
    case (Ok a)
    then have t: "conf ls gs ?f code imps ts t" using conf_fuel [OF 1] fuel by (simp add: step_safe_def)
    then obtain lv' where lv': "mc_calls t = [?f\<lparr>cf_locals := lv'\<rparr>]" by (auto simp: conf_def)
    let ?n = "length (fb_instructions body)"
    have body': "runs_body ?f code imps body" "runs_body (?f\<lparr>cf_pc := ?n\<rparr>) code imps body"
      using body by (simp_all add: runs_body_def)
    have step: "exec_step host s = (Ok Next, t\<lparr>mc_calls := [?f\<lparr>cf_locals := lv', cf_pc := ?n\<rparr>]\<rparr>)"
      using lv' f unfolding run Ok
      by (simp add: get_instructions_conf [OF t body'(1)] execute_instruction_def with_frame_def cur_frame_def bind_apply exec_end_def seq_def set_frame_def modify_def ret_def)
    have 2: "conf ls gs (?f\<lparr>cf_pc := ?n\<rparr>) code imps ts (t\<lparr>mc_calls := [?f\<lparr>cf_locals := lv', cf_pc := ?n\<rparr>]\<rparr>)"
      using conf_next_pc [OF t lv'] by simp
    show ?thesis using typed_finish [OF 2 body'(2)] f exec_loop_next [OF step] by simp
  qed (use run fuel conf_fuel [OF 1, of False] in \<open>auto simp: step_safe_def exec_loop_stop\<close>)
qed

lemma typed_run:
  assumes "conf ls gs f code imps ts s" and "runs_body f code imps body"
    and "drop (cf_pc f) (fb_instructions body) = is @ [Control End]"
    and "type_code ls gs is ts = Some us"
    and "cf_stack_base f = 0" "cf_return_arity f = length us" "cf_block_stack f = [b]" "bf_kind b = KFunction"
  shows "\<exists>r t. exec_loop host s = Some (r, t)
    \<and> step_safe (\<exists>i \<in> set is. bulk i) (\<lambda>t. types_of (machine_values t) = us \<and> global_types (mc_ctx t) = gs) (r, t)"
  using assms
proof (induction "is" arbitrary: f ts s)
  case Nil
  then have "cf_pc f < length (fb_instructions body)" "fb_instructions body ! cf_pc f = Control End"
    by (auto simp: nth_via_drop intro: ccontr)
  with typed_end [OF Nil.prems(1,2) this] Nil.prems show ?case by (auto simp: step_safe_def)
next
  case (Cons i "is")
  from Cons.prems(3) have pc: "cf_pc f < length (fb_instructions body)" "fb_instructions body ! cf_pc f = i"
    by (auto simp: nth_via_drop intro: ccontr)
  have rest: "drop (Suc (cf_pc f)) (fb_instructions body) = is @ [Control End]"
    using Cons.prems(3) by (metis drop_Suc tl_drop list.sel(3) append_Cons)
  from Cons.prems(4) obtain vs where step: "type_step ls gs i ts = Some vs" and code: "type_code ls gs is vs = Some us"
    by (auto split: option.splits)
  let ?f = "f\<lparr>cf_pc := Suc (cf_pc f)\<rparr>"
  note safe = typed_step [OF Cons.prems(1,2) pc step, of host]
  show ?case
  proof (cases "exec_step host s")
    case (Pair r t)
    show ?thesis
    proof (cases r)
      case (Ok x)
      then have x: "exec_step host s = (Ok Next, t)" and t: "conf ls gs ?f code imps vs t"
        using Pair safe by (auto simp: step_safe_def)
      have "runs_body ?f code imps body" using Cons.prems(2) by (simp add: runs_body_def)
      from Cons.IH [OF t this _ code] rest Cons.prems(5-8) exec_loop_next [OF x] show ?thesis
        by (auto simp: step_safe_def split: result.splits)
    qed (use Pair safe(1) in \<open>auto simp: step_safe_def exec_loop_stop\<close>)
  qed
qed

section \<open>Type safety\<close>

lemma default_for_type: "t \<noteq> TV128 \<Longrightarrow> value_type_of (default_for t) = t"
  by (cases t) simp_all

lemma make_locals_types:
  assumes "types_of args = ft_params ft" and "\<forall>(n, t) \<in> set (fb_locals body). t \<noteq> TV128"
  shows "types_of (make_locals ft body args) = local_types ft body"
proof -
  have len: "length args = length (ft_params ft)" using assms(1) by (metis length_map)
  have "map (\<lambda>(i, t). if i < length args then args ! i else default_for t) (enumerate 0 (ft_params ft)) = args"
    using len by (auto simp: list_eq_iff_nth_eq nth_enumerate_eq)
  moreover have "types_of (concat (map (\<lambda>(n, t). replicate (unat n) (default_for t)) xs))
      = concat (map (\<lambda>(n, t). replicate (unat n) t) xs)" if "\<forall>(n, t) \<in> set xs. t \<noteq> TV128" for xs :: "(u32 \<times> value_type) list"
    using that by (induction xs) (auto simp: default_for_type)
  ultimately show ?thesis using assms by (simp add: make_locals_def local_types_def)
qed

lemma results_types: "types_of vs = rev ts \<Longrightarrow> types_of (rev (take (min (length ts) (length vs)) vs)) = ts"
  by (metis length_map length_rev min.idem rev_map rev_rev_ident take_all_iff order_refl)

definition sample_type :: function_type where
  "sample_type = \<lparr>ft_params = [TI32], ft_results = [TI64]\<rparr>"

definition sample_code :: "instruction list" where
  "sample_code = [Variable (LocalGet 0), Conversion I64ExtendI32S, Variable (LocalTee 1), Variable (LocalGet 1),
     I64Arithmetic I64Mul, Variable (GlobalGet 0), Variable (LocalGet 0), Parametric Select]"

definition sample_body :: function_body where
  "sample_body = \<lparr>fb_locals = [(1, TI64)], fb_instructions = sample_code @ [Control End], fb_raw_bytes = []\<rparr>"

definition sample_context :: "unit executor_context" where
  "sample_context = \<lparr>ec_module = module_empty\<lparr>mo_types := [sample_type], mo_functions := [0], mo_code := [sample_body]\<rparr>,
     ec_memories = [], ec_tables = [], ec_globals = [\<lparr>gv_value = I64 7, gv_mutable = True\<rparr>],
     ec_host_functions = [], ec_fuel = None, ec_stdout = [], ec_stderr = [], ec_exit_code = None, ec_wasi = None\<rparr>"



end
