(* ===== verification/Wasm_Reader.thy ===== *)
theory Wasm_Reader
  imports Prelude
begin

unbundle bit_operations_syntax

text \<open>
  The binary reader of the module parser (runtime/src/parser.rs, \<open>BinaryReader\<close>): bounded
  reads, LEB128 integers, little-endian numbers and UTF-8 names, each with the offset it reports
  when it fails. A parser is a state-passing function on the reader. \<open>advances k m\<close> is what all of
  them keep: the data stays, the position grows by at least \<open>k\<close> when \<open>m\<close> succeeds and never leaves
  the data, and an error names an offset inside the data.

  A name is a \<open>String\<close>: the sequence of its UTF-8 bytes, each as a character code.
\<close>

section \<open>Reading bytes\<close>

record parse_error =
  pe_message :: string
  pe_offset :: usize

definition parse_error_new :: "string \<Rightarrow> usize \<Rightarrow> parse_error" where
  "parse_error_new message offset = \<lparr>pe_message = message, pe_offset = offset\<rparr>"

record reader =
  rd_data :: "u8 list"
  rd_pos :: usize

type_synonym 'a parser = "(reader, parse_error, 'a) st"

definition reader_new :: "u8 list \<Rightarrow> reader" where
  "reader_new bytes = \<lparr>rd_data = bytes, rd_pos = 0\<rparr>"

definition rd_fail :: "string \<Rightarrow> usize \<Rightarrow> 'a parser" where
  "rd_fail message offset = throw (parse_error_new message offset)"

text \<open>An error at the present position or some bytes before it.\<close>

definition fail_at :: "string \<Rightarrow> nat \<Rightarrow> 'a parser" where
  "fail_at message back = bind (gets rd_pos) (\<lambda>p. rd_fail message (p - back))"

definition sub_reader :: "reader \<Rightarrow> usize \<Rightarrow> usize \<Rightarrow> (parse_error, reader) result" where
  "sub_reader r offset len =
     (if offset + len > length (rd_data r) then Err (parse_error_new ''Sub-reader bounds exceed data'' offset)
      else Ok (reader_new (get_slice (rd_data r) offset len)))"

definition rd_is_empty :: "reader \<Rightarrow> bool" where
  "rd_is_empty r = (rd_pos r \<ge> length (rd_data r))"

definition rd_remaining :: "reader \<Rightarrow> usize" where
  "rd_remaining r = length (rd_data r) - rd_pos r"

definition read_byte :: "u8 parser" where
  "read_byte r =
     (if rd_pos r \<ge> length (rd_data r) then (Err (parse_error_new ''Unexpected end of data'' (rd_pos r)), r)
      else (Ok (rd_data r ! rd_pos r), r\<lparr>rd_pos := rd_pos r + 1\<rparr>))"

definition peek_byte :: "u8 parser" where
  "peek_byte r =
     (if rd_pos r \<ge> length (rd_data r) then (Err (parse_error_new ''Unexpected end of data'' (rd_pos r)), r)
      else (Ok (rd_data r ! rd_pos r), r))"

definition rd_bytes :: "usize \<Rightarrow> u8 list parser" where
  "rd_bytes n r =
     (if rd_pos r + n > length (rd_data r) then (Err (parse_error_new ''Unexpected end of data'' (rd_pos r)), r)
      else (Ok (get_slice (rd_data r) (rd_pos r) n), r\<lparr>rd_pos := rd_pos r + n\<rparr>))"

definition read_u32_le :: "u32 parser" where
  "read_u32_le = bind (rd_bytes 4) (\<lambda>bytes. ret (from_le bytes))"

definition read_f32 :: "u32 parser" where
  "read_f32 = bind (rd_bytes 4) (\<lambda>bytes. ret (from_le bytes))"

definition read_f64 :: "u64 parser" where
  "read_f64 = bind (rd_bytes 8) (\<lambda>bytes. ret (from_le bytes))"

definition rd_skip :: "usize \<Rightarrow> unit parser" where
  "rd_skip n r =
     (if rd_pos r + n > length (rd_data r) then (Err (parse_error_new ''Cannot skip past end'' (rd_pos r)), r)
      else (Ok (), r\<lparr>rd_pos := rd_pos r + n\<rparr>))"

section \<open>LEB128\<close>

text \<open>
  The loops of \<open>read_leb128_u32\<close>, \<open>_u64\<close>, \<open>_i32\<close> and \<open>_i64\<close>; the two unsigned ones differ in the
  width, in the limit on the shift and in the message, and so do the two signed ones. A shift by the
  width or more overflows.
\<close>

function leb128_unsigned :: "nat \<Rightarrow> string \<Rightarrow> usize \<Rightarrow> 'a::len word \<Rightarrow> nat \<Rightarrow> 'a word parser" where
  "leb128_unsigned limit message start res shift r =
     (if shift > limit then rd_fail message start r
      else bind read_byte (\<lambda>byte.
        if shift \<ge> LENGTH('a) then panic
        else let res' = res OR push_bit shift (ucast (byte AND 0x7F)) in
          if byte AND 0x80 = 0 then ret res'
          else leb128_unsigned limit message start res' (shift + 7)) r)"
  by pat_completeness auto
termination
  by (relation "measure (\<lambda>(limit, message, start, res, shift, r). Suc limit - shift)") auto

function leb128_signed :: "nat \<Rightarrow> string \<Rightarrow> usize \<Rightarrow> 'a::len word \<Rightarrow> nat \<Rightarrow> 'a word parser" where
  "leb128_signed limit message start res shift r =
     (if shift > limit then rd_fail message start r
      else bind read_byte (\<lambda>byte.
        if shift \<ge> LENGTH('a) then panic
        else let res' = res OR push_bit shift (ucast (byte AND 0x7F)); shift' = shift + 7 in
          if byte AND 0x80 = 0
          then ret (if shift' < LENGTH('a) \<and> byte AND 0x40 \<noteq> 0 then res' OR push_bit shift' (NOT 0) else res')
          else leb128_signed limit message start res' shift') r)"
  by pat_completeness auto
termination
  by (relation "measure (\<lambda>(limit, message, start, res, shift, r). Suc limit - shift)") auto

declare leb128_unsigned.simps [simp del] leb128_signed.simps [simp del]

definition read_leb128_u32 :: "u32 parser" where
  "read_leb128_u32 r = leb128_unsigned 35 ''LEB128 u32 overflow'' (rd_pos r) 0 0 r"

definition read_leb128_i32 :: "i32 parser" where
  "read_leb128_i32 r = leb128_signed 35 ''LEB128 i32 overflow'' (rd_pos r) 0 0 r"

definition read_leb128_u64 :: "u64 parser" where
  "read_leb128_u64 r = leb128_unsigned 70 ''LEB128 u64 overflow'' (rd_pos r) 0 0 r"

definition read_leb128_i64 :: "i64 parser" where
  "read_leb128_i64 r = leb128_signed 70 ''LEB128 i64 overflow'' (rd_pos r) 0 0 r"

section \<open>Names\<close>

definition read_name :: "string parser" where
  "read_name = bind read_leb128_u32 (\<lambda>len. bind (rd_bytes (unat len)) (\<lambda>bytes.
     if utf8_valid bytes then ret (string_of_bytes bytes)
     else fail_at ''Invalid UTF-8 in name'' (unat len)))"

section \<open>What every parser keeps\<close>

named_theorems adv

definition moved :: "nat \<Rightarrow> reader \<Rightarrow> (parse_error, 'a) result \<times> reader \<Rightarrow> bool" where
  "moved k r out \<longleftrightarrow> (case out of (res, r') \<Rightarrow>
     rd_data r' = rd_data r \<and> rd_pos r \<le> rd_pos r' \<and> rd_pos r' \<le> length (rd_data r)
     \<and> (case res of Ok _ \<Rightarrow> rd_pos r + k \<le> rd_pos r' | Err e \<Rightarrow> pe_offset e \<le> length (rd_data r) | Panic \<Rightarrow> True))"

definition advances :: "nat \<Rightarrow> 'a parser \<Rightarrow> bool" where
  "advances k m \<longleftrightarrow> (\<forall>r. rd_pos r \<le> length (rd_data r) \<longrightarrow> moved k r (m r))"

lemma advancesI: "(\<And>r. rd_pos r \<le> length (rd_data r) \<Longrightarrow> moved k r (m r)) \<Longrightarrow> advances k m"
  by (simp add: advances_def)

lemma advancesD: "advances k m \<Longrightarrow> rd_pos r \<le> length (rd_data r) \<Longrightarrow> moved k r (m r)"
  by (simp add: advances_def)

lemma moved_weaken: "moved k r out \<Longrightarrow> j \<le> k \<Longrightarrow> moved j r out"
  by (auto simp: moved_def split: prod.splits result.splits)

lemma moved_trans: "moved j r (Ok a, r1) \<Longrightarrow> moved k r1 out \<Longrightarrow> moved (j + k) r out"
  by (auto simp: moved_def split: prod.splits result.splits)

lemma moved_bind:
  assumes "moved j r (m r)" and "\<And>a r1. moved j r (Ok a, r1) \<Longrightarrow> moved k r1 (f a r1)"
  shows "moved (j + k) r (bind m f r)"
proof -
  obtain x r1 where x: "m r = (x, r1)" by (cases "m r")
  show ?thesis
  proof (cases x)
    case (Ok a)
    then have "moved j r (Ok a, r1)" using assms(1) x by simp
    from moved_trans [OF this assms(2) [OF this]] show ?thesis using x Ok by (simp add: bind_apply)
  qed (use assms(1) x in \<open>simp_all add: bind_apply moved_def\<close>)
qed

lemma moved_pos: "moved k r (res, r') \<Longrightarrow> rd_pos r' \<le> length (rd_data r')"
  by (simp add: moved_def)

lemma advances_ret [adv]: "advances 0 (ret a)"
  by (simp add: advances_def moved_def)

lemma advances_panic [adv]: "advances k panic"
  by (simp add: advances_def moved_def)

lemma advances_gets [adv]: "advances 0 (gets f)"
  by (simp add: advances_def moved_def)

lemma advances_weaken: "advances k m \<Longrightarrow> j \<le> k \<Longrightarrow> advances j m"
  by (auto simp: advances_def intro: moved_weaken)

lemma advances_bind:
  assumes "advances j m" and "\<And>a. advances k (f a)"
  shows "advances (j + k) (bind m f)"
  by (rule advancesI, rule moved_bind) (auto intro: advancesD [OF assms(1)] advancesD [OF assms(2)] moved_pos)

lemma advances_bind_0 [adv]: "advances 0 m \<Longrightarrow> (\<And>a. advances 0 (f a)) \<Longrightarrow> advances 0 (bind m f)"
  using advances_bind [of 0 m 0 f] by simp

lemma advances_bind_1: "advances 1 m \<Longrightarrow> (\<And>a. advances 0 (f a)) \<Longrightarrow> advances 1 (bind m f)"
  using advances_bind [of 1 m 0 f] by simp

lemma advances_if [adv]:
  "(b \<Longrightarrow> advances k m) \<Longrightarrow> (\<not> b \<Longrightarrow> advances k n) \<Longrightarrow> advances k (if b then m else n)"
  by simp

lemma advances_case_option [adv]:
  "(x = None \<Longrightarrow> advances k m) \<Longrightarrow> (\<And>a. x = Some a \<Longrightarrow> advances k (f a)) \<Longrightarrow>
     advances k (case x of None \<Rightarrow> m | Some a \<Rightarrow> f a)"
  by (cases x) auto

lemma advances_case_prod [adv]: "(\<And>a b. advances k (f a b)) \<Longrightarrow> advances k (case x of (a, b) \<Rightarrow> f a b)"
  by (cases x) auto

lemma advances_repeat_st [adv]: "advances 0 m \<Longrightarrow> advances 0 (repeat_st n m)"
  by (induction n) (auto intro!: adv)

lemma advances_fail_at [adv]: "advances k (fail_at message back)"
  by (auto simp: advances_def moved_def fail_at_def rd_fail_def bind_apply parse_error_new_def)

lemma advances_read_byte [adv]: "advances 1 read_byte" "advances 0 read_byte"
  by (auto simp: advances_def moved_def read_byte_def parse_error_new_def)

lemma advances_peek_byte [adv]: "advances 0 peek_byte"
  by (auto simp: advances_def moved_def peek_byte_def parse_error_new_def)

lemma advances_rd_bytes [adv]: "advances n (rd_bytes n)" "advances 0 (rd_bytes n)"
  by (auto simp: advances_def moved_def rd_bytes_def parse_error_new_def)

lemma advances_rd_skip [adv]: "advances 0 (rd_skip n)"
  by (auto simp: advances_def moved_def rd_skip_def parse_error_new_def)

lemma advances_fixed [adv]: "advances 0 read_u32_le" "advances 0 read_f32" "advances 0 read_f64"
  unfolding read_u32_le_def read_f32_def read_f64_def by (intro adv)+

text \<open>The loops report the position they started from.\<close>

definition reads_from :: "usize \<Rightarrow> nat \<Rightarrow> 'a parser \<Rightarrow> bool" where
  "reads_from start k m \<longleftrightarrow> (\<forall>r. start \<le> rd_pos r \<longrightarrow> rd_pos r \<le> length (rd_data r) \<longrightarrow> moved k r (m r))"

lemma reads_from_advances: "advances k m \<Longrightarrow> reads_from start k m"
  by (simp add: advances_def reads_from_def)

lemma reads_from_at_pos: "(\<And>start. reads_from start k (m start)) \<Longrightarrow> advances k (\<lambda>r. m (rd_pos r) r)"
  by (simp add: advances_def reads_from_def)

lemma reads_from_weaken: "reads_from start 1 m \<Longrightarrow> reads_from start 0 m"
  by (auto simp: reads_from_def intro: moved_weaken)

lemma reads_from_step:
  assumes "\<And>b. reads_from start 0 (f b)"
  shows "reads_from start 1 (bind read_byte f)"
  unfolding reads_from_def
proof (intro allI impI)
  fix r :: reader assume le: "start \<le> rd_pos r" and ok: "rd_pos r \<le> length (rd_data r)"
  have "moved (1 + 0) r (bind read_byte f r)"
  proof (rule moved_bind)
    show "moved 1 r (read_byte r)" by (rule advancesD [OF advances_read_byte(1) ok])
    fix a r1 assume m: "moved 1 r (Ok (a :: u8), r1)"
    then have "start \<le> rd_pos r1" using le by (simp add: moved_def)
    then show "moved 0 r1 (f a r1)"
      using assms [of a] moved_pos [OF m] by (simp add: reads_from_def)
  qed
  then show "moved 1 r (bind read_byte f r)" by simp
qed

lemma reads_from_fail: "reads_from start k (rd_fail message start)"
  by (simp add: reads_from_def moved_def rd_fail_def parse_error_new_def)

lemma leb128_unsigned_unfold:
  "limit < shift \<Longrightarrow> leb128_unsigned limit message start res shift = rd_fail message start"
  "\<not> limit < shift \<Longrightarrow> leb128_unsigned limit message start (res :: 'a::len word) shift = bind read_byte (\<lambda>byte.
     if shift \<ge> LENGTH('a) then panic
     else let res' = res OR push_bit shift (ucast (byte AND 0x7F)) in
       if byte AND 0x80 = 0 then ret res'
       else leb128_unsigned limit message start res' (shift + 7))"
  by (rule ext, subst leb128_unsigned.simps, simp)+

lemma reads_from_leb128_unsigned: "reads_from start 1 (leb128_unsigned limit message start (res :: 'a::len word) shift)"
proof (induction "Suc limit - shift" arbitrary: res shift rule: less_induct)
  case less
  show ?case
  proof (cases "limit < shift")
    case False
    have "reads_from start 0 (leb128_unsigned limit message start (w :: 'a word) (shift + 7))" for w
      by (rule reads_from_weaken, rule less) (use False in simp)
    then show ?thesis
      unfolding leb128_unsigned_unfold(2) [OF False] Let_def
      by (intro reads_from_step) (simp add: reads_from_advances advances_ret advances_panic)
  qed (simp add: leb128_unsigned_unfold reads_from_fail)
qed

lemma leb128_signed_unfold:
  "limit < shift \<Longrightarrow> leb128_signed limit message start res shift = rd_fail message start"
  "\<not> limit < shift \<Longrightarrow> leb128_signed limit message start (res :: 'a::len word) shift = bind read_byte (\<lambda>byte.
     if shift \<ge> LENGTH('a) then panic
     else let res' = res OR push_bit shift (ucast (byte AND 0x7F)); shift' = shift + 7 in
       if byte AND 0x80 = 0
       then ret (if shift' < LENGTH('a) \<and> byte AND 0x40 \<noteq> 0 then res' OR push_bit shift' (NOT 0) else res')
       else leb128_signed limit message start res' shift')"
  by (rule ext, subst leb128_signed.simps, simp)+

lemma reads_from_leb128_signed: "reads_from start 1 (leb128_signed limit message start (res :: 'a::len word) shift)"
proof (induction "Suc limit - shift" arbitrary: res shift rule: less_induct)
  case less
  show ?case
  proof (cases "limit < shift")
    case False
    have "reads_from start 0 (leb128_signed limit message start (w :: 'a word) (shift + 7))" for w
      by (rule reads_from_weaken, rule less) (use False in simp)
    then show ?thesis
      unfolding leb128_signed_unfold(2) [OF False] Let_def
      by (intro reads_from_step) (simp add: reads_from_advances advances_ret advances_panic)
  qed (simp add: leb128_signed_unfold reads_from_fail)
qed

lemma advances_leb128_loops:
  "advances 1 (\<lambda>r. leb128_unsigned limit message (rd_pos r) res shift r)"
  "advances 1 (\<lambda>r. leb128_signed limit message (rd_pos r) res shift r)"
  by (rule reads_from_at_pos [where m = "\<lambda>start. leb128_unsigned limit message start res shift"], rule reads_from_leb128_unsigned)
     (rule reads_from_at_pos [where m = "\<lambda>start. leb128_signed limit message start res shift"], rule reads_from_leb128_signed)

lemma advances_leb128 [adv]:
  "advances 1 read_leb128_u32" "advances 1 read_leb128_i32" "advances 1 read_leb128_u64" "advances 1 read_leb128_i64"
  unfolding read_leb128_u32_def [abs_def] read_leb128_i32_def [abs_def] read_leb128_u64_def [abs_def] read_leb128_i64_def [abs_def]
  by (rule advances_leb128_loops)+

lemma advances_leb128_0 [adv]:
  "advances 0 read_leb128_u32" "advances 0 read_leb128_i32" "advances 0 read_leb128_u64" "advances 0 read_leb128_i64"
  by (rule advances_weaken, rule advances_leb128, simp)+

lemma advances_read_name [adv]: "advances 0 read_name"
  unfolding read_name_def by (intro adv)

section \<open>LEB128 reads back what the format writes\<close>

text \<open>The encodings of the binary format: seven bits a byte, least significant first, the last byte
  without bit 7; the signed one ends once the sign bit of the last byte stands for the rest.\<close>

fun leb_encode :: "nat \<Rightarrow> u8 list" where
  "leb_encode n = (if n < 128 then [of_nat n] else of_nat (n mod 128 + 128) # leb_encode (n div 128))"

function sleb_encode :: "int \<Rightarrow> u8 list" where
  "sleb_encode i =
     (if - 64 \<le> i \<and> i < 64 then [of_int (i mod 128)] else of_int (i mod 128 + 128) # sleb_encode (i div 128))"
  by pat_completeness auto
termination
  by (relation "measure (\<lambda>i. nat \<bar>i\<bar>)") auto

declare leb_encode.simps [simp del] sleb_encode.simps [simp del]

definition reader_at :: "reader \<Rightarrow> u8 list \<Rightarrow> bool" where
  "reader_at r bs \<longleftrightarrow> rd_pos r \<le> length (rd_data r) \<and> drop (rd_pos r) (rd_data r) = bs"

definition rd_advance :: "nat \<Rightarrow> reader \<Rightarrow> reader" where
  "rd_advance n r = r\<lparr>rd_pos := rd_pos r + n\<rparr>"

lemma rd_advance_simps [simp]:
  "rd_data (rd_advance n r) = rd_data r" "rd_pos (rd_advance n r) = rd_pos r + n"
  "rd_advance m (rd_advance n r) = rd_advance (n + m) r" "rd_advance 0 r = r"
  by (simp_all add: rd_advance_def add.assoc)

lemma reader_at_length: "reader_at r bs \<Longrightarrow> rd_pos r + length bs = length (rd_data r)"
  by (auto simp: reader_at_def)

lemma reader_at_advance: "reader_at r (bs @ rest) \<Longrightarrow> n = length bs \<Longrightarrow> reader_at (rd_advance n r) rest"
  using reader_at_length [of r "bs @ rest"]
  by (simp add: reader_at_def) (metis add.commute append_eq_conv_conj drop_drop)

lemma read_byte_at:
  assumes "reader_at r (b # rest)"
  shows "read_byte r = (Ok b, rd_advance 1 r)" and "reader_at (rd_advance 1 r) rest"
proof -
  have "rd_pos r < length (rd_data r)" using assms by (metis reader_at_def drop_eq_Nil not_less list.distinct(1))
  moreover from this have "rd_data r ! rd_pos r = b" using assms by (simp add: reader_at_def Cons_nth_drop_Suc [symmetric])
  ultimately show "read_byte r = (Ok b, rd_advance 1 r)" by (simp add: read_byte_def rd_advance_def)
  show "reader_at (rd_advance 1 r) rest" using reader_at_advance [of r "[b]" rest 1] assms by simp
qed

lemma bind_read_byte_at: "reader_at r (b # rest) \<Longrightarrow> bind read_byte f r = f b (rd_advance 1 r)"
  by (simp add: bind_apply read_byte_at)

lemma low_byte:
  assumes "m < 128"
  shows "(of_nat m :: u8) AND 0x7F = of_nat m" and "(of_nat m :: u8) AND 0x80 = 0"
    and "(of_nat (m + 128) :: u8) AND 0x7F = of_nat m" and "(of_nat (m + 128) :: u8) AND 0x80 \<noteq> 0"
    and "ucast (of_nat m :: u8) = (of_nat m :: 'a::len word)"
    and "(of_nat m :: u8) AND 0x40 = 0 \<longleftrightarrow> m < 64"
proof -
  have mask: "(w :: u8) AND 0x7F = take_bit 7 w" for w by (simp add: take_bit_eq_mask mask_eq_exp_minus_1)
  have bit7: "(w :: u8) AND 0x80 = 0 \<longleftrightarrow> \<not> bit w 7" for w using and_exp_eq_0_iff_not_bit [of w 7] by simp
  have bit6: "(w :: u8) AND 0x40 = 0 \<longleftrightarrow> \<not> bit w 6" for w using and_exp_eq_0_iff_not_bit [of w 6] by simp
  have nat_bit: "bit (of_nat k :: u8) 7 \<longleftrightarrow> odd (k div 128)" "bit (of_nat k :: u8) 6 \<longleftrightarrow> odd (k div 64)" for k
    by (simp_all add: bit_of_nat_iff bit_iff_odd [of k])
  have take: "take_bit 7 (of_nat k :: u8) = of_nat (k mod 128)" for k
    by (simp add: take_bit_of_nat take_bit_eq_mod [of 7 k])
  show "(of_nat m :: u8) AND 0x7F = of_nat m" "(of_nat m :: u8) AND 0x80 = 0"
    "(of_nat (m + 128) :: u8) AND 0x7F = of_nat m" "(of_nat (m + 128) :: u8) AND 0x80 \<noteq> 0"
    using assms by (simp_all only: mask bit7 nat_bit take div_add_self2) auto
  show "ucast (of_nat m :: u8) = (of_nat m :: 'a word)"
    using assms by (simp add: unsigned_of_nat take_bit_nat_eq_self)
  have "m div 64 = (if m < 64 then 0 else 1)" using assms by auto
  then show "(of_nat m :: u8) AND 0x40 = 0 \<longleftrightarrow> m < 64" by (simp only: bit6 nat_bit) auto
qed

lemma seven_bits_int:
  "push_bit shift (of_int (i mod 128)) OR push_bit (shift + 7) (of_int (i div 128)) = push_bit shift (of_int i :: 'a::len word)"
proof -
  have "i mod 128 = take_bit 7 i" "i div 128 = drop_bit 7 i" by (simp_all add: take_bit_eq_mod drop_bit_eq_div)
  moreover have "push_bit shift (of_int (take_bit 7 i)) OR push_bit (shift + 7) (of_int (drop_bit 7 i)) = push_bit shift (of_int i :: 'a word)"
  proof (rule bit_word_eqI)
    fix k assume "k < LENGTH('a)"
    consider "k < shift" | "shift \<le> k" "k < shift + 7" | "shift + 7 \<le> k" by linarith
    then show "bit (push_bit shift (of_int (take_bit 7 i)) OR push_bit (shift + 7) (of_int (drop_bit 7 i)) :: 'a word) k
        = bit (push_bit shift (of_int i) :: 'a word) k"
      by cases (auto simp: bit_or_iff bit_push_bit_iff bit_of_int_iff bit_take_bit_iff bit_drop_bit_eq)
  qed
  ultimately show ?thesis by simp
qed

lemma seven_bits:
  "push_bit shift (of_nat (n mod 128)) OR push_bit (shift + 7) (of_nat (n div 128)) = push_bit shift (of_nat n :: 'a::len word)"
proof -
  have "(of_int (int n mod 128) :: 'a word) = of_nat (n mod 128)" "(of_int (int n div 128) :: 'a word) = of_nat (n div 128)"
    by (metis of_int_of_nat_eq of_nat_numeral zmod_int, metis of_int_of_nat_eq of_nat_numeral zdiv_int)
  then show ?thesis using seven_bits_int [of shift "int n", where 'a = 'a] by simp
qed

lemma leb128_unsigned_encode:
  assumes "reader_at r (leb_encode n @ rest)" and "n < 2 ^ (LENGTH('a) - shift)" and "shift < LENGTH('a)"
    and "LENGTH('a) \<le> Suc limit"
  shows "leb128_unsigned limit message start res shift r
     = (Ok (res OR push_bit shift (of_nat n :: 'a::len word)), rd_advance (length (leb_encode n)) r)"
  using assms
proof (induction n arbitrary: r res shift rule: leb_encode.induct)
  case (1 n)
  have lim: "\<not> limit < shift" using "1.prems"(3,4) by simp
  show ?case
  proof (cases "n < 128")
    case True
    then show ?thesis
      using "1.prems" lim
      by (simp add: leb_encode.simps leb128_unsigned_unfold bind_read_byte_at low_byte Let_def)
  next
    case False
    let ?m = "n mod 128"
    have m: "?m < 128" by simp
    define b where "b = (of_nat (?m + 128) :: u8)"
    note b = low_byte(3,4) [OF m, folded b_def]
    have enc: "leb_encode n = b # leb_encode (n div 128)" using False by (simp add: leb_encode.simps b_def)
    have at: "reader_at r (b # leb_encode (n div 128) @ rest)" using "1.prems"(1) enc by simp
    have shift: "shift + 7 < LENGTH('a)"
    proof (rule ccontr)
      assume "\<not> shift + 7 < LENGTH('a)"
      then have "(2::nat) ^ (LENGTH('a) - shift) \<le> 2 ^ 7" by (intro power_increasing) auto
      with False "1.prems"(2) show False by simp
    qed
    have "LENGTH('a) - shift = 7 + (LENGTH('a) - (shift + 7))" using shift by simp
    then have "n < 2 ^ 7 * 2 ^ (LENGTH('a) - (shift + 7))" using "1.prems"(2) by (metis power_add)
    then have div: "n div 128 < 2 ^ (LENGTH('a) - (shift + 7))" by (simp add: less_mult_imp_div_less mult.commute)
    note IH = "1.IH" [OF False read_byte_at(2) [OF at] div shift "1.prems"(4)]
    have val: "push_bit shift (of_nat ?m :: 'a word) OR push_bit (shift + 7) (of_nat (n div 128)) = push_bit shift (of_nat n)"
      by (rule seven_bits)
    show ?thesis
      using lim "1.prems"(3) at
      by (simp add: leb128_unsigned_unfold bind_read_byte_at b low_byte(5) [OF m] Let_def IH [simplified] enc val or.assoc)
  qed
qed

lemma push_bit_long [simp]: "LENGTH('a) \<le> n \<Longrightarrow> push_bit n (w :: 'a::len word) = 0"
  by (rule bit_word_eqI) (simp add: bit_push_bit_iff)

lemma not_mask_long: "\<not> n < LENGTH('a) \<Longrightarrow> NOT (mask n) = (0 :: 'a::len word)"
  by (rule bit_word_eqI) (simp add: bit_not_iff bit_mask_iff)

lemma leb128_signed_last:
  fixes res :: "'a::len word"
  assumes "- 64 \<le> i" and "i < 64"
  shows "(if shift + 7 < LENGTH('a) \<and> (of_nat (nat (i mod 128)) :: u8) AND 0x40 \<noteq> 0
          then (res OR push_bit shift (of_nat (nat (i mod 128)))) OR push_bit (shift + 7) (NOT 0)
          else res OR push_bit shift (of_nat (nat (i mod 128)))) = res OR push_bit shift (of_int i)"
proof -
  have m: "nat (i mod 128) < 128" by auto
  have word: "(of_nat (nat (i mod 128)) :: 'a word) = of_int (i mod 128)" by simp
  show ?thesis
  proof (cases "0 \<le> i")
    case True
    moreover from True have "nat i < 64" using assms by simp
    ultimately show ?thesis using assms low_byte(6) [OF m] by simp
  next
    case False
    have "i div 128 = - 1" using False assms by (intro int_div_pos_eq [of _ _ _ "i + 128"]) auto
    moreover have "i mod 128 = i + 128" using False assms by (intro int_mod_pos_eq [of _ _ "- 1"]) auto
    ultimately show ?thesis
      using assms low_byte(6) [OF m] seven_bits_int [of shift i, where 'a = 'a]
      by (cases "shift + 7 < LENGTH('a)") (simp_all add: or.assoc not_mask_long)
  qed
qed

lemma div_bounds: "- (128 * p) \<le> i \<Longrightarrow> - p \<le> i div 128" "i < 128 * p \<Longrightarrow> i div 128 < p" for i p :: int
  by linarith+

lemma leb128_signed_encode:
  assumes "reader_at r (sleb_encode i @ rest)" and "- (2 ^ (LENGTH('a) - Suc shift)) \<le> i" and "i < 2 ^ (LENGTH('a) - Suc shift)"
    and "shift < LENGTH('a)" and "LENGTH('a) \<le> Suc limit"
  shows "leb128_signed limit message start res shift r
     = (Ok (res OR push_bit shift (of_int i :: 'a::len word)), rd_advance (length (sleb_encode i)) r)"
  using assms
proof (induction i arbitrary: r res shift rule: sleb_encode.induct)
  case (1 i)
  have lim: "\<not> limit < shift" using "1.prems"(4,5) by simp
  let ?m = "nat (i mod 128)"
  have m: "?m < 128" by auto
  show ?case
  proof (cases "- 64 \<le> i \<and> i < 64")
    case True
    define b where "b = (of_nat ?m :: u8)"
    have b: "b AND 0x80 = 0" and val: "ucast (b AND 0x7F) = (of_nat ?m :: 'a word)"
      by (simp_all only: b_def low_byte(1,2,5) [OF m])
    note last = leb128_signed_last [of i shift res, folded b_def val]
    have enc: "sleb_encode i = [b]" using True by (simp add: sleb_encode.simps b_def)
    then have at: "reader_at r (b # rest)" using "1.prems"(1) by simp
    have "\<not> LENGTH('a) \<le> shift" using "1.prems"(4) by simp
    then show ?thesis
      by (simp only: leb128_signed_unfold(2) [OF lim] bind_read_byte_at [OF at] b Let_def last True if_True if_False ret_apply enc
          list.size simp_thms) simp
  next
    case False
    define b where "b = (of_nat (?m + 128) :: u8)"
    note b = low_byte(3,4) [OF m, folded b_def]
    have "b = of_int (i mod 128 + 128)" by (simp add: b_def)
    then have enc: "sleb_encode i = b # sleb_encode (i div 128)"
      using False by (subst sleb_encode.simps) (simp only: if_False)
    have at: "reader_at r (b # sleb_encode (i div 128) @ rest)" using "1.prems"(1) enc by simp
    have shift: "shift + 7 < LENGTH('a)"
    proof (rule ccontr)
      assume "\<not> shift + 7 < LENGTH('a)"
      then have "(2::int) ^ (LENGTH('a) - Suc shift) \<le> 2 ^ 6" by (intro power_increasing) auto
      then have "(2::int) ^ (LENGTH('a) - Suc shift) \<le> 64" by simp
      moreover have "i < - 64 \<or> 64 \<le> i" using False by linarith
      ultimately show False using "1.prems"(2,3) by linarith
    qed
    have exp: "LENGTH('a) - Suc shift = 7 + (LENGTH('a) - Suc (shift + 7))" using shift by simp
    have pow: "(2::int) ^ (LENGTH('a) - Suc shift) = 128 * 2 ^ (LENGTH('a) - Suc (shift + 7))"
      unfolding exp power_add by simp
    have lo: "- (2 ^ (LENGTH('a) - Suc (shift + 7))) \<le> i div 128" and hi: "i div 128 < 2 ^ (LENGTH('a) - Suc (shift + 7))"
      using "1.prems"(2,3) div_bounds [of i "2 ^ (LENGTH('a) - Suc (shift + 7))"] by (simp_all only: pow)
    note IH = "1.IH" [OF False read_byte_at(2) [OF at] lo hi shift "1.prems"(5)]
    have val: "ucast (b AND 0x7F) = (of_int (i mod 128) :: 'a word)"
      unfolding b(1) low_byte(5) [OF m] by simp
    have "leb128_signed limit message start res shift r
        = leb128_signed limit message start (res OR push_bit shift (of_int (i mod 128) :: 'a word)) (shift + 7) (rd_advance 1 r)"
      using "1.prems"(4) b(2) by (simp only: leb128_signed_unfold(2) [OF lim] bind_read_byte_at [OF at] Let_def val not_le [symmetric] if_False)
    also have "\<dots> = (Ok ((res OR push_bit shift (of_int (i mod 128))) OR push_bit (shift + 7) (of_int (i div 128))),
        rd_advance (length (sleb_encode (i div 128))) (rd_advance 1 r))"
      by (rule IH)
    also have "(res OR push_bit shift (of_int (i mod 128))) OR push_bit (shift + 7) (of_int (i div 128)) = res OR push_bit shift (of_int i)"
      by (simp only: or.assoc seven_bits_int)
    finally show ?thesis by (simp add: enc)
  qed
qed

lemma reader_at_middle: "reader_at \<lparr>rd_data = pre @ bs, rd_pos = length pre\<rparr> bs"
  by (simp add: reader_at_def)

lemma read_leb128_at:
  "reader_at r (leb_encode (unat a) @ rest) \<Longrightarrow> read_leb128_u32 r = (Ok a, rd_advance (length (leb_encode (unat a))) r)"
  "reader_at r (leb_encode (unat b) @ rest) \<Longrightarrow> read_leb128_u64 r = (Ok b, rd_advance (length (leb_encode (unat b))) r)"
  "reader_at r (sleb_encode (sint c) @ rest) \<Longrightarrow> read_leb128_i32 r = (Ok c, rd_advance (length (sleb_encode (sint c))) r)"
  "reader_at r (sleb_encode (sint d) @ rest) \<Longrightarrow> read_leb128_i64 r = (Ok d, rd_advance (length (sleb_encode (sint d))) r)"
  using leb128_unsigned_encode [where 'a = 32, of r "unat a" rest 0 35] leb128_unsigned_encode [where 'a = 64, of r "unat b" rest 0 70]
    leb128_signed_encode [where 'a = 32, of r "sint c" rest 0 35] leb128_signed_encode [where 'a = 64, of r "sint d" rest 0 70]
    sint_greater_eq [of c] sint_less [of c] sint_greater_eq [of d] sint_less [of d]
  by (simp_all add: read_leb128_u32_def read_leb128_u64_def read_leb128_i32_def read_leb128_i64_def)

text \<open>C30. Reading LEB128: wherever the encoding of a number stands in the data, the four readers return
  exactly that number, for every value of the type, and stop right behind it.\<close>

theorem leb128_round_trip:
  "read_leb128_u32 \<lparr>rd_data = pre @ leb_encode (unat a) @ post, rd_pos = length pre\<rparr>
     = (Ok a, \<lparr>rd_data = pre @ leb_encode (unat a) @ post, rd_pos = length pre + length (leb_encode (unat a))\<rparr>)
   \<and> read_leb128_u64 \<lparr>rd_data = pre @ leb_encode (unat b) @ post, rd_pos = length pre\<rparr>
     = (Ok b, \<lparr>rd_data = pre @ leb_encode (unat b) @ post, rd_pos = length pre + length (leb_encode (unat b))\<rparr>)
   \<and> read_leb128_i32 \<lparr>rd_data = pre @ sleb_encode (sint c) @ post, rd_pos = length pre\<rparr>
     = (Ok c, \<lparr>rd_data = pre @ sleb_encode (sint c) @ post, rd_pos = length pre + length (sleb_encode (sint c))\<rparr>)
   \<and> read_leb128_i64 \<lparr>rd_data = pre @ sleb_encode (sint d) @ post, rd_pos = length pre\<rparr>
     = (Ok d, \<lparr>rd_data = pre @ sleb_encode (sint d) @ post, rd_pos = length pre + length (sleb_encode (sint d))\<rparr>)"
  by (simp add: read_leb128_at [OF reader_at_middle] rd_advance_def)

lemma leb128_overlong:
  fixes res :: "'a::len word"
  assumes "reader_at r (bs @ b # rest)" and "\<forall>x \<in> set bs. x AND 0x80 \<noteq> 0" and "shift + 7 * length bs = limit"
    and "LENGTH('a) \<le> limit"
  shows "fst (leb128_unsigned limit message start res shift r) = Panic"
    and "fst (leb128_signed limit message start res shift r) = Panic"
  using assms
proof (induction bs arbitrary: r res shift)
  case Nil
  { case 1 then show ?case by (simp add: leb128_unsigned_unfold bind_read_byte_at) }
  { case 2 then show ?case by (simp add: leb128_signed_unfold bind_read_byte_at) }
next
  case (Cons x bs)
  { case 1
    then have "reader_at (rd_advance 1 r) (bs @ b # rest)" by (intro read_byte_at(2)) simp
    then show ?case using 1 Cons.IH(1) by (simp add: leb128_unsigned_unfold bind_read_byte_at Let_def) }
  { case 2
    then have "reader_at (rd_advance 1 r) (bs @ b # rest)" by (intro read_byte_at(2)) simp
    then show ?case using 2 Cons.IH(2) by (simp add: leb128_signed_unfold bind_read_byte_at Let_def) }
qed

text \<open>Over-long encodings: when the fifth byte of a 32-bit number, or the tenth of a 64-bit one,
  still has the continuation bit, the readers do not report the overflow error their guard is
  written for; the next byte is shifted by more than the width, which panics.\<close>

theorem leb128_overlong_panics:
  assumes "reader_at r (bs @ b # rest)" and "\<forall>x \<in> set bs. x AND 0x80 \<noteq> 0"
  shows "(length bs = 5 \<longrightarrow> fst (read_leb128_u32 r) = Panic \<and> fst (read_leb128_i32 r) = Panic)
     \<and> (length bs = 10 \<longrightarrow> fst (read_leb128_u64 r) = Panic \<and> fst (read_leb128_i64 r) = Panic)"
  using leb128_overlong [OF assms, where 'a = 32, of 0 35] leb128_overlong [OF assms, where 'a = 64, of 0 70]
  by (simp add: read_leb128_u32_def read_leb128_i32_def read_leb128_u64_def read_leb128_i64_def)

theorem leb128_overlong_panics_witness:
  "fst (read_leb128_u32 (reader_new [0x80, 0x80, 0x80, 0x80, 0x80, 0])) = Panic"
  using leb128_overlong_panics [of "reader_new [0x80, 0x80, 0x80, 0x80, 0x80, 0]" "[0x80, 0x80, 0x80, 0x80, 0x80]" 0 "[]"]
  by (simp add: reader_at_def reader_new_def)

end
