(* ===== verification/Wasm_Parser.thy ===== *)
theory Wasm_Parser
  imports Wasm_Reader Wasm_Syntax
begin

unbundle bit_operations_syntax

text \<open>
  The module parser (runtime/src/parser.rs, \<open>WasmParser\<close>) and \<open>Module::from_bytes\<close>
  (runtime/src/module.rs): the section parsers, the instruction decoder and the loop over the
  sections. The arms of the large \<open>match\<close> on opcodes are tables of pairs (opcode, what to read), one
  per section of the match, looked up in order.

  The loops that run until the data ends are total functions: their termination proofs show that
  each round reads at least one byte.
\<close>

section \<open>Loops\<close>

text \<open>A count and that many items: \<open>for _ in 0..count\<close>.\<close>

definition parse_vec :: "'a parser \<Rightarrow> 'a list parser" where
  "parse_vec p = bind read_leb128_u32 (\<lambda>count. repeat_st (unat count) p)"

lemma advances_parse_vec [adv]: "advances 0 p \<Longrightarrow> advances 0 (parse_vec p)"
  unfolding parse_vec_def by (intro adv)

text \<open>A parser that starts with a byte makes progress, and fails at the end of the data.\<close>

lemma bind_read_byte_progress:
  assumes "bind read_byte f r = (Ok a, r')" and "\<And>b. advances 0 (f b)"
  shows "rd_remaining r' < rd_remaining r"
proof -
  have lt: "rd_pos r < length (rd_data r)"
    using assms(1) by (cases "rd_pos r < length (rd_data r)") (simp_all add: bind_apply read_byte_def)
  have "moved (1 + 0) r (bind read_byte f r)"
    by (rule advancesD [OF advances_bind [OF advances_read_byte(1) assms(2)]]) (use lt in simp)
  then have "rd_data r' = rd_data r" and "rd_pos r < rd_pos r'" using assms(1) by (simp_all add: moved_def)
  then show ?thesis using lt by (simp add: rd_remaining_def)
qed

section \<open>Types\<close>

definition parse_value_type :: "value_type parser" where
  "parse_value_type = bind read_byte (\<lambda>byte.
     case map_of [(0x7F, TI32), (0x7E, TI64), (0x7D, TF32), (0x7C, TF64), (0x7B, TV128), (0x70, TFuncRef), (0x6F, TExternRef)] byte of
       Some t \<Rightarrow> ret t
     | None \<Rightarrow> fail_at ''Invalid value type'' 1)"

definition parse_limits :: "(u32 \<times> u32 option) parser" where
  "parse_limits = bind read_byte (\<lambda>flags. bind read_leb128_u32 (\<lambda>min.
     if flags AND 0x01 \<noteq> 0 then bind read_leb128_u32 (\<lambda>max. ret (min, Some max)) else ret (min, None)))"

definition parse_table_type :: "table_type parser" where
  "parse_table_type = bind parse_value_type (\<lambda>t. bind parse_limits (\<lambda>(min, max).
     ret \<lparr>tt_element_type = t, tt_min = min, tt_max = max\<rparr>))"

definition parse_memory_type :: "memory_type parser" where
  "parse_memory_type = bind read_byte (\<lambda>flags. bind read_leb128_u32 (\<lambda>min.
     bind (if flags AND 0x01 \<noteq> 0 then bind read_leb128_u32 (\<lambda>max. ret (Some max)) else ret None) (\<lambda>max.
     ret \<lparr>mt_min = min, mt_max = max, mt_shared = (flags AND 0x02 \<noteq> 0)\<rparr>)))"

definition parse_global_type :: "global_type parser" where
  "parse_global_type = bind parse_value_type (\<lambda>t. bind read_byte (\<lambda>byte.
     ret \<lparr>gt_value_type = t, gt_mutable = (byte = 0x01)\<rparr>))"

definition parse_blocktype :: "block_type parser" where
  "parse_blocktype = bind peek_byte (\<lambda>byte.
     if byte = 0x40 then bind read_byte (\<lambda>_. ret BtEmpty)
     else if byte \<in> set [0x7F, 0x7E, 0x7D, 0x7C, 0x7B, 0x70, 0x6F] then bind parse_value_type (\<lambda>vt. ret (BtValue vt))
     else bind read_leb128_i32 (\<lambda>idx.
       if sint idx < 0 then fail_at ''Invalid block type index'' 0 else ret (BtTypeIndex idx)))"

lemma advances_types [adv]:
  "advances 0 parse_value_type" "advances 0 parse_limits" "advances 0 parse_table_type" "advances 0 parse_memory_type"
  "advances 0 parse_global_type" "advances 0 parse_blocktype"
  unfolding parse_value_type_def parse_limits_def parse_table_type_def parse_memory_type_def parse_global_type_def
    parse_blocktype_def by (intro adv)+

section \<open>Instructions\<close>

definition u32_arg :: "(u32 \<Rightarrow> 'a) \<Rightarrow> 'a parser" where
  "u32_arg f = bind read_leb128_u32 (\<lambda>x. ret (f x))"

definition u32_args :: "(u32 \<Rightarrow> u32 \<Rightarrow> 'a) \<Rightarrow> 'a parser" where
  "u32_args f = bind read_leb128_u32 (\<lambda>x. bind read_leb128_u32 (\<lambda>y. ret (f x y)))"

definition byte_ignored :: "'a parser \<Rightarrow> 'a parser" where
  "byte_ignored p = bind read_byte (\<lambda>_. p)"

lemma advances_args [adv]:
  "advances 0 (u32_arg f)" "advances 0 (u32_args g)" "advances 0 p \<Longrightarrow> advances 0 (byte_ignored p)"
  unfolding u32_arg_def u32_args_def byte_ignored_def by (intro adv | assumption)+

definition control_opcodes :: "(u8 \<times> instruction parser) list" where
  "control_opcodes =
    [(0x00, ret (Control Unreachable)), (0x01, ret (Control Nop)),
     (0x02, bind parse_blocktype (\<lambda>bt. ret (Control (Block bt)))),
     (0x03, bind parse_blocktype (\<lambda>bt. ret (Control (Loop bt)))),
     (0x04, bind parse_blocktype (\<lambda>bt. ret (Control (If bt)))),
     (0x05, ret (Control Else)), (0x0B, ret (Control End)),
     (0x0C, u32_arg (\<lambda>i. Control (Br i))), (0x0D, u32_arg (\<lambda>i. Control (BrIf i))),
     (0x0E, bind (parse_vec read_leb128_u32) (\<lambda>targets. u32_arg (\<lambda>d. Control (BrTable targets d)))),
     (0x0F, ret (Control Return)), (0x10, u32_arg (\<lambda>i. Control (Call i))),
     (0x11, u32_args (\<lambda>t i. Control (CallIndirect t i))),
     (0xD0, byte_ignored (ret (Reference RefNull))), (0xD1, ret (Reference RefIsNull)),
     (0xD2, u32_arg (\<lambda>i. Reference (RefFunc i))),
     (0x1A, ret (Parametric Drop)), (0x1B, ret (Parametric Select)),
     (0x1C, bind (parse_vec parse_value_type) (\<lambda>_. ret (Parametric Select))),
     (0x20, u32_arg (\<lambda>i. Variable (LocalGet i))), (0x21, u32_arg (\<lambda>i. Variable (LocalSet i))),
     (0x22, u32_arg (\<lambda>i. Variable (LocalTee i))), (0x23, u32_arg (\<lambda>i. Variable (GlobalGet i))),
     (0x24, u32_arg (\<lambda>i. Variable (GlobalSet i))),
     (0x25, u32_arg (\<lambda>i. Table (TableGet i))), (0x26, u32_arg (\<lambda>i. Table (TableSet i)))]"

definition integer_opcodes :: "(u8 \<times> instruction) list" where
  "integer_opcodes =
    [(0x45, I32Comparison I32Eqz), (0x46, I32Comparison I32Eq), (0x47, I32Comparison I32Ne),
     (0x48, I32Comparison I32LtS), (0x49, I32Comparison I32LtU), (0x4A, I32Comparison I32GtS),
     (0x4B, I32Comparison I32GtU), (0x4C, I32Comparison I32LeS), (0x4D, I32Comparison I32LeU),
     (0x4E, I32Comparison I32GeS), (0x4F, I32Comparison I32GeU), (0x50, I64Comparison I64Eqz),
     (0x51, I64Comparison I64Eq), (0x52, I64Comparison I64Ne), (0x53, I64Comparison I64LtS),
     (0x54, I64Comparison I64LtU), (0x55, I64Comparison I64GtS), (0x56, I64Comparison I64GtU),
     (0x57, I64Comparison I64LeS), (0x58, I64Comparison I64LeU), (0x59, I64Comparison I64GeS),
     (0x5A, I64Comparison I64GeU), (0x5B, F32Comparison F32Eq), (0x5C, F32Comparison F32Ne),
     (0x5D, F32Comparison F32Lt), (0x5E, F32Comparison F32Gt), (0x5F, F32Comparison F32Le),
     (0x60, F32Comparison F32Ge), (0x61, F64Comparison F64Eq), (0x62, F64Comparison F64Ne),
     (0x63, F64Comparison F64Lt), (0x64, F64Comparison F64Gt), (0x65, F64Comparison F64Le),
     (0x66, F64Comparison F64Ge), (0x67, I32Arithmetic I32Clz), (0x68, I32Arithmetic I32Ctz),
     (0x69, I32Arithmetic I32Popcnt), (0x6A, I32Arithmetic I32Add), (0x6B, I32Arithmetic I32Sub),
     (0x6C, I32Arithmetic I32Mul), (0x6D, I32Arithmetic I32DivS), (0x6E, I32Arithmetic I32DivU),
     (0x6F, I32Arithmetic I32RemS), (0x70, I32Arithmetic I32RemU), (0x71, I32Arithmetic I32And),
     (0x72, I32Arithmetic I32Or), (0x73, I32Arithmetic I32Xor), (0x74, I32Arithmetic I32Shl),
     (0x75, I32Arithmetic I32ShrS), (0x76, I32Arithmetic I32ShrU), (0x77, I32Arithmetic I32Rotl),
     (0x78, I32Arithmetic I32Rotr), (0x79, I64Arithmetic I64Clz), (0x7A, I64Arithmetic I64Ctz),
     (0x7B, I64Arithmetic I64Popcnt), (0x7C, I64Arithmetic I64Add), (0x7D, I64Arithmetic I64Sub),
     (0x7E, I64Arithmetic I64Mul), (0x7F, I64Arithmetic I64DivS), (0x80, I64Arithmetic I64DivU),
     (0x81, I64Arithmetic I64RemS), (0x82, I64Arithmetic I64RemU), (0x83, I64Arithmetic I64And),
     (0x84, I64Arithmetic I64Or), (0x85, I64Arithmetic I64Xor), (0x86, I64Arithmetic I64Shl),
     (0x87, I64Arithmetic I64ShrS), (0x88, I64Arithmetic I64ShrU), (0x89, I64Arithmetic I64Rotl),
     (0x8A, I64Arithmetic I64Rotr)]"

definition float_opcodes :: "(u8 \<times> instruction) list" where
  "float_opcodes =
    [(0x8B, F32Arithmetic F32Abs), (0x8C, F32Arithmetic F32Neg), (0x8D, F32Arithmetic F32Ceil),
     (0x8E, F32Arithmetic F32Floor), (0x8F, F32Arithmetic F32Trunc), (0x90, F32Arithmetic F32Nearest),
     (0x91, F32Arithmetic F32Sqrt), (0x92, F32Arithmetic F32Add), (0x93, F32Arithmetic F32Sub),
     (0x94, F32Arithmetic F32Mul), (0x95, F32Arithmetic F32Div), (0x96, F32Arithmetic F32Min),
     (0x97, F32Arithmetic F32Max), (0x98, F32Arithmetic F32Copysign), (0x99, F64Arithmetic F64Abs),
     (0x9A, F64Arithmetic F64Neg), (0x9B, F64Arithmetic F64Ceil), (0x9C, F64Arithmetic F64Floor),
     (0x9D, F64Arithmetic F64Trunc), (0x9E, F64Arithmetic F64Nearest), (0x9F, F64Arithmetic F64Sqrt),
     (0xA0, F64Arithmetic F64Add), (0xA1, F64Arithmetic F64Sub), (0xA2, F64Arithmetic F64Mul),
     (0xA3, F64Arithmetic F64Div), (0xA4, F64Arithmetic F64Min), (0xA5, F64Arithmetic F64Max),
     (0xA6, F64Arithmetic F64Copysign), (0xA7, Conversion I32WrapI64), (0xA8, Conversion I32TruncF32S),
     (0xA9, Conversion I32TruncF32U), (0xAA, Conversion I32TruncF64S), (0xAB, Conversion I32TruncF64U),
     (0xAC, Conversion I64ExtendI32S), (0xAD, Conversion I64ExtendI32U), (0xAE, Conversion I64TruncF32S),
     (0xAF, Conversion I64TruncF32U), (0xB0, Conversion I64TruncF64S), (0xB1, Conversion I64TruncF64U),
     (0xB2, Conversion F32ConvertI32S), (0xB3, Conversion F32ConvertI32U),
     (0xB4, Conversion F32ConvertI64S), (0xB5, Conversion F32ConvertI64U),
     (0xB6, Conversion F32DemoteF64), (0xB7, Conversion F64ConvertI32S),
     (0xB8, Conversion F64ConvertI32U), (0xB9, Conversion F64ConvertI64S),
     (0xBA, Conversion F64ConvertI64U), (0xBB, Conversion F64PromoteF32),
     (0xBC, Reinterpretation I32ReinterpretF32), (0xBD, Reinterpretation I64ReinterpretF64),
     (0xBE, Reinterpretation F32ReinterpretI32), (0xBF, Reinterpretation F64ReinterpretI64),
     (0xC0, SignExtension I32Extend8S), (0xC1, SignExtension I32Extend16S),
     (0xC2, SignExtension I64Extend8S), (0xC3, SignExtension I64Extend16S),
     (0xC4, SignExtension I64Extend32S)]"

definition memory_opcodes :: "(u8 \<times> (u32 \<Rightarrow> u32 \<Rightarrow> instruction)) list" where
  "memory_opcodes =
    [(0x28, \<lambda>a b. Load (I32Load a b)), (0x29, \<lambda>a b. Load (I64Load a b)),
     (0x2A, \<lambda>a b. Load (F32Load a b)), (0x2B, \<lambda>a b. Load (F64Load a b)),
     (0x2C, \<lambda>a b. Load (I32Load8S a b)), (0x2D, \<lambda>a b. Load (I32Load8U a b)),
     (0x2E, \<lambda>a b. Load (I32Load16S a b)), (0x2F, \<lambda>a b. Load (I32Load16U a b)),
     (0x30, \<lambda>a b. Load (I64Load8S a b)), (0x31, \<lambda>a b. Load (I64Load8U a b)),
     (0x32, \<lambda>a b. Load (I64Load16S a b)), (0x33, \<lambda>a b. Load (I64Load16U a b)),
     (0x34, \<lambda>a b. Load (I64Load32S a b)), (0x35, \<lambda>a b. Load (I64Load32U a b)),
     (0x36, \<lambda>a b. Store (I32Store a b)), (0x37, \<lambda>a b. Store (I64Store a b)),
     (0x38, \<lambda>a b. Store (F32Store a b)), (0x39, \<lambda>a b. Store (F64Store a b)),
     (0x3A, \<lambda>a b. Store (I32Store8 a b)), (0x3B, \<lambda>a b. Store (I32Store16 a b)),
     (0x3C, \<lambda>a b. Store (I64Store8 a b)), (0x3D, \<lambda>a b. Store (I64Store16 a b)),
     (0x3E, \<lambda>a b. Store (I64Store32 a b))]"

definition constant_opcodes :: "(u8 \<times> instruction parser) list" where
  "constant_opcodes =
    [(0x3F, byte_ignored (ret (Memory MemorySize))), (0x40, byte_ignored (ret (Memory MemoryGrow))),
     (0x41, bind read_leb128_i32 (\<lambda>v. ret (Const (I32Const v)))),
     (0x42, bind read_leb128_i64 (\<lambda>v. ret (Const (I64Const v)))),
     (0x43, bind read_f32 (\<lambda>v. ret (Const (F32Const v)))),
     (0x44, bind read_f64 (\<lambda>v. ret (Const (F64Const v))))]"

definition prefixed_opcodes :: "(u32 \<times> instruction parser) list" where
  "prefixed_opcodes =
    [(0, ret (SaturatingTruncation I32TruncSatF32S)), (1, ret (SaturatingTruncation I32TruncSatF32U)),
     (2, ret (SaturatingTruncation I32TruncSatF64S)), (3, ret (SaturatingTruncation I32TruncSatF64U)),
     (4, ret (SaturatingTruncation I64TruncSatF32S)), (5, ret (SaturatingTruncation I64TruncSatF32U)),
     (6, ret (SaturatingTruncation I64TruncSatF64S)), (7, ret (SaturatingTruncation I64TruncSatF64U)),
     (8, bind read_leb128_u32 (\<lambda>i. byte_ignored (ret (Memory (MemoryInit i))))),
     (9, u32_arg (\<lambda>i. Memory (DataDrop i))),
     (10, byte_ignored (byte_ignored (ret (Memory MemoryCopy)))), (11, byte_ignored (ret (Memory MemoryFill))),
     (12, u32_args (\<lambda>e t. Table (TableInit e t))), (13, u32_arg (\<lambda>e. Table (ElemDrop e))),
     (14, u32_args (\<lambda>d s. Table (TableCopy d s))), (15, u32_arg (\<lambda>t. Table (TableGrow t))),
     (16, u32_arg (\<lambda>t. Table (TableSize t))), (17, u32_arg (\<lambda>t. Table (TableFill t)))]"

definition decode_prefixed :: "instruction parser" where
  "decode_prefixed = bind read_leb128_u32 (\<lambda>sub.
     case map_of prefixed_opcodes sub of Some p \<Rightarrow> p | None \<Rightarrow> fail_at ''Unknown 0xFC sub-opcode'' 0)"

definition opcodes :: "(u8 \<times> instruction parser) list" where
  "opcodes = control_opcodes @ map (\<lambda>(k, f). (k, u32_args f)) memory_opcodes @ constant_opcodes
     @ map (\<lambda>(k, i). (k, ret i)) integer_opcodes @ map (\<lambda>(k, i). (k, ret i)) float_opcodes
     @ [(0xFC, decode_prefixed)]"

definition decode_instruction :: "instruction parser" where
  "decode_instruction = bind read_byte (\<lambda>opcode.
     case map_of opcodes opcode of Some p \<Rightarrow> p | None \<Rightarrow> fail_at ''Unknown opcode'' 1)"

lemma advances_opcodes:
  "(k, p) \<in> set control_opcodes \<Longrightarrow> advances 0 p" "(k, p) \<in> set constant_opcodes \<Longrightarrow> advances 0 p"
  "(j, p) \<in> set prefixed_opcodes \<Longrightarrow> advances 0 p"
  by (auto simp: control_opcodes_def constant_opcodes_def prefixed_opcodes_def intro!: adv)

lemma advances_decode_prefixed: "advances 0 decode_prefixed"
  unfolding decode_prefixed_def by (intro adv) (auto dest: map_of_SomeD advances_opcodes)

lemma advances_all_opcodes: "(k, p) \<in> set opcodes \<Longrightarrow> advances 0 p"
  by (auto simp: opcodes_def intro: advances_opcodes advances_decode_prefixed intro!: adv)

lemma advances_decode_instruction [adv]: "advances 0 decode_instruction"
  unfolding decode_instruction_def by (intro adv) (auto dest: map_of_SomeD advances_all_opcodes)

lemma decode_instruction_progress: "decode_instruction r = (Ok i, r') \<Longrightarrow> rd_remaining r' < rd_remaining r"
  unfolding decode_instruction_def
  by (erule bind_read_byte_progress) (auto split: option.split dest: map_of_SomeD intro: advances_all_opcodes adv)

function decode_loop :: "instruction list \<Rightarrow> instruction list parser" where
  "decode_loop instrs r =
     (if rd_is_empty r then (Ok instrs, r)
      else case decode_instruction r of
          (Ok i, r') \<Rightarrow> decode_loop (instrs @ [i]) r'
        | (Err e, r') \<Rightarrow> (Err e, r')
        | (Panic, r') \<Rightarrow> (Panic, r'))"
  by pat_completeness auto
termination
  by (relation "measure (\<lambda>(instrs, r). rd_remaining r)") (auto dest: sym [THEN decode_instruction_progress])

declare decode_loop.simps [simp del]

definition decode_instructions :: "u8 list \<Rightarrow> (parse_error, instruction list) result" where
  "decode_instructions bytes = fst (decode_loop [] (reader_new bytes))"

text \<open>One round of \<open>parse_init_expr\<close>: nothing at \<open>end\<close>, otherwise an instruction.\<close>

definition init_expr_step :: "instruction option parser" where
  "init_expr_step = bind read_byte (\<lambda>byte.
     if byte = 0x0B then ret None
     else if byte = 0x41 then bind read_leb128_i32 (\<lambda>v. ret (Some (Const (I32Const v))))
     else if byte = 0x42 then bind read_leb128_i64 (\<lambda>v. ret (Some (Const (I64Const v))))
     else if byte = 0x43 then bind read_f32 (\<lambda>v. ret (Some (Const (F32Const v))))
     else if byte = 0x44 then bind read_f64 (\<lambda>v. ret (Some (Const (F64Const v))))
     else if byte = 0x23 then u32_arg (\<lambda>i. Some (Variable (GlobalGet i)))
     else if byte = 0xD0 then byte_ignored (ret (Some (Reference RefNull)))
     else if byte = 0xD2 then u32_arg (\<lambda>i. Some (Reference (RefFunc i)))
     else fail_at ''Invalid opcode in init expression'' 1)"

lemma init_expr_step_progress: "init_expr_step r = (Ok i, r') \<Longrightarrow> rd_remaining r' < rd_remaining r"
  unfolding init_expr_step_def by (erule bind_read_byte_progress) (intro adv)

lemma advances_init_expr_step: "advances 0 init_expr_step"
  unfolding init_expr_step_def by (intro adv)

function init_expr_loop :: "instruction list \<Rightarrow> instruction list parser" where
  "init_expr_loop instrs r =
     (case init_expr_step r of
        (Ok (Some i), r') \<Rightarrow> init_expr_loop (instrs @ [i]) r'
      | (Ok None, r') \<Rightarrow> (Ok instrs, r')
      | (Err e, r') \<Rightarrow> (Err e, r')
      | (Panic, r') \<Rightarrow> (Panic, r'))"
  by pat_completeness auto
termination
  by (relation "measure (\<lambda>(instrs, r). rd_remaining r)") (auto dest: sym [THEN init_expr_step_progress])

declare init_expr_loop.simps [simp del]

definition parse_init_expr :: "instruction list parser" where
  "parse_init_expr = init_expr_loop []"

text \<open>What a loop over a parser keeps, when each round keeps it.\<close>

lemma moved_loop:
  assumes "moved 0 r (Ok a, r1)" and "moved 0 r1 out"
  shows "moved 0 r out"
  using moved_trans [OF assms] by simp

lemma advances_decode_loop: "advances 0 (decode_loop instrs)"
proof (rule advancesI)
  fix r :: reader assume "rd_pos r \<le> length (rd_data r)"
  then show "moved 0 r (decode_loop instrs r)"
  proof (induction instrs r rule: decode_loop.induct)
    case (1 instrs r)
    note m = advancesD [OF advances_decode_instruction 1(2)]
    show ?case
    proof (cases "rd_is_empty r")
      case True
      then show ?thesis using 1(2) by (simp add: decode_loop.simps moved_def)
    next
      case False
      obtain x r1 where x: "decode_instruction r = (x, r1)" by (cases "decode_instruction r")
      then show ?thesis
      proof (cases x)
        case (Ok i)
        then have "moved 0 r (Ok i, r1)" using m x by simp
        from moved_loop [OF this "1.IH" [OF False x [symmetric] Ok moved_pos [OF this]]] show ?thesis
          using False x Ok by (simp add: decode_loop.simps [of instrs])
      qed (use m x False in \<open>simp_all add: decode_loop.simps [of instrs] moved_def\<close>)
    qed
  qed
qed

lemma decode_instructions_error: "decode_instructions bytes = Err e \<Longrightarrow> pe_offset e \<le> length bytes"
  using advancesD [OF advances_decode_loop [of "[]"], of "reader_new bytes"]
  by (cases "decode_loop [] (reader_new bytes)") (simp add: decode_instructions_def moved_def reader_new_def)

lemma advances_parse_init_expr [adv]: "advances 0 parse_init_expr"
proof (rule advancesI)
  fix r :: reader assume ok: "rd_pos r \<le> length (rd_data r)"
  have "moved 0 r (init_expr_loop instrs r)" for instrs
    using ok
  proof (induction instrs r rule: init_expr_loop.induct)
    case (1 instrs r)
    note m = advancesD [OF advances_init_expr_step 1(2)]
    obtain x r1 where x: "init_expr_step r = (x, r1)" by (cases "init_expr_step r")
    show ?case
    proof (cases x)
      case (Ok i)
      then have mi: "moved 0 r (Ok i, r1)" using m x by simp
      show ?thesis
      proof (cases i)
        case None
        then show ?thesis using mi x Ok by (simp add: init_expr_loop.simps moved_def)
      next
        case (Some j)
        from moved_loop [OF mi "1.IH" [OF x [symmetric] Ok Some moved_pos [OF mi]]] show ?thesis
          using x Ok Some by (simp add: init_expr_loop.simps [of instrs])
      qed
    qed (use m x in \<open>simp_all add: init_expr_loop.simps [of instrs] moved_def\<close>)
  qed
  then show "moved 0 r (parse_init_expr r)" by (simp add: parse_init_expr_def)
qed

section \<open>Sections\<close>

definition parse_type_section :: "function_type list parser" where
  "parse_type_section = parse_vec (bind read_byte (\<lambda>form.
     if form \<noteq> 0x60 then fail_at ''Expected functype marker 0x60'' 1
     else bind (parse_vec parse_value_type) (\<lambda>params. bind (parse_vec parse_value_type) (\<lambda>results.
       ret \<lparr>ft_params = params, ft_results = results\<rparr>))))"

definition parse_import_kind :: "u8 \<Rightarrow> import_kind parser" where
  "parse_import_kind byte =
     (if byte = 0x00 then u32_arg ImportFunction
      else if byte = 0x01 then bind parse_table_type (\<lambda>t. ret (ImportTable t))
      else if byte = 0x02 then bind parse_memory_type (\<lambda>m. ret (ImportMemory m))
      else if byte = 0x03 then bind parse_global_type (\<lambda>g. ret (ImportGlobal g))
      else fail_at ''Invalid import kind'' 1)"

definition parse_import_section :: "import list parser" where
  "parse_import_section = parse_vec (bind read_name (\<lambda>module'. bind read_name (\<lambda>name.
     bind read_byte (\<lambda>byte. bind (parse_import_kind byte) (\<lambda>kind.
     ret \<lparr>im_module = module', im_name = name, im_kind = kind\<rparr>)))))"

definition parse_function_section :: "u32 list parser" where
  "parse_function_section = parse_vec read_leb128_u32"

definition parse_table_section :: "table_type list parser" where
  "parse_table_section = parse_vec parse_table_type"

definition parse_memory_section :: "memory_type list parser" where
  "parse_memory_section = parse_vec parse_memory_type"

definition parse_global_section :: "global list parser" where
  "parse_global_section = parse_vec (bind parse_global_type (\<lambda>t. bind parse_init_expr (\<lambda>e.
     ret \<lparr>gl_global_type = t, gl_init_expr = e\<rparr>)))"

definition parse_export_section :: "export list parser" where
  "parse_export_section = parse_vec (bind read_name (\<lambda>name. bind read_byte (\<lambda>byte.
     case map_of [(0x00, ExportFunction), (0x01, ExportTable), (0x02, ExportMemory), (0x03, ExportGlobal)] byte of
       None \<Rightarrow> fail_at ''Invalid export kind'' 1
     | Some kind \<Rightarrow> u32_arg (\<lambda>index. \<lparr>ex_name = name, ex_kind = kind, ex_index = index\<rparr>))))"

definition parse_element :: "element parser" where
  "parse_element = bind read_leb128_u32 (\<lambda>flags.
     if flags = 0 then bind parse_init_expr (\<lambda>off. bind (parse_vec read_leb128_u32) (\<lambda>fs.
       ret \<lparr>el_table_idx = 0, el_offset_expr = off, el_func_indices = fs, el_passive = False\<rparr>))
     else if flags = 1 then byte_ignored (bind (parse_vec read_leb128_u32) (\<lambda>fs.
       ret \<lparr>el_table_idx = 0, el_offset_expr = [], el_func_indices = fs, el_passive = True\<rparr>))
     else if flags = 2 then bind read_leb128_u32 (\<lambda>t. bind parse_init_expr (\<lambda>off.
       byte_ignored (bind (parse_vec read_leb128_u32) (\<lambda>fs.
       ret \<lparr>el_table_idx = t, el_offset_expr = off, el_func_indices = fs, el_passive = False\<rparr>))))
     else fail_at ''Unsupported element segment kind'' 0)"

definition parse_element_section :: "element list parser" where
  "parse_element_section = parse_vec parse_element"

definition parse_body :: "function_body parser" where
  "parse_body = bind read_leb128_u32 (\<lambda>body_size. bind (gets rd_pos) (\<lambda>body_start.
     bind (parse_vec (bind read_leb128_u32 (\<lambda>count. bind parse_value_type (\<lambda>vtype. ret (count, vtype))))) (\<lambda>locals.
     bind (gets rd_pos) (\<lambda>code_start.
       if code_start - body_start > unat body_size then panic
       else bind (rd_bytes (unat body_size - (code_start - body_start))) (\<lambda>code_bytes.
         bind (lift (decode_instructions code_bytes)) (\<lambda>instructions.
         ret \<lparr>fb_locals = locals, fb_instructions = instructions, fb_raw_bytes = code_bytes\<rparr>))))))"

definition parse_code_section :: "function_body list parser" where
  "parse_code_section = parse_vec parse_body"

definition parse_data :: "data_segment parser" where
  "parse_data = bind read_leb128_u32 (\<lambda>flags.
     if flags = 0 then bind parse_init_expr (\<lambda>off. bind read_leb128_u32 (\<lambda>n. bind (rd_bytes (unat n)) (\<lambda>d.
       ret \<lparr>ds_memory_idx = 0, ds_offset_expr = off, ds_data = d, ds_passive = False\<rparr>)))
     else if flags = 1 then bind read_leb128_u32 (\<lambda>n. bind (rd_bytes (unat n)) (\<lambda>d.
       ret \<lparr>ds_memory_idx = 0, ds_offset_expr = [], ds_data = d, ds_passive = True\<rparr>))
     else if flags = 2 then bind read_leb128_u32 (\<lambda>m. bind parse_init_expr (\<lambda>off. bind read_leb128_u32 (\<lambda>n.
       bind (rd_bytes (unat n)) (\<lambda>d.
       ret \<lparr>ds_memory_idx = m, ds_offset_expr = off, ds_data = d, ds_passive = False\<rparr>))))
     else fail_at ''Unsupported data segment kind'' 0)"

definition parse_data_section :: "data_segment list parser" where
  "parse_data_section = parse_vec parse_data"

lemma advances_decode_bytes [adv]:
  assumes "\<And>bs xs. advances 0 (f bs xs)"
  shows "advances 0 (bind (rd_bytes n) (\<lambda>bs. bind (lift (decode_instructions bs)) (f bs)))"
proof (rule advancesI)
  fix r :: reader assume ok: "rd_pos r \<le> length (rd_data r)"
  show "moved 0 r (bind (rd_bytes n) (\<lambda>bs. bind (lift (decode_instructions bs)) (f bs)) r)"
  proof (cases "rd_pos r + n > length (rd_data r)")
    case True
    then show ?thesis using ok by (simp add: bind_apply rd_bytes_def moved_def parse_error_new_def)
  next
    case False
    let ?bs = "get_slice (rd_data r) (rd_pos r) n" and ?r = "r\<lparr>rd_pos := rd_pos r + n\<rparr>"
    have m: "moved 0 r (Ok a, ?r)" for a :: unit using False by (simp add: moved_def)
    show ?thesis
    proof (cases "decode_instructions ?bs")
      case (Ok xs)
      have "moved 0 ?r (f ?bs xs ?r)" by (rule advancesD [OF assms]) (use False in simp)
      from moved_loop [OF m this] show ?thesis using False Ok by (simp add: bind_apply rd_bytes_def)
    qed (use False decode_instructions_error [of ?bs] in \<open>auto simp: bind_apply rd_bytes_def moved_def\<close>)
  qed
qed

lemma advances_sections [adv]:
  "advances 0 parse_type_section" "advances 0 (parse_import_kind b)" "advances 0 parse_import_section"
  "advances 0 parse_function_section"
  "advances 0 parse_table_section" "advances 0 parse_memory_section" "advances 0 parse_global_section"
  "advances 0 parse_export_section" "advances 0 parse_element" "advances 0 parse_element_section"
  "advances 0 parse_body" "advances 0 parse_code_section" "advances 0 parse_data" "advances 0 parse_data_section"
  unfolding parse_type_section_def parse_import_kind_def parse_import_section_def parse_function_section_def parse_table_section_def
    parse_memory_section_def parse_global_section_def parse_export_section_def parse_element_def parse_element_section_def
    parse_body_def parse_code_section_def parse_data_def parse_data_section_def
  by (intro adv)+

section \<open>The module\<close>

definition WASM_MAGIC :: "u8 list" where
  "WASM_MAGIC = [0x00, 0x61, 0x73, 0x6D]"

definition WASM_VERSION :: u32 where
  "WASM_VERSION = 1"

definition parse_header :: "unit parser" where
  "parse_header = bind (rd_bytes 4) (\<lambda>magic.
     if magic \<noteq> WASM_MAGIC then rd_fail ''Invalid WASM magic number'' 0
     else bind read_u32_le (\<lambda>version.
       if version \<noteq> WASM_VERSION then rd_fail ''Unsupported WASM version'' 4 else ret ()))"

text \<open>The module name of the custom section \<open>name\<close>; every error inside it is dropped (\<open>.ok()?\<close>).\<close>

definition custom_name_step :: "string option parser" where
  "custom_name_step = bind read_byte (\<lambda>subsection_id. bind read_leb128_u32 (\<lambda>subsection_size.
     if subsection_id = 0 then bind read_name (\<lambda>name. ret (Some name))
     else bind (rd_skip (unat subsection_size)) (\<lambda>_. ret None)))"

lemma custom_name_step_progress: "custom_name_step r = (Ok x, r') \<Longrightarrow> rd_remaining r' < rd_remaining r"
  unfolding custom_name_step_def by (erule bind_read_byte_progress) (intro adv)

function custom_name_loop :: "reader \<Rightarrow> (parse_error, string option) result" where
  "custom_name_loop r =
     (if rd_is_empty r then Ok None
      else case custom_name_step r of
          (Ok (Some name), _) \<Rightarrow> Ok (Some name)
        | (Ok None, r') \<Rightarrow> custom_name_loop r'
        | (Err _, _) \<Rightarrow> Ok None
        | (Panic, _) \<Rightarrow> Panic)"
  by pat_completeness auto
termination
  by (relation "measure rd_remaining") (auto dest: sym [THEN custom_name_step_progress])

declare custom_name_loop.simps [simp del]

definition try_parse_custom_name :: "u8 list \<Rightarrow> usize \<Rightarrow> usize \<Rightarrow> (parse_error, string option) result" where
  "try_parse_custom_name data start size' =
     (if start + size' > length data then Ok None
      else case read_name (reader_new (get_slice data start size')) of
          (Ok name, r) \<Rightarrow> if name = ''name'' then custom_name_loop r else Ok None
        | (Err _, _) \<Rightarrow> Ok None
        | (Panic, _) \<Rightarrow> Panic)"

datatype section_id =
    SecCustom | SecType | SecImport | SecFunction | SecTable | SecMemory | SecGlobal | SecExport | SecStart
  | SecElement | SecCode | SecData | SecDataCount

definition section_from_byte :: "u8 \<Rightarrow> section_id option" where
  "section_from_byte = map_of [(0, SecCustom), (1, SecType), (2, SecImport), (3, SecFunction), (4, SecTable),
     (5, SecMemory), (6, SecGlobal), (7, SecExport), (8, SecStart), (9, SecElement), (10, SecCode), (11, SecData),
     (12, SecDataCount)]"

text \<open>An arm of the match on the section: a reader on the section's bytes, the section's parser, and the
  skip over the section.\<close>

definition in_section :: "usize \<Rightarrow> usize \<Rightarrow> 'a parser \<Rightarrow> ('a \<Rightarrow> 'b) \<Rightarrow> 'b parser" where
  "in_section start size' p f =
     bind (\<lambda>r. (case sub_reader r start size' of Ok sr \<Rightarrow> fst (p sr) | Err e \<Rightarrow> Err e | Panic \<Rightarrow> Panic, r))
       (\<lambda>a. bind (rd_skip size') (\<lambda>_. ret (f a)))"

definition parse_section_body :: "u8 list \<Rightarrow> wasm_module \<Rightarrow> u8 \<Rightarrow> wasm_module parser" where
  "parse_section_body bytes md section_id_byte = bind read_leb128_u32 (\<lambda>section_size.
     bind (gets rd_pos) (\<lambda>start. let n = unat section_size in
       case section_from_byte section_id_byte of
         None \<Rightarrow> bind (rd_skip n) (\<lambda>_. ret md)
       | Some sec \<Rightarrow> (case sec of
           SecCustom \<Rightarrow> bind (lift (try_parse_custom_name bytes start n)) (\<lambda>custom_name.
             bind (rd_skip n) (\<lambda>_. ret (case custom_name of Some nm \<Rightarrow> md\<lparr>mo_name := Some nm\<rparr> | None \<Rightarrow> md)))
         | SecType \<Rightarrow> in_section start n parse_type_section (\<lambda>x. md\<lparr>mo_types := x\<rparr>)
         | SecImport \<Rightarrow> in_section start n parse_import_section (\<lambda>x. md\<lparr>mo_imports := x\<rparr>)
         | SecFunction \<Rightarrow> in_section start n parse_function_section (\<lambda>x. md\<lparr>mo_functions := x\<rparr>)
         | SecTable \<Rightarrow> in_section start n parse_table_section (\<lambda>x. md\<lparr>mo_tables := x\<rparr>)
         | SecMemory \<Rightarrow> in_section start n parse_memory_section (\<lambda>x. md\<lparr>mo_memories := x\<rparr>)
         | SecGlobal \<Rightarrow> in_section start n parse_global_section (\<lambda>x. md\<lparr>mo_globals := x\<rparr>)
         | SecExport \<Rightarrow> in_section start n parse_export_section (\<lambda>x. md\<lparr>mo_exports := x\<rparr>)
         | SecStart \<Rightarrow> in_section start n read_leb128_u32 (\<lambda>x. md\<lparr>mo_start := Some x\<rparr>)
         | SecElement \<Rightarrow> in_section start n parse_element_section (\<lambda>x. md\<lparr>mo_elements := x\<rparr>)
         | SecCode \<Rightarrow> in_section start n parse_code_section (\<lambda>x. md\<lparr>mo_code := x\<rparr>)
         | SecData \<Rightarrow> in_section start n parse_data_section (\<lambda>x. md\<lparr>mo_data := x\<rparr>)
         | SecDataCount \<Rightarrow> in_section start n read_leb128_u32 (\<lambda>x. md\<lparr>mo_data_count := Some x\<rparr>))))"

definition parse_section :: "u8 list \<Rightarrow> wasm_module \<Rightarrow> wasm_module parser" where
  "parse_section bytes md = bind read_byte (parse_section_body bytes md)"

lemma moved_in_section:
  fixes p :: "'a parser"
  assumes p: "advances 0 p" and ok: "rd_pos r \<le> length (rd_data r)" and start: "start \<le> length (rd_data r)"
  shows "moved 0 r (in_section start size' p f r)"
proof -
  let ?m = "\<lambda>r. (case sub_reader r start size' of Ok sr \<Rightarrow> fst (p sr) | Err e \<Rightarrow> Err e | Panic \<Rightarrow> Panic, r)"
  have "moved 0 r (?m r)"
  proof (cases "start + size' \<le> length (rd_data r)")
    case True
    let ?sr = "reader_new (get_slice (rd_data r) start size')"
    have "moved 0 ?sr (p ?sr)" by (rule advancesD [OF p]) (simp add: reader_new_def)
    then show ?thesis
      using True ok by (cases "p ?sr") (auto simp: sub_reader_def moved_def reader_new_def split: result.splits)
  qed (use ok start in \<open>simp add: sub_reader_def moved_def parse_error_new_def\<close>)
  then have "moved (0 + 0) r (bind ?m (\<lambda>a. bind (rd_skip size') (\<lambda>_. ret (f a))) r)"
  proof (rule moved_bind)
    fix a :: 'a and r1 assume "moved 0 r (Ok a, r1)"
    then show "moved 0 r1 (bind (rd_skip size') (\<lambda>_. ret (f a)) r1)"
      by (intro advancesD [where m = "bind (rd_skip size') (\<lambda>_. ret (f a))"] adv moved_pos)
  qed
  then show ?thesis by (simp add: in_section_def)
qed

lemma try_parse_custom_name_no_error: "try_parse_custom_name data start size' \<noteq> Err e"
proof -
  have "custom_name_loop r \<noteq> Err e" for r
  proof (induction r rule: custom_name_loop.induct)
    case (1 r)
    then show ?case
      by (subst custom_name_loop.simps) (auto split: prod.split result.split option.split)
  qed
  then show ?thesis by (auto simp: try_parse_custom_name_def split: prod.split result.split)
qed

lemma advances_at_pos:
  "(\<And>r. rd_pos r \<le> length (rd_data r) \<Longrightarrow> moved 0 r (g (rd_pos r) r)) \<Longrightarrow> advances 0 (bind (gets rd_pos) g)"
  by (rule advancesI) (simp add: bind_apply)

lemma moved_custom_section:
  assumes "rd_pos r \<le> length (rd_data r)"
  shows "moved 0 r (bind (lift (try_parse_custom_name bytes start n)) (\<lambda>x. bind (rd_skip n) (\<lambda>_. ret (f x))) r)"
proof (rule moved_bind [of 0 _ _ 0, simplified])
  show "moved 0 r (lift (try_parse_custom_name bytes start n) r)"
    using assms try_parse_custom_name_no_error [of bytes start n] by (cases "try_parse_custom_name bytes start n") (auto simp: moved_def)
  fix x :: "string option" and r1 assume "moved 0 r (Ok x, r1)"
  then show "moved 0 r1 (bind (rd_skip n) (\<lambda>_. ret (f x)) r1)"
    by (intro advancesD [where m = "bind (rd_skip n) (\<lambda>_. ret (f x))"] adv moved_pos)
qed

lemma moved_skip:
  assumes "rd_pos r \<le> length (rd_data r)" shows "moved 0 r (bind (rd_skip n) (\<lambda>_. ret x) r)"
  using assms by (intro advancesD [where m = "bind (rd_skip n) (\<lambda>_. ret x)"] adv)

lemma advances_parse_section_body: "advances 0 (parse_section_body bytes md b)"
  unfolding parse_section_body_def
  by (rule advances_bind_0, rule adv, rule advances_at_pos)
     (auto simp: Let_def split: option.split section_id.split intro!: moved_in_section moved_custom_section moved_skip adv)

lemma advances_parse_section: "advances 0 (parse_section bytes md)"
  unfolding parse_section_def by (intro adv advances_parse_section_body)

lemma parse_section_progress: "parse_section bytes md r = (Ok md', r') \<Longrightarrow> rd_remaining r' < rd_remaining r"
  unfolding parse_section_def by (erule bind_read_byte_progress) (rule advances_parse_section_body)

function parse_sections :: "u8 list \<Rightarrow> wasm_module \<Rightarrow> wasm_module parser" where
  "parse_sections bytes md r =
     (if rd_is_empty r then (Ok md, r)
      else case parse_section bytes md r of
          (Ok md', r') \<Rightarrow> parse_sections bytes md' r'
        | (Err e, r') \<Rightarrow> (Err e, r')
        | (Panic, r') \<Rightarrow> (Panic, r'))"
  by pat_completeness auto
termination
  by (relation "measure (\<lambda>(bytes, md, r). rd_remaining r)") (auto dest: sym [THEN parse_section_progress])

declare parse_sections.simps [simp del]

definition parse :: "u8 list \<Rightarrow> (parse_error, wasm_module) result" where
  "parse bytes = fst (seq parse_header (parse_sections bytes module_empty) (reader_new bytes))"

section \<open>Errors\<close>

lemma moved_parse_sections: "rd_pos r \<le> length (rd_data r) \<Longrightarrow> moved 0 r (parse_sections bytes md r)"
proof (induction bytes md r rule: parse_sections.induct)
  case (1 bytes md r)
  note m = advancesD [OF advances_parse_section "1.prems", of bytes md]
  show ?case
  proof (cases "rd_is_empty r")
    case True
    then show ?thesis using "1.prems" by (simp add: parse_sections.simps moved_def)
  next
    case False
    obtain x r1 where x: "parse_section bytes md r = (x, r1)" by (cases "parse_section bytes md r")
    show ?thesis
    proof (cases x)
      case (Ok md')
      then have "moved 0 r (Ok md', r1)" using m x by simp
      from moved_loop [OF this "1.IH" [OF False x [symmetric] Ok moved_pos [OF this]]] show ?thesis
        using False x Ok by (simp add: parse_sections.simps [of bytes md])
    qed (use m x False in \<open>simp_all add: parse_sections.simps [of bytes md] moved_def\<close>)
  qed
qed

lemma moved_parse_header: "moved 0 (reader_new bytes) (parse_header (reader_new bytes))"
  by (auto simp: parse_header_def bind_apply rd_bytes_def rd_fail_def read_u32_le_def reader_new_def moved_def parse_error_new_def)



end
