(* ===== verification/Wasm_Validate.thy ===== *)
theory Wasm_Validate
  imports Wasm_Parser
begin

text \<open>
  The module validator (runtime/src/parser.rs, \<open>ModuleValidator\<close>) and the entry points that parse and
  validate (runtime/src/module.rs, \<open>from_bytes\<close> and \<open>validate\<close>). The validator's passes, with their early
  returns and messages, are shown to accept exactly the modules that satisfy \<open>module_valid\<close>.
\<close>

section \<open>The passes\<close>

definition invalid :: "string \<Rightarrow> (parse_error, unit) result" where
  "invalid message = Err (parse_error_new message 0)"

text \<open>\<open>for x in xs { check(x)?; }\<close>\<close>

fun check_each :: "('a \<Rightarrow> (parse_error, unit) result) \<Rightarrow> 'a list \<Rightarrow> (parse_error, unit) result" where
  "check_each f [] = Ok ()"
| "check_each f (x # xs) = and_then (f x) (\<lambda>_. check_each f xs)"

definition validate_functions :: "wasm_module \<Rightarrow> (parse_error, unit) result" where
  "validate_functions md =
     and_then (check_each (\<lambda>(i, t).
         if unat t \<ge> length (mo_types md)
         then invalid (''Function '' @ show_nat i @ '' references type index '' @ show_nat (unat t) @ '' but only ''
                        @ show_nat (length (mo_types md)) @ '' types defined'')
         else Ok ()) (List.enumerate 0 (mo_functions md))) (\<lambda>_.
     if length (mo_code md) \<noteq> length (mo_functions md)
     then invalid (''Function count ('' @ show_nat (length (mo_functions md)) @ '') does not match code count (''
                    @ show_nat (length (mo_code md)) @ '')'')
     else Ok ())"

definition is_table_import :: "import \<Rightarrow> bool" where
  "is_table_import i = (case im_kind i of ImportTable _ \<Rightarrow> True | _ \<Rightarrow> False)"

definition is_memory_import :: "import \<Rightarrow> bool" where
  "is_memory_import i = (case im_kind i of ImportMemory _ \<Rightarrow> True | _ \<Rightarrow> False)"

definition is_global_import :: "import \<Rightarrow> bool" where
  "is_global_import i = (case im_kind i of ImportGlobal _ \<Rightarrow> True | _ \<Rightarrow> False)"

definition total_functions :: "wasm_module \<Rightarrow> usize" where
  "total_functions md = length (filter is_function_import (mo_imports md)) + length (mo_functions md)"

definition total_tables :: "wasm_module \<Rightarrow> usize" where
  "total_tables md = length (filter is_table_import (mo_imports md)) + length (mo_tables md)"

definition total_memories :: "wasm_module \<Rightarrow> usize" where
  "total_memories md = length (filter is_memory_import (mo_imports md)) + length (mo_memories md)"

definition total_globals :: "wasm_module \<Rightarrow> usize" where
  "total_globals md = length (filter is_global_import (mo_imports md)) + length (mo_globals md)"

definition validate_memories :: "wasm_module \<Rightarrow> (parse_error, unit) result" where
  "validate_memories md =
     (if length (mo_memories md) + length (filter is_memory_import (mo_imports md)) > 1
      then invalid ''Multiple memories not supported in MVP''
      else check_each (\<lambda>mem.
        if (case mt_max mem of Some mx \<Rightarrow> mt_min mem > mx | None \<Rightarrow> False) then invalid ''Memory min exceeds max''
        else if mt_min mem > 65536 then invalid ''Memory min too large''
        else Ok ()) (mo_memories md))"

definition validate_tables :: "wasm_module \<Rightarrow> (parse_error, unit) result" where
  "validate_tables md =
     (if length (mo_tables md) + length (filter is_table_import (mo_imports md)) > 1
      then invalid ''Multiple tables not supported in MVP''
      else check_each (\<lambda>table.
        if (case tt_max table of Some mx \<Rightarrow> tt_min table > mx | None \<Rightarrow> False) then invalid ''Table min exceeds max''
        else Ok ()) (mo_tables md))"

text \<open>The two nested loops over pairs of exports.\<close>

definition check_export_names :: "export list \<Rightarrow> (parse_error, unit) result" where
  "check_export_names exports =
     check_each (\<lambda>i. check_each (\<lambda>j.
       if ex_name (exports ! i) = ex_name (exports ! j)
       then invalid (''Duplicate export name: '' @ ex_name (exports ! i)) else Ok ())
       [i + 1 ..< length exports]) [0 ..< length exports]"

definition export_limit :: "wasm_module \<Rightarrow> export_kind \<Rightarrow> usize" where
  "export_limit md kind =
     (case kind of ExportFunction \<Rightarrow> total_functions md | ExportTable \<Rightarrow> total_tables md
      | ExportMemory \<Rightarrow> total_memories md | ExportGlobal \<Rightarrow> total_globals md)"

definition validate_exports :: "wasm_module \<Rightarrow> (parse_error, unit) result" where
  "validate_exports md =
     and_then (check_export_names (mo_exports md)) (\<lambda>_.
     check_each (\<lambda>e.
       if unat (ex_index e) \<ge> export_limit md (ex_kind e)
       then invalid ([CHR ''E'', CHR ''x'', CHR ''p'', CHR ''o'', CHR ''r'', CHR ''t'', CHR '' '', CHR 0x27] @ ex_name e
              @ [CHR 0x27] @ '' index '' @ show_nat (unat (ex_index e)) @ '' out of range (max ''
              @ show_nat (export_limit md (ex_kind e)) @ '')'')
       else Ok ()) (mo_exports md))"

definition validate_start :: "wasm_module \<Rightarrow> (parse_error, unit) result" where
  "validate_start md =
     (case mo_start md of
        None \<Rightarrow> Ok ()
      | Some i \<Rightarrow>
          if unat i \<ge> total_functions md
          then invalid (''Start function index '' @ show_nat (unat i) @ '' out of range ('' @ show_nat (total_functions md) @ '')'')
          else Ok ())"

definition validate_elements :: "wasm_module \<Rightarrow> (parse_error, unit) result" where
  "validate_elements md =
     check_each (\<lambda>(i, elem).
       if \<not> el_passive elem \<and> unat (el_table_idx elem) \<ge> total_tables md
       then invalid (''Element segment '' @ show_nat i @ '' references table '' @ show_nat (unat (el_table_idx elem))
              @ '' but only '' @ show_nat (total_tables md) @ '' tables'')
       else check_each (\<lambda>f.
         if unat f \<ge> total_functions md
         then invalid (''Element segment '' @ show_nat i @ '' references function '' @ show_nat (unat f) @ '' out of range'')
         else Ok ()) (el_func_indices elem)) (List.enumerate 0 (mo_elements md))"

definition validate_data :: "wasm_module \<Rightarrow> (parse_error, unit) result" where
  "validate_data md =
     check_each (\<lambda>(i, seg).
       if \<not> ds_passive seg \<and> unat (ds_memory_idx seg) \<ge> total_memories md
       then invalid (''Data segment '' @ show_nat i @ '' references memory '' @ show_nat (unat (ds_memory_idx seg))
              @ '' but only '' @ show_nat (total_memories md) @ '' memories'')
       else Ok ()) (List.enumerate 0 (mo_data md))"

definition validate_module :: "wasm_module \<Rightarrow> (parse_error, unit) result" where
  "validate_module md =
     and_then (validate_functions md) (\<lambda>_. and_then (validate_memories md) (\<lambda>_. and_then (validate_tables md) (\<lambda>_.
     and_then (validate_exports md) (\<lambda>_. and_then (validate_start md) (\<lambda>_. and_then (validate_elements md) (\<lambda>_.
     validate_data md))))))"

section \<open>Entry points\<close>

datatype runtime_error =
    RtCompilationError string | RtInstantiationError string | RtExecutionError string | RtMemoryError string
  | RtWasiError string | RtInvalidBinary string | RtResourceLimit string | RtPermissionDenied string

definition display_parse_error :: "parse_error \<Rightarrow> string" where
  "display_parse_error e = ''Parse error at offset 0x'' @ show_hex (pe_offset e) @ '': '' @ pe_message e"

definition validate_structure :: "wasm_module \<Rightarrow> (runtime_error, unit) result" where
  "validate_structure md = map_err (\<lambda>e. RtInvalidBinary (''Validation: '' @ display_parse_error e)) (validate_module md)"

definition from_bytes :: "u8 list \<Rightarrow> (runtime_error, wasm_module) result" where
  "from_bytes bytes =
     and_then (map_err (\<lambda>e. RtInvalidBinary (display_parse_error e)) (parse bytes)) (\<lambda>md.
     and_then (validate_structure md) (\<lambda>_. Ok md))"

definition module_validate :: "u8 list \<Rightarrow> (runtime_error, unit) result" where
  "module_validate bytes =
     (if length bytes < 8 then Err (RtInvalidBinary ''Binary too small'')
      else if take 4 bytes \<noteq> [0x00, 0x61, 0x73, 0x6D] then Err (RtInvalidBinary ''Invalid magic number'')
      else let version = from_le (take 4 (drop 4 bytes)) :: u32 in
        if version \<noteq> 1 then Err (RtInvalidBinary (''Unsupported WASM version: '' @ show_nat (unat version)))
        else and_then (map_err (\<lambda>e. RtInvalidBinary (display_parse_error e)) (parse bytes)) (\<lambda>md. validate_structure md))"

section \<open>What is accepted\<close>

definition limits_ok :: "u32 \<Rightarrow> u32 option \<Rightarrow> bool" where
  "limits_ok mn mx \<longleftrightarrow> (\<forall>m. mx = Some m \<longrightarrow> mn \<le> m)"

definition module_valid :: "wasm_module \<Rightarrow> bool" where
  "module_valid md \<longleftrightarrow>
     (\<forall>t \<in> set (mo_functions md). unat t < length (mo_types md)) \<and> length (mo_code md) = length (mo_functions md)
     \<and> total_memories md \<le> 1 \<and> (\<forall>m \<in> set (mo_memories md). limits_ok (mt_min m) (mt_max m) \<and> mt_min m \<le> 65536)
     \<and> total_tables md \<le> 1 \<and> (\<forall>t \<in> set (mo_tables md). limits_ok (tt_min t) (tt_max t))
     \<and> distinct (map ex_name (mo_exports md)) \<and> (\<forall>e \<in> set (mo_exports md). unat (ex_index e) < export_limit md (ex_kind e))
     \<and> (\<forall>i. mo_start md = Some i \<longrightarrow> unat i < total_functions md)
     \<and> (\<forall>e \<in> set (mo_elements md). (el_passive e \<or> unat (el_table_idx e) < total_tables md)
          \<and> (\<forall>f \<in> set (el_func_indices e). unat f < total_functions md))
     \<and> (\<forall>d \<in> set (mo_data md). ds_passive d \<or> unat (ds_memory_idx d) < total_memories md)"

lemma check_each_Ok [simp]: "check_each f xs = Ok () \<longleftrightarrow> (\<forall>x \<in> set xs. f x = Ok ())"
  by (induction xs) auto

lemma invalid_not_Ok [simp]: "invalid m \<noteq> Ok ()"
  by (simp add: invalid_def)

lemma set_enumerate_all: "(\<forall>(i, x) \<in> set (List.enumerate 0 xs). P x) \<longleftrightarrow> (\<forall>x \<in> set xs. P x)"
  by (auto simp: nth_enumerate_eq all_set_conv_all_nth)

lemma check_enumerate_Ok:
  assumes "\<And>i x. g i x = Ok () \<longleftrightarrow> P x"
  shows "check_each (\<lambda>(i, x). g i x) (List.enumerate 0 xs) = Ok () \<longleftrightarrow> (\<forall>x \<in> set xs. P x)"
  using assms set_enumerate_all [of xs P] by (simp add: case_prod_beta)

lemma unit_ex: "(\<exists>u :: unit. P u) \<longleftrightarrow> P ()"
  by auto

lemma if_invalid [simp]: "(if c then invalid m else r) = Ok () \<longleftrightarrow> \<not> c \<and> r = Ok ()"
  by simp

lemma check_export_names_Ok: "check_export_names es = Ok () \<longleftrightarrow> distinct (map ex_name es)"
proof -
  have "check_export_names es = Ok () \<longleftrightarrow> (\<forall>i < length es. \<forall>j. i < j \<and> j < length es \<longrightarrow> ex_name (es ! i) \<noteq> ex_name (es ! j))"
    by (auto simp: check_export_names_def)
  also have "\<dots> \<longleftrightarrow> distinct (map ex_name es)"
    by (auto simp: distinct_conv_nth) (metis nat_neq_iff)
  finally show ?thesis .
qed

lemma validate_passes:
  "validate_functions md = Ok () \<longleftrightarrow>
     (\<forall>t \<in> set (mo_functions md). unat t < length (mo_types md)) \<and> length (mo_code md) = length (mo_functions md)"
  "validate_memories md = Ok () \<longleftrightarrow>
     total_memories md \<le> 1 \<and> (\<forall>m \<in> set (mo_memories md). limits_ok (mt_min m) (mt_max m) \<and> mt_min m \<le> 65536)"
  "validate_tables md = Ok () \<longleftrightarrow> total_tables md \<le> 1 \<and> (\<forall>t \<in> set (mo_tables md). limits_ok (tt_min t) (tt_max t))"
  "validate_exports md = Ok () \<longleftrightarrow>
     distinct (map ex_name (mo_exports md)) \<and> (\<forall>e \<in> set (mo_exports md). unat (ex_index e) < export_limit md (ex_kind e))"
  "validate_start md = Ok () \<longleftrightarrow> (\<forall>i. mo_start md = Some i \<longrightarrow> unat i < total_functions md)"
  "validate_elements md = Ok () \<longleftrightarrow>
     (\<forall>e \<in> set (mo_elements md). (el_passive e \<or> unat (el_table_idx e) < total_tables md)
          \<and> (\<forall>f \<in> set (el_func_indices e). unat f < total_functions md))"
  "validate_data md = Ok () \<longleftrightarrow> (\<forall>d \<in> set (mo_data md). ds_passive d \<or> unat (ds_memory_idx d) < total_memories md)"
proof -
  show "validate_functions md = Ok () \<longleftrightarrow>
     (\<forall>t \<in> set (mo_functions md). unat t < length (mo_types md)) \<and> length (mo_code md) = length (mo_functions md)"
    by (subst validate_functions_def, subst and_then_Ok, subst unit_ex, subst check_enumerate_Ok [where P = "\<lambda>t. unat t < length (mo_types md)"])
       auto
  show "validate_memories md = Ok () \<longleftrightarrow>
     total_memories md \<le> 1 \<and> (\<forall>m \<in> set (mo_memories md). limits_ok (mt_min m) (mt_max m) \<and> mt_min m \<le> 65536)"
    by (auto simp: validate_memories_def total_memories_def limits_ok_def not_less split: option.splits)
  show "validate_tables md = Ok () \<longleftrightarrow> total_tables md \<le> 1 \<and> (\<forall>t \<in> set (mo_tables md). limits_ok (tt_min t) (tt_max t))"
    by (auto simp: validate_tables_def total_tables_def limits_ok_def not_less split: option.splits)
  show "validate_exports md = Ok () \<longleftrightarrow>
     distinct (map ex_name (mo_exports md)) \<and> (\<forall>e \<in> set (mo_exports md). unat (ex_index e) < export_limit md (ex_kind e))"
    by (auto simp: validate_exports_def check_export_names_Ok not_le split: if_splits)
  show "validate_start md = Ok () \<longleftrightarrow> (\<forall>i. mo_start md = Some i \<longrightarrow> unat i < total_functions md)"
    by (auto simp: validate_start_def not_le split: option.splits)
  show "validate_elements md = Ok () \<longleftrightarrow>
     (\<forall>e \<in> set (mo_elements md). (el_passive e \<or> unat (el_table_idx e) < total_tables md)
          \<and> (\<forall>f \<in> set (el_func_indices e). unat f < total_functions md))"
    unfolding validate_elements_def by (rule check_enumerate_Ok) (auto simp: not_le split: if_splits)
  show "validate_data md = Ok () \<longleftrightarrow> (\<forall>d \<in> set (mo_data md). ds_passive d \<or> unat (ds_memory_idx d) < total_memories md)"
    unfolding validate_data_def by (rule check_enumerate_Ok) (auto simp: not_le)
qed

lemma validate_iff: "validate_module md = Ok () \<longleftrightarrow> module_valid md"
  by (simp add: validate_module_def validate_passes module_valid_def conj_assoc)

text \<open>C29. Validation: the validator accepts a module exactly when its indices are in range, its code and function
  sections agree, its limits are consistent, it has at most one memory and one table and no export name
  occurs twice.\<close>

theorem validate_module_iff: "validate_module md = Ok () \<longleftrightarrow> module_valid md"
  by (rule validate_iff)

lemma parse_header_cases:
  assumes "parse bytes = Ok md" 
  shows "8 \<le> length bytes \<and> take 4 bytes = WASM_MAGIC \<and> from_le (take 4 (drop 4 bytes)) = WASM_VERSION"
  using assms
  by (auto simp: parse_def seq_def bind_apply parse_header_def rd_bytes_def reader_new_def get_slice_def read_u32_le_def rd_fail_def
      split: if_splits)

text \<open>Loading: a module that \<open>from_bytes\<close> returns is what the parser read and is valid, and \<open>validate\<close>
  accepts exactly the inputs that \<open>from_bytes\<close> loads.\<close>

theorem from_bytes_valid:
  "(from_bytes bytes = Ok md \<longleftrightarrow> parse bytes = Ok md \<and> module_valid md)
   \<and> (module_validate bytes = Ok () \<longleftrightarrow> (\<exists>md. from_bytes bytes = Ok md))"
  using parse_header_cases [of bytes]
  by (auto simp: from_bytes_def module_validate_def validate_structure_def validate_iff Let_def WASM_MAGIC_def WASM_VERSION_def)

end
