(* ===== verification/Wasm_Engine.thy ===== *)
theory Wasm_Engine
  imports Wasm_Exec_Props Wasm_Validate
begin

text \<open>
  Instances and the engine (runtime/src/instance.rs, runtime/src/engine.rs): what \<open>Engine::execute\<close> does
  with the bytes of a module, from parsing over validation and instantiation to the call of an
  export. The properties join those of the parser, of instantiation and of the executor.
\<close>

section \<open>Traps as text\<close>

fun show_value_type :: "value_type \<Rightarrow> string" where
  "show_value_type TI32 = ''I32''" | "show_value_type TI64 = ''I64''" | "show_value_type TF32 = ''F32''"
| "show_value_type TF64 = ''F64''" | "show_value_type TV128 = ''V128''" | "show_value_type TFuncRef = ''FuncRef''"
| "show_value_type TExternRef = ''ExternRef''"

fun display_trap :: "trap_error \<Rightarrow> string" where
  "display_trap DivisionByZero = ''integer divide by zero''"
| "display_trap IntegerOverflow = ''integer overflow''"
| "display_trap InvalidConversionToInteger = ''invalid conversion to integer''"
| "display_trap (MemoryOutOfBounds off len sz) =
     ''out of bounds memory access: '' @ show_nat off @ '' + '' @ show_nat len @ '' > '' @ show_nat sz"
| "display_trap StackOverflow = ''call stack exhausted''"
| "display_trap StackUnderflow = ''stack underflow''"
| "display_trap CallStackOverflow = ''call stack overflow''"
| "display_trap UnreachableTrap = ''unreachable''"
| "display_trap (TypeMismatch expected got) = ''type mismatch: expected '' @ expected @ '', got '' @ show_value_type got"
| "display_trap (UndefinedElement i) = ''undefined element: table['' @ show_nat (unat i) @ '']''"
| "display_trap (IndirectCallTypeMismatch expected actual) =
     ''indirect call type mismatch: expected type '' @ show_nat (unat expected) @ '', got '' @ show_nat (unat actual)"
| "display_trap (UninitializedElement i) = ''uninitialized element: '' @ show_nat (unat i)"
| "display_trap (ExportNotFound name) = ''export not found: '' @ name"
| "display_trap (FunctionNotFound i) = ''function not found: '' @ show_nat (unat i)"
| "display_trap FuelExhausted = ''fuel exhausted''"
| "display_trap (ProcessExit code) = ''process exit with code '' @ show_int (sint code)"
| "display_trap (HostError msg) = ''host error: '' @ msg"
| "display_trap (ExecutionError msg) = ''execution error: '' @ msg"

section \<open>Instances\<close>

text \<open>The function imports, in the order of their keys; a host function is a number the host environment
  interprets.\<close>

type_synonym host_imports = "((string \<times> string) \<times> nat) list"

definition to_exec_host_functions :: "host_imports \<Rightarrow> host_function list" where
  "to_exec_host_functions functions =
     map (\<lambda>((m, n), f). \<lparr>hf_module = m, hf_name = n, hf_func = f, hf_type_idx = None\<rparr>) functions"

record data_store =
  st_data :: "u64 \<rightharpoonup> u8 list"
  st_next_key :: u64

definition store_new :: data_store where
  "store_new = \<lparr>st_data = Map.empty, st_next_key = 0\<rparr>"

definition store_put :: "u8 list \<Rightarrow> (data_store, unit, u64) st" where
  "store_put d s =
     (if st_next_key s = - 1 then (Panic, s)
      else (Ok (st_next_key s), s\<lparr>st_next_key := st_next_key s + 1, st_data := (st_data s)(st_next_key s \<mapsto> d)\<rparr>))"

abbreviation store_get :: "data_store \<Rightarrow> u64 \<Rightarrow> u8 list option" where
  "store_get s k \<equiv> st_data s k"

definition store_remove :: "u64 \<Rightarrow> data_store \<Rightarrow> u8 list option \<times> data_store" where
  "store_remove k s = (st_data s k, s\<lparr>st_data := (st_data s)(k := None)\<rparr>)"

record 'h wasm_instance =
  in_ctx :: "'h executor_context"
  in_store :: data_store

definition new_with_imports :: "wasm_module \<Rightarrow> host_imports \<Rightarrow> (runtime_error, 'h wasm_instance) result" where
  "new_with_imports md functions =
     and_then (map_err (\<lambda>e. RtInstantiationError (display_trap e))
       (new_with_host_functions md (to_exec_host_functions functions))) (\<lambda>ctx.
     Ok \<lparr>in_ctx = ctx, in_store = store_new\<rparr>)"

definition call_typed :: "'h host_env \<Rightarrow> 'h wasm_instance \<Rightarrow> string \<Rightarrow> wasm_value list
    \<Rightarrow> ((runtime_error, wasm_value list) result \<times> 'h wasm_instance) option" where
  "call_typed host inst name args =
     map_option (\<lambda>(r, ctx). (map_err (\<lambda>e. RtExecutionError (display_trap e)) r, inst\<lparr>in_ctx := ctx\<rparr>))
       (execute_export host (in_ctx inst) name args)"

text \<open>\<open>chunks(4)\<close>, the last chunk padded with zeros.\<close>

function i32_args :: "u8 list \<Rightarrow> wasm_value list" where
  "i32_args bs = (if bs = [] then [] else I32 (from_le (take 4 bs)) # i32_args (drop 4 bs))"
  by pat_completeness auto
termination
  by (relation "measure length") auto

fun result_bytes :: "wasm_value \<Rightarrow> u8 list" where
  "result_bytes (I32 v) = to_le 4 v" | "result_bytes (I64 v) = to_le 8 v"
| "result_bytes (F32 v) = to_le 4 v" | "result_bytes (F64 v) = to_le 8 v" | "result_bytes _ = []"

definition instance_call :: "'h host_env \<Rightarrow> 'h wasm_instance \<Rightarrow> string \<Rightarrow> u8 list
    \<Rightarrow> ((runtime_error, u8 list) result \<times> 'h wasm_instance) option" where
  "instance_call host inst name args =
     map_option (\<lambda>(r, i). (and_then r (\<lambda>results. Ok (concat (map result_bytes results))), i))
       (call_typed host inst name (i32_args args))"

definition set_fuel :: "u64 option \<Rightarrow> 'h wasm_instance \<Rightarrow> 'h wasm_instance" where
  "set_fuel fuel inst = inst\<lparr>in_ctx := (in_ctx inst)\<lparr>ec_fuel := fuel\<rparr>\<rparr>"

definition add_fuel :: "u64 \<Rightarrow> 'h wasm_instance \<Rightarrow> 'h wasm_instance" where
  "add_fuel fuel inst =
     (case ec_fuel (in_ctx inst) of
        None \<Rightarrow> inst
      | Some f \<Rightarrow> set_fuel (Some (if unat f + unat fuel < 2 ^ 64 then f + fuel else - 1)) inst)"

section \<open>The engine\<close>

record runtime_config =
  rc_max_memory_pages :: u32
  rc_max_table_size :: u32
  rc_enable_simd :: bool
  rc_enable_threads :: bool
  rc_enable_reference_types :: bool
  rc_enable_bulk_memory :: bool
  rc_stack_size :: usize
  rc_enable_fuel :: bool
  rc_initial_fuel :: u64

definition runtime_config_default :: runtime_config where
  "runtime_config_default = \<lparr>rc_max_memory_pages = 256, rc_max_table_size = 10000, rc_enable_simd = True,
     rc_enable_threads = False, rc_enable_reference_types = True, rc_enable_bulk_memory = True,
     rc_stack_size = 1024 * 1024, rc_enable_fuel = True, rc_initial_fuel = 1000000\<rparr>"

definition instantiate_with_imports :: "runtime_config \<Rightarrow> wasm_module \<Rightarrow> host_imports
    \<Rightarrow> (runtime_error, 'h wasm_instance) result" where
  "instantiate_with_imports config md functions =
     and_then (new_with_imports md functions) (\<lambda>inst.
     Ok (set_fuel (if rc_enable_fuel config then Some (rc_initial_fuel config) else None) inst))"

text \<open>\<open>Engine::execute\<close>; the instance it ends with, which the code drops, is returned too.\<close>

definition engine_execute :: "'h host_env \<Rightarrow> runtime_config \<Rightarrow> u8 list \<Rightarrow> string \<Rightarrow> wasm_value list
    \<Rightarrow> ((runtime_error, wasm_value list) result \<times> 'h wasm_instance option) option" where
  "engine_execute host config wasm_bytes entry_point args =
     (case and_then (from_bytes wasm_bytes) (\<lambda>md. instantiate_with_imports config md []) of
        Err e \<Rightarrow> Some (Err e, None)
      | Panic \<Rightarrow> Some (Panic, None)
      | Ok inst \<Rightarrow> map_option (\<lambda>(r, i). (r, Some i)) (call_typed host inst entry_point args))"

section \<open>End to end\<close>

lemma instantiate_ok:
  assumes "instantiate_with_imports config md functions = Ok inst"
  shows "\<exists>ctx. new_with_host_functions md (to_exec_host_functions functions) = Ok ctx
     \<and> in_ctx inst = ctx\<lparr>ec_fuel := if rc_enable_fuel config then Some (rc_initial_fuel config) else None\<rparr>"
  using assms by (auto simp: instantiate_with_imports_def new_with_imports_def set_fuel_def)

lemma valid_tables:
  assumes "module_valid md" and "\<forall>tt \<in> set (imported_tables (mo_imports md)). table_type_ok tt"
  shows "\<forall>tt \<in> set (imported_tables (mo_imports md) @ mo_tables md). table_type_ok tt"
  using assms by (auto simp: module_valid_def limits_ok_def table_type_ok_def split: option.splits)

lemma execute_export_function:
  "execute_export host c name args = Some (Err (ExportNotFound name), c)
   \<or> (\<exists>i. execute_export host c name args = execute_function host c i args)"
  by (auto simp: execute_export_def split: option.split)

text \<open>C28. End to end: \<open>Engine::execute\<close> returns for every sequence of bytes, every entry point and all
  arguments when the configuration meters fuel, as the default does: malformed input is an error (or a
  panic of the parser), and a module that loads is run until it ends, traps or has used up its fuel.\<close>

theorem engine_execute_returns:
  fixes host :: "'h host_env"
  assumes "host_burns host" and "rc_enable_fuel config"
  shows "\<exists>r i. engine_execute host config wasm_bytes entry_point args = Some (r, i)"
proof (cases "and_then (from_bytes wasm_bytes) (\<lambda>md. instantiate_with_imports config md []) :: (runtime_error, 'h wasm_instance) result")
  case (Ok inst)
  then have "ec_fuel (in_ctx inst) = Some (rc_initial_fuel config)"
    using assms(2) by (auto dest!: instantiate_ok)
  then have "\<exists>r c. execute_export host (in_ctx inst) entry_point args = Some (r, c)"
    using execute_export_function [of host "in_ctx inst" entry_point args] execute_function_returns [OF assms(1)]
    by metis
  then show ?thesis using Ok by (auto simp: engine_execute_def call_typed_def)
qed (simp_all add: engine_execute_def)

theorem engine_execute_returns_witness:
  "\<exists>r i. engine_execute (\<lambda>_ _ c :: unit executor_context. (Ok [], c)) runtime_config_default [0x00, 0x61, 0x73, 0x6D] ''main'' [] = Some (r, i)"
  by (rule engine_execute_returns) (simp_all add: host_burns_def runtime_config_default_def)


definition empty_module_bytes :: "u8 list" where
  "empty_module_bytes = [0x00, 0x61, 0x73, 0x6D, 0x01, 0x00, 0x00, 0x00]"

lemma parse_empty: "parse empty_module_bytes = Ok module_empty"
  by (simp add: empty_module_bytes_def parse_def seq_def bind_apply parse_header_def rd_bytes_def reader_new_def get_slice_def
      WASM_MAGIC_def WASM_VERSION_def read_u32_le_def parse_sections.simps rd_is_empty_def)


end
