(* ===== verification/Wasm_Encode.thy ===== *)
theory Wasm_Encode
  imports Wasm_Parser
begin

text \<open>
  The encoding of instructions that the binary format prescribes, as the specification of the
  decoder: the decoder reads every encoded sequence back. The encodings of the 128 instructions
  without immediates are the entries of the decoder's own table, read from the right.
\<close>

section \<open>Encodings\<close>

fun encode_value_type :: "value_type \<Rightarrow> u8" where
  "encode_value_type TI32 = 0x7F" | "encode_value_type TI64 = 0x7E" | "encode_value_type TF32 = 0x7D"
| "encode_value_type TF64 = 0x7C" | "encode_value_type TV128 = 0x7B" | "encode_value_type TFuncRef = 0x70"
| "encode_value_type TExternRef = 0x6F"

fun encode_block_type :: "block_type \<Rightarrow> u8 list" where
  "encode_block_type BtEmpty = [0x40]"
| "encode_block_type (BtValue t) = [encode_value_type t]"
| "encode_block_type (BtTypeIndex i) = sleb_encode (int (unat i))"

definition enc_u32 :: "u32 \<Rightarrow> u8 list" where
  "enc_u32 x = leb_encode (unat x)"

fun encode_control :: "control_instr \<Rightarrow> u8 list" where
  "encode_control Unreachable = [0x00]" | "encode_control Nop = [0x01]"
| "encode_control (Block bt) = 0x02 # encode_block_type bt" | "encode_control (Loop bt) = 0x03 # encode_block_type bt"
| "encode_control (If bt) = 0x04 # encode_block_type bt" | "encode_control Else = [0x05]" | "encode_control End = [0x0B]"
| "encode_control (Br i) = 0x0C # enc_u32 i" | "encode_control (BrIf i) = 0x0D # enc_u32 i"
| "encode_control (BrTable ts d) = 0x0E # leb_encode (length ts) @ concat (map enc_u32 ts) @ enc_u32 d"
| "encode_control Return = [0x0F]" | "encode_control (Call i) = 0x10 # enc_u32 i"
| "encode_control (CallIndirect t i) = 0x11 # enc_u32 t @ enc_u32 i"

fun encode_reference :: "reference_instr \<Rightarrow> u8 list" where
  "encode_reference RefNull = [0xD0, 0x70]" | "encode_reference RefIsNull = [0xD1]" | "encode_reference (RefFunc i) = 0xD2 # enc_u32 i"

fun encode_parametric :: "parametric_instr \<Rightarrow> u8 list" where
  "encode_parametric Drop = [0x1A]" | "encode_parametric Select = [0x1B]"

fun encode_variable :: "variable_instr \<Rightarrow> u8 list" where
  "encode_variable (LocalGet i) = 0x20 # enc_u32 i" | "encode_variable (LocalSet i) = 0x21 # enc_u32 i"
| "encode_variable (LocalTee i) = 0x22 # enc_u32 i" | "encode_variable (GlobalGet i) = 0x23 # enc_u32 i"
| "encode_variable (GlobalSet i) = 0x24 # enc_u32 i"

fun encode_table :: "table_instr \<Rightarrow> u8 list" where
  "encode_table (TableGet i) = 0x25 # enc_u32 i" | "encode_table (TableSet i) = 0x26 # enc_u32 i"
| "encode_table (TableInit e t) = 0xFC # 12 # enc_u32 e @ enc_u32 t" | "encode_table (ElemDrop e) = 0xFC # 13 # enc_u32 e"
| "encode_table (TableCopy d s) = 0xFC # 14 # enc_u32 d @ enc_u32 s" | "encode_table (TableGrow t) = 0xFC # 15 # enc_u32 t"
| "encode_table (TableSize t) = 0xFC # 16 # enc_u32 t" | "encode_table (TableFill t) = 0xFC # 17 # enc_u32 t"

fun load_opcode :: "load_instr \<Rightarrow> u8 \<times> u32 \<times> u32" where
  "load_opcode (I32Load a b) = (0x28, a, b)" | "load_opcode (I64Load a b) = (0x29, a, b)"
| "load_opcode (F32Load a b) = (0x2A, a, b)" | "load_opcode (F64Load a b) = (0x2B, a, b)"
| "load_opcode (I32Load8S a b) = (0x2C, a, b)" | "load_opcode (I32Load8U a b) = (0x2D, a, b)"
| "load_opcode (I32Load16S a b) = (0x2E, a, b)" | "load_opcode (I32Load16U a b) = (0x2F, a, b)"
| "load_opcode (I64Load8S a b) = (0x30, a, b)" | "load_opcode (I64Load8U a b) = (0x31, a, b)"
| "load_opcode (I64Load16S a b) = (0x32, a, b)" | "load_opcode (I64Load16U a b) = (0x33, a, b)"
| "load_opcode (I64Load32S a b) = (0x34, a, b)" | "load_opcode (I64Load32U a b) = (0x35, a, b)"

fun store_opcode :: "store_instr \<Rightarrow> u8 \<times> u32 \<times> u32" where
  "store_opcode (I32Store a b) = (0x36, a, b)" | "store_opcode (I64Store a b) = (0x37, a, b)"
| "store_opcode (F32Store a b) = (0x38, a, b)" | "store_opcode (F64Store a b) = (0x39, a, b)"
| "store_opcode (I32Store8 a b) = (0x3A, a, b)" | "store_opcode (I32Store16 a b) = (0x3B, a, b)"
| "store_opcode (I64Store8 a b) = (0x3C, a, b)" | "store_opcode (I64Store16 a b) = (0x3D, a, b)"
| "store_opcode (I64Store32 a b) = (0x3E, a, b)"

definition encode_memarg :: "u8 \<times> u32 \<times> u32 \<Rightarrow> u8 list" where
  "encode_memarg x = (case x of (k, a, b) \<Rightarrow> k # enc_u32 a @ enc_u32 b)"

fun encode_memory :: "memory_instr \<Rightarrow> u8 list" where
  "encode_memory MemorySize = [0x3F, 0]" | "encode_memory MemoryGrow = [0x40, 0]"
| "encode_memory (MemoryInit i) = 0xFC # 8 # enc_u32 i @ [0]" | "encode_memory (DataDrop i) = 0xFC # 9 # enc_u32 i"
| "encode_memory MemoryCopy = [0xFC, 10, 0, 0]" | "encode_memory MemoryFill = [0xFC, 11, 0]"

fun encode_const :: "const_instr \<Rightarrow> u8 list" where
  "encode_const (I32Const v) = 0x41 # sleb_encode (sint v)" | "encode_const (I64Const v) = 0x42 # sleb_encode (sint v)"
| "encode_const (F32Const v) = 0x43 # to_le 4 v" | "encode_const (F64Const v) = 0x44 # to_le 8 v"

fun encode_saturating :: "saturating_truncation \<Rightarrow> u8 list" where
  "encode_saturating I32TruncSatF32S = [0xFC, 0]" | "encode_saturating I32TruncSatF32U = [0xFC, 1]"
| "encode_saturating I32TruncSatF64S = [0xFC, 2]" | "encode_saturating I32TruncSatF64U = [0xFC, 3]"
| "encode_saturating I64TruncSatF32S = [0xFC, 4]" | "encode_saturating I64TruncSatF32U = [0xFC, 5]"
| "encode_saturating I64TruncSatF64S = [0xFC, 6]" | "encode_saturating I64TruncSatF64U = [0xFC, 7]"

definition numeric_opcodes :: "(u8 \<times> instruction) list" where
  "numeric_opcodes = integer_opcodes @ float_opcodes"

definition encode_numeric :: "instruction \<Rightarrow> u8 list" where
  "encode_numeric i = (case find (\<lambda>(k, j). j = i) numeric_opcodes of Some (k, _) \<Rightarrow> [k] | None \<Rightarrow> [])"

fun encode_instruction :: "instruction \<Rightarrow> u8 list" where
  "encode_instruction (Control i) = encode_control i" | "encode_instruction (Reference i) = encode_reference i"
| "encode_instruction (Parametric i) = encode_parametric i" | "encode_instruction (Variable i) = encode_variable i"
| "encode_instruction (Table i) = encode_table i" | "encode_instruction (Load i) = encode_memarg (load_opcode i)"
| "encode_instruction (Store i) = encode_memarg (store_opcode i)" | "encode_instruction (Memory i) = encode_memory i"
| "encode_instruction (Const i) = encode_const i" | "encode_instruction (SaturatingTruncation i) = encode_saturating i"
| "encode_instruction i = encode_numeric i"

text \<open>What the format can express: type indices of blocks below \<open>2\<^sup>31\<close>, and branch tables whose length
  fits 32 bits.\<close>

fun encodable :: "instruction \<Rightarrow> bool" where
  "encodable (Control (Block (BtTypeIndex i))) = (unat i < 2 ^ 31)"
| "encodable (Control (Loop (BtTypeIndex i))) = (unat i < 2 ^ 31)"
| "encodable (Control (If (BtTypeIndex i))) = (unat i < 2 ^ 31)"
| "encodable (Control (BrTable ts d)) = (length ts < 2 ^ 32)"
| "encodable i = True"

section \<open>Reading an encoding back\<close>

definition reads_back :: "'a parser \<Rightarrow> u8 list \<Rightarrow> 'a \<Rightarrow> bool" where
  "reads_back p bs a \<longleftrightarrow> (\<forall>r rest. reader_at r (bs @ rest) \<longrightarrow> p r = (Ok a, rd_advance (length bs) r))"

lemma reads_backD: "reads_back p bs a \<Longrightarrow> reader_at r (bs @ rest) \<Longrightarrow> p r = (Ok a, rd_advance (length bs) r)"
  unfolding reads_back_def by blast

lemma reads_backI: "(\<And>r rest. reader_at r (bs @ rest) \<Longrightarrow> p r = (Ok a, rd_advance (length bs) r)) \<Longrightarrow> reads_back p bs a"
  unfolding reads_back_def by blast

named_theorems rb

lemma rb_ret [rb]: "reads_back (ret a) [] a"
  by (simp add: reads_back_def)

lemma rb_bind:
  assumes "reads_back m bs a" and "reads_back (f a) cs b"
  shows "reads_back (bind m f) (bs @ cs) b"
proof (rule reads_backI)
  fix r rest assume at: "reader_at r ((bs @ cs) @ rest)"
  then have m: "m r = (Ok a, rd_advance (length bs) r)" by (intro reads_backD [OF assms(1), of _ "cs @ rest"]) simp
  have "reader_at (rd_advance (length bs) r) (cs @ rest)" using at by (intro reader_at_advance [of r bs]) simp_all
  from reads_backD [OF assms(2) this] m show "bind m f r = (Ok b, rd_advance (length (bs @ cs)) r)"
    by (simp add: bind_apply)
qed

lemma rb_bind_ret:
  assumes "reads_back m bs a" shows "reads_back (bind m (\<lambda>x. ret (f x))) bs (f a)"
proof -
  have "reads_back (bind m (\<lambda>x. ret (f x))) (bs @ []) (f a)" by (rule rb_bind [OF assms]) (rule rb_ret)
  then show ?thesis by simp
qed

lemma rb_read_byte: "reads_back read_byte [b] b"
  by (simp add: reads_back_def read_byte_at)

lemma rb_byte: "reads_back (f b) cs a \<Longrightarrow> reads_back (bind read_byte f) (b # cs) a"
  using rb_bind [OF rb_read_byte] by fastforce

lemma rb_byte_ignored [rb]: "reads_back p cs a \<Longrightarrow> reads_back (byte_ignored p) (b # cs) a"
  unfolding byte_ignored_def by (rule rb_byte)

lemma rb_leb [rb]:
  "reads_back read_leb128_u32 (enc_u32 x) x" "reads_back read_leb128_i32 (sleb_encode (sint y)) y"
  "reads_back read_leb128_i64 (sleb_encode (sint z)) z"
  by (simp_all add: reads_back_def enc_u32_def read_leb128_at)

lemma rb_u32_arg [rb]: "reads_back (u32_arg f) (enc_u32 x) (f x)"
  unfolding u32_arg_def by (rule rb_bind_ret [OF rb_leb(1)])

lemma rb_u32_args [rb]: "reads_back (u32_args f) (enc_u32 x @ enc_u32 y) (f x y)"
  unfolding u32_args_def by (rule rb_bind [OF rb_leb(1)]) (rule rb_u32_arg [unfolded u32_arg_def])

lemma rb_repeat:
  "(\<And>x. x \<in> set xs \<Longrightarrow> reads_back p (e x) x) \<Longrightarrow> reads_back (repeat_st (length xs) p) (concat (map e xs)) xs"
proof (induction xs)
  case (Cons x xs)
  then have "reads_back (repeat_st (length xs) p) (concat (map e xs)) xs" and "reads_back p (e x) x" by simp_all
  from this(2) rb_bind_ret [OF this(1), of "(#) x"] have "reads_back (bind p (\<lambda>y. bind (repeat_st (length xs) p) (\<lambda>ys. ret (y # ys)))) (e x @ concat (map e xs)) (x # xs)"
    by (rule rb_bind)
  then show ?case by simp
qed (simp add: rb_ret)

lemma rb_parse_vec:
  assumes "\<And>x. x \<in> set xs \<Longrightarrow> reads_back p (e x) x" and "length xs < 2 ^ 32"
  shows "reads_back (parse_vec p) (leb_encode (length xs) @ concat (map e xs)) xs"
proof -
  have len: "unat (of_nat (length xs) :: u32) = length xs" using assms(2) by (intro unat_of_nat_small) simp
  have "reads_back read_leb128_u32 (leb_encode (length xs)) (of_nat (length xs))"
    using rb_leb(1) [of "of_nat (length xs)"] by (simp add: enc_u32_def len)
  then show ?thesis
    unfolding parse_vec_def by (rule rb_bind) (unfold len, rule rb_repeat [OF assms(1)])
qed

lemma rb_rd_bytes: "length bs = n \<Longrightarrow> reads_back (rd_bytes n) bs bs"
  by (rule reads_backI, frule reader_at_length) (simp add: rd_bytes_def rd_advance_def get_slice_def reader_at_def)

lemma rb_floats [rb]: "reads_back read_f32 (to_le 4 x) x" "reads_back read_f64 (to_le 8 y) y"
  using rb_bind_ret [OF rb_rd_bytes [of "to_le 4 x" 4], of "from_le :: _ \<Rightarrow> u32"]
    rb_bind_ret [OF rb_rd_bytes [of "to_le 8 y" 8], of "from_le :: _ \<Rightarrow> u64"]
  by (simp_all add: read_f32_def read_f64_def from_le_to_le)

section \<open>Block types\<close>

lemma rb_value_type [rb]: "reads_back parse_value_type [encode_value_type t] t"
  unfolding parse_value_type_def by (rule rb_byte) (cases t; simp add: rb_ret)

lemma peek_byte_at: "reader_at r (b # rest) \<Longrightarrow> peek_byte r = (Ok b, r)"
  using read_byte_at(1) [of r b rest] by (auto simp: peek_byte_def read_byte_def split: if_splits)

lemma rb_peek:
  assumes "reads_back (f b) (b # cs) a" shows "reads_back (bind peek_byte f) (b # cs) a"
  by (rule reads_backI) (simp add: bind_apply peek_byte_at reads_backD [OF assms])

lemma sleb_first: "0 \<le> i \<Longrightarrow> \<exists>b bs. sleb_encode i = b # bs \<and> (b < 64 \<or> 128 \<le> b)"
proof (cases "i < 64")
  case True
  assume "0 \<le> i"
  then have "unat (of_int i :: u8) = nat i" using True by (simp add: unsigned_of_int take_bit_int_eq_self)
  then show ?thesis
    using True \<open>0 \<le> i\<close> by (auto simp: sleb_encode.simps [of i] word_less_nat_alt)
next
  case False
  assume "0 \<le> i"
  have "unat (of_int (i mod 128 + 128) :: u8) = nat (i mod 128 + 128)"
    by (simp only: unsigned_of_int) (simp add: take_bit_int_eq_self)
  then show ?thesis
    using False by (auto simp: sleb_encode.simps [of i] word_le_nat_alt simp del: of_int_add)
qed

lemma rb_block_type:
  assumes "\<And>i. bt = BtTypeIndex i \<Longrightarrow> unat i < 2 ^ 31"
  shows "reads_back parse_blocktype (encode_block_type bt) bt"
proof (cases bt)
  case BtEmpty
  have "reads_back (bind read_byte (\<lambda>_. ret BtEmpty)) [0x40] BtEmpty" by (intro rb_byte rb)
  then show ?thesis unfolding parse_blocktype_def BtEmpty encode_block_type.simps by (intro rb_peek) simp
next
  case (BtValue t)
  have "reads_back (bind parse_value_type (\<lambda>vt. ret (BtValue vt))) [encode_value_type t] (BtValue t)"
    by (rule rb_bind_ret [OF rb_value_type])
  then show ?thesis unfolding parse_blocktype_def BtValue by (cases t) (auto intro!: rb_peek)
next
  case (BtTypeIndex i)
  have "int (unat i) < int (2 ^ 31)" using assms [OF BtTypeIndex] by (simp only: of_nat_less_iff)
  then have "uint i < 2 ^ 31" by simp
  moreover have "- (2 ^ 31) \<le> uint i" by (rule order_trans [of _ 0]) simp_all
  ultimately have "signed_take_bit 31 (uint i) = uint i" by (intro signed_take_bit_int_eq_self)
  then have i: "sint i = int (unat i)" by (simp add: sint_uint)
  obtain b bs where b: "sleb_encode (int (unat i)) = b # bs" "b < 64 \<or> 128 \<le> b" using sleb_first [of "int (unat i)"] by auto
  have ne: "b \<noteq> 0x40" "b \<notin> set [0x7F, 0x7E, 0x7D, 0x7C, 0x7B, 0x70, 0x6F]" using b(2) by auto
  have "reads_back (bind read_leb128_i32 (\<lambda>idx.
       if sint idx < 0 then fail_at ''Invalid block type index'' 0 else ret (BtTypeIndex idx))) ((b # bs) @ []) (BtTypeIndex i)"
    by (rule rb_bind [OF rb_leb(2) [of i, unfolded i b(1)]]) (simp add: i rb_ret)
  then show ?thesis unfolding parse_blocktype_def BtTypeIndex encode_block_type.simps b(1) using ne by (intro rb_peek) simp
qed

section \<open>Instructions\<close>

lemma rb_decode: "map_of opcodes k = Some p \<Longrightarrow> reads_back p bs i \<Longrightarrow> reads_back decode_instruction (k # bs) i"
  unfolding decode_instruction_def by (rule rb_byte) simp

lemma map_of_map_snd: "map_of (map (\<lambda>(k, x). (k, g x)) xs) k = map_option g (map_of xs k)"
  by (induction xs) auto

lemma opcodes_lookup:
  "map_of control_opcodes k = Some p \<Longrightarrow> map_of opcodes k = Some p"
  "map_of control_opcodes k = None \<Longrightarrow> map_of memory_opcodes k = Some f \<Longrightarrow> map_of opcodes k = Some (u32_args f)"
  "map_of control_opcodes k = None \<Longrightarrow> map_of memory_opcodes k = None \<Longrightarrow> map_of constant_opcodes k = Some p
     \<Longrightarrow> map_of opcodes k = Some p"
  "map_of control_opcodes k = None \<Longrightarrow> map_of memory_opcodes k = None \<Longrightarrow> map_of constant_opcodes k = None
     \<Longrightarrow> map_of numeric_opcodes k = Some i \<Longrightarrow> map_of opcodes k = Some (ret i)"
  by (auto simp: opcodes_def numeric_opcodes_def map_add_def map_of_map_snd split: option.splits)

lemma control_lookup:
  "map_of control_opcodes 0x00 = Some (ret (Control Unreachable))"
  "map_of control_opcodes 0x01 = Some (ret (Control Nop))"
  "map_of control_opcodes 0x02 = Some (bind parse_blocktype (\<lambda>bt. ret (Control (Block bt))))"
  "map_of control_opcodes 0x03 = Some (bind parse_blocktype (\<lambda>bt. ret (Control (Loop bt))))"
  "map_of control_opcodes 0x04 = Some (bind parse_blocktype (\<lambda>bt. ret (Control (If bt))))"
  "map_of control_opcodes 0x05 = Some (ret (Control Else))"
  "map_of control_opcodes 0x0B = Some (ret (Control End))"
  "map_of control_opcodes 0x0C = Some (u32_arg (\<lambda>i. Control (Br i)))"
  "map_of control_opcodes 0x0D = Some (u32_arg (\<lambda>i. Control (BrIf i)))"
  "map_of control_opcodes 0x0E = Some (bind (parse_vec read_leb128_u32) (\<lambda>targets. u32_arg (\<lambda>d. Control (BrTable targets d))))"
  "map_of control_opcodes 0x0F = Some (ret (Control Return))"
  "map_of control_opcodes 0x10 = Some (u32_arg (\<lambda>i. Control (Call i)))"
  "map_of control_opcodes 0x11 = Some (u32_args (\<lambda>t i. Control (CallIndirect t i)))"
  "map_of control_opcodes 0xD0 = Some (byte_ignored (ret (Reference RefNull)))"
  "map_of control_opcodes 0xD1 = Some (ret (Reference RefIsNull))"
  "map_of control_opcodes 0xD2 = Some (u32_arg (\<lambda>i. Reference (RefFunc i)))"
  "map_of control_opcodes 0x1A = Some (ret (Parametric Drop))"
  "map_of control_opcodes 0x1B = Some (ret (Parametric Select))"
  "map_of control_opcodes 0x1C = Some (bind (parse_vec parse_value_type) (\<lambda>_. ret (Parametric Select)))"
  "map_of control_opcodes 0x20 = Some (u32_arg (\<lambda>i. Variable (LocalGet i)))"
  "map_of control_opcodes 0x21 = Some (u32_arg (\<lambda>i. Variable (LocalSet i)))"
  "map_of control_opcodes 0x22 = Some (u32_arg (\<lambda>i. Variable (LocalTee i)))"
  "map_of control_opcodes 0x23 = Some (u32_arg (\<lambda>i. Variable (GlobalGet i)))"
  "map_of control_opcodes 0x24 = Some (u32_arg (\<lambda>i. Variable (GlobalSet i)))"
  "map_of control_opcodes 0x25 = Some (u32_arg (\<lambda>i. Table (TableGet i)))"
  "map_of control_opcodes 0x26 = Some (u32_arg (\<lambda>i. Table (TableSet i)))"
  by (simp_all add: control_opcodes_def)

lemma memory_lookup:
  "map_of memory_opcodes 0x28 = Some (\<lambda>a b. Load (I32Load a b))"
  "map_of memory_opcodes 0x29 = Some (\<lambda>a b. Load (I64Load a b))"
  "map_of memory_opcodes 0x2A = Some (\<lambda>a b. Load (F32Load a b))"
  "map_of memory_opcodes 0x2B = Some (\<lambda>a b. Load (F64Load a b))"
  "map_of memory_opcodes 0x2C = Some (\<lambda>a b. Load (I32Load8S a b))"
  "map_of memory_opcodes 0x2D = Some (\<lambda>a b. Load (I32Load8U a b))"
  "map_of memory_opcodes 0x2E = Some (\<lambda>a b. Load (I32Load16S a b))"
  "map_of memory_opcodes 0x2F = Some (\<lambda>a b. Load (I32Load16U a b))"
  "map_of memory_opcodes 0x30 = Some (\<lambda>a b. Load (I64Load8S a b))"
  "map_of memory_opcodes 0x31 = Some (\<lambda>a b. Load (I64Load8U a b))"
  "map_of memory_opcodes 0x32 = Some (\<lambda>a b. Load (I64Load16S a b))"
  "map_of memory_opcodes 0x33 = Some (\<lambda>a b. Load (I64Load16U a b))"
  "map_of memory_opcodes 0x34 = Some (\<lambda>a b. Load (I64Load32S a b))"
  "map_of memory_opcodes 0x35 = Some (\<lambda>a b. Load (I64Load32U a b))"
  "map_of memory_opcodes 0x36 = Some (\<lambda>a b. Store (I32Store a b))"
  "map_of memory_opcodes 0x37 = Some (\<lambda>a b. Store (I64Store a b))"
  "map_of memory_opcodes 0x38 = Some (\<lambda>a b. Store (F32Store a b))"
  "map_of memory_opcodes 0x39 = Some (\<lambda>a b. Store (F64Store a b))"
  "map_of memory_opcodes 0x3A = Some (\<lambda>a b. Store (I32Store8 a b))"
  "map_of memory_opcodes 0x3B = Some (\<lambda>a b. Store (I32Store16 a b))"
  "map_of memory_opcodes 0x3C = Some (\<lambda>a b. Store (I64Store8 a b))"
  "map_of memory_opcodes 0x3D = Some (\<lambda>a b. Store (I64Store16 a b))"
  "map_of memory_opcodes 0x3E = Some (\<lambda>a b. Store (I64Store32 a b))"
  by (simp_all add: memory_opcodes_def)

lemma constant_lookup:
  "map_of constant_opcodes 0x3F = Some (byte_ignored (ret (Memory MemorySize)))"
  "map_of constant_opcodes 0x40 = Some (byte_ignored (ret (Memory MemoryGrow)))"
  "map_of constant_opcodes 0x41 = Some (bind read_leb128_i32 (\<lambda>v. ret (Const (I32Const v))))"
  "map_of constant_opcodes 0x42 = Some (bind read_leb128_i64 (\<lambda>v. ret (Const (I64Const v))))"
  "map_of constant_opcodes 0x43 = Some (bind read_f32 (\<lambda>v. ret (Const (F32Const v))))"
  "map_of constant_opcodes 0x44 = Some (bind read_f64 (\<lambda>v. ret (Const (F64Const v))))"
  by (simp_all add: constant_opcodes_def)

lemma prefixed_lookup:
  "map_of prefixed_opcodes 0 = Some (ret (SaturatingTruncation I32TruncSatF32S))"
  "map_of prefixed_opcodes 1 = Some (ret (SaturatingTruncation I32TruncSatF32U))"
  "map_of prefixed_opcodes 2 = Some (ret (SaturatingTruncation I32TruncSatF64S))"
  "map_of prefixed_opcodes 3 = Some (ret (SaturatingTruncation I32TruncSatF64U))"
  "map_of prefixed_opcodes 4 = Some (ret (SaturatingTruncation I64TruncSatF32S))"
  "map_of prefixed_opcodes 5 = Some (ret (SaturatingTruncation I64TruncSatF32U))"
  "map_of prefixed_opcodes 6 = Some (ret (SaturatingTruncation I64TruncSatF64S))"
  "map_of prefixed_opcodes 7 = Some (ret (SaturatingTruncation I64TruncSatF64U))"
  "map_of prefixed_opcodes 8 = Some (bind read_leb128_u32 (\<lambda>i. byte_ignored (ret (Memory (MemoryInit i)))))"
  "map_of prefixed_opcodes 9 = Some (u32_arg (\<lambda>i. Memory (DataDrop i)))"
  "map_of prefixed_opcodes 10 = Some (byte_ignored (byte_ignored (ret (Memory MemoryCopy))))"
  "map_of prefixed_opcodes 11 = Some (byte_ignored (ret (Memory MemoryFill)))"
  "map_of prefixed_opcodes 12 = Some (u32_args (\<lambda>e t. Table (TableInit e t)))"
  "map_of prefixed_opcodes 13 = Some (u32_arg (\<lambda>e. Table (ElemDrop e)))"
  "map_of prefixed_opcodes 14 = Some (u32_args (\<lambda>d s. Table (TableCopy d s)))"
  "map_of prefixed_opcodes 15 = Some (u32_arg (\<lambda>t. Table (TableGrow t)))"
  "map_of prefixed_opcodes 16 = Some (u32_arg (\<lambda>t. Table (TableSize t)))"
  "map_of prefixed_opcodes 17 = Some (u32_arg (\<lambda>t. Table (TableFill t)))"
  by (simp_all add: prefixed_opcodes_def)

lemma control_miss:
  "map_of control_opcodes 0x28 = None"
  "map_of control_opcodes 0x29 = None"
  "map_of control_opcodes 0x2A = None"
  "map_of control_opcodes 0x2B = None"
  "map_of control_opcodes 0x2C = None"
  "map_of control_opcodes 0x2D = None"
  "map_of control_opcodes 0x2E = None"
  "map_of control_opcodes 0x2F = None"
  "map_of control_opcodes 0x30 = None"
  "map_of control_opcodes 0x31 = None"
  "map_of control_opcodes 0x32 = None"
  "map_of control_opcodes 0x33 = None"
  "map_of control_opcodes 0x34 = None"
  "map_of control_opcodes 0x35 = None"
  "map_of control_opcodes 0x36 = None"
  "map_of control_opcodes 0x37 = None"
  "map_of control_opcodes 0x38 = None"
  "map_of control_opcodes 0x39 = None"
  "map_of control_opcodes 0x3A = None"
  "map_of control_opcodes 0x3B = None"
  "map_of control_opcodes 0x3C = None"
  "map_of control_opcodes 0x3D = None"
  "map_of control_opcodes 0x3E = None"
  "map_of control_opcodes 0x3F = None"
  "map_of control_opcodes 0x40 = None"
  "map_of control_opcodes 0x41 = None"
  "map_of control_opcodes 0x42 = None"
  "map_of control_opcodes 0x43 = None"
  "map_of control_opcodes 0x44 = None"
  "map_of control_opcodes 0xFC = None"
  by (simp_all add: control_opcodes_def)

lemma memory_miss:
  "map_of memory_opcodes 0x3F = None"
  "map_of memory_opcodes 0x40 = None"
  "map_of memory_opcodes 0x41 = None"
  "map_of memory_opcodes 0x42 = None"
  "map_of memory_opcodes 0x43 = None"
  "map_of memory_opcodes 0x44 = None"
  "map_of memory_opcodes 0xFC = None"
  by (simp_all add: memory_opcodes_def)

lemma rb_control:
  assumes "encodable (Control i)" shows "reads_back decode_instruction (encode_control i) (Control i)"
proof -
  have bt: "reads_back (bind parse_blocktype (\<lambda>bt. ret (Control (f bt)))) (encode_block_type b) (Control (f b))"
    if "\<forall>i. b = BtTypeIndex i \<longrightarrow> unat i < 2 ^ 31" for f b
    by (rule rb_bind_ret [OF rb_block_type]) (use that in blast)
  have br: "reads_back (bind (parse_vec read_leb128_u32) (\<lambda>targets. u32_arg (\<lambda>d. Control (BrTable targets d))))
      (leb_encode (length ts) @ concat (map enc_u32 ts) @ enc_u32 d) (Control (BrTable ts d))" if "length ts < 2 ^ 32" for ts d
    using rb_bind [OF rb_parse_vec [of ts read_leb128_u32 enc_u32, OF rb_leb(1) that] rb_u32_arg] by simp
  have enc: "\<forall>i. b = BtTypeIndex i \<longrightarrow> unat i < 2 ^ 31" if "encodable (Control (Block b)) \<or> encodable (Control (Loop b)) \<or> encodable (Control (If b))" for b
    using that by (cases b) auto
  note enc_block = enc [OF disjI1] and enc_loop = enc [OF disjI2 [OF disjI1]] and enc_if = enc [OF disjI2 [OF disjI2]]
  show ?thesis
  proof (cases i)
    case (Block b)
    show ?thesis unfolding Block encode_control.simps
      by (rule rb_decode, rule opcodes_lookup(1), rule control_lookup, rule bt, rule enc_block) (use assms Block in simp)
  next
    case (Loop b)
    show ?thesis unfolding Loop encode_control.simps
      by (rule rb_decode, rule opcodes_lookup(1), rule control_lookup, rule bt, rule enc_loop) (use assms Loop in simp)
  next
    case (If b)
    show ?thesis unfolding If encode_control.simps
      by (rule rb_decode, rule opcodes_lookup(1), rule control_lookup, rule bt, rule enc_if) (use assms If in simp)
  next
    case (BrTable ts d)
    show ?thesis unfolding BrTable encode_control.simps
      by (rule rb_decode, rule opcodes_lookup(1), rule control_lookup, rule br) (use assms BrTable in simp)
  qed (simp_all only: encode_control.simps, (rule rb_decode, rule opcodes_lookup(1), rule control_lookup, rule rb)+)
qed

text \<open>The instructions whose encoding starts with an entry of the first table.\<close>

lemma rb_reference: "reads_back decode_instruction (encode_reference i) (Reference i)"
  by (cases i; simp only: encode_reference.simps; rule rb_decode, rule opcodes_lookup(1), rule control_lookup, intro rb)

lemma rb_parametric: "reads_back decode_instruction (encode_parametric i) (Parametric i)"
  by (cases i; simp only: encode_parametric.simps; rule rb_decode, rule opcodes_lookup(1), rule control_lookup, intro rb)

lemma rb_variable: "reads_back decode_instruction (encode_variable i) (Variable i)"
  by (cases i; simp only: encode_variable.simps; rule rb_decode, rule opcodes_lookup(1), rule control_lookup, intro rb)

lemma rb_memarg:
  "reads_back decode_instruction (encode_memarg (load_opcode i)) (Load i)"
  "reads_back decode_instruction (encode_memarg (store_opcode j)) (Store j)"
  unfolding encode_memarg_def
   apply (cases i; simp only: load_opcode.simps prod.case; rule rb_decode, rule opcodes_lookup(2), rule control_miss, rule memory_lookup, rule rb)
  apply (cases j; simp only: store_opcode.simps prod.case; rule rb_decode, rule opcodes_lookup(2), rule control_miss, rule memory_lookup, rule rb)
  done

lemma rb_const: "reads_back decode_instruction (encode_const i) (Const i)"
  by (cases i; simp only: encode_const.simps; rule rb_decode, rule opcodes_lookup(3), rule control_miss, rule memory_miss, rule constant_lookup,
      rule rb_bind_ret, rule rb)

lemma opcode_prefix: "map_of opcodes 0xFC = Some decode_prefixed"
  by (simp add: opcodes_def map_add_def map_of_map_snd control_miss memory_miss constant_opcodes_def integer_opcodes_def float_opcodes_def)

lemma rb_prefixed:
  assumes "map_of prefixed_opcodes k = Some p" and "reads_back p bs i" and "unat k < 128"
  shows "reads_back decode_instruction (0xFC # of_nat (unat k) # bs) i"
proof (rule rb_decode [OF opcode_prefix])
  have "enc_u32 k = [of_nat (unat k)]" using assms(3) by (simp add: enc_u32_def leb_encode.simps)
  then have "reads_back read_leb128_u32 [of_nat (unat k)] k" using rb_leb(1) [of k] by simp
  from rb_bind [OF this, of "\<lambda>sub. case map_of prefixed_opcodes sub of Some p \<Rightarrow> p | None \<Rightarrow> fail_at ''Unknown 0xFC sub-opcode'' 0" bs i]
  show "reads_back decode_prefixed (of_nat (unat k) # bs) i" using assms(1,2) by (simp add: decode_prefixed_def)
qed

text \<open>The same for the codes behind the prefix.\<close>

lemmas rb_codes = prefixed_lookup [THEN rb_prefixed, simplified]

lemma rb_saturating: "reads_back decode_instruction (encode_saturating i) (SaturatingTruncation i)"
  by (cases i; simp only: encode_saturating.simps; rule rb_codes, intro rb)

lemma rb_memory: "reads_back decode_instruction (encode_memory i) (Memory i)"
proof (cases i)
  case MemorySize
  show ?thesis unfolding MemorySize encode_memory.simps
    by (rule rb_decode, rule opcodes_lookup(3), rule control_miss, rule memory_miss, rule constant_lookup, intro rb)
next
  case MemoryGrow
  show ?thesis unfolding MemoryGrow encode_memory.simps
    by (rule rb_decode, rule opcodes_lookup(3), rule control_miss, rule memory_miss, rule constant_lookup, intro rb)
next
  case (MemoryInit k)
  show ?thesis unfolding MemoryInit encode_memory.simps by (rule rb_codes, rule rb_bind, rule rb, intro rb)
qed (simp_all only: encode_memory.simps, (rule rb_codes, intro rb)+)

lemma rb_table: "reads_back decode_instruction (encode_table i) (Table i)"
proof (cases i)
  case (TableGet k)
  show ?thesis unfolding TableGet encode_table.simps by (rule rb_decode, rule opcodes_lookup(1), rule control_lookup, rule rb)
next
  case (TableSet k)
  show ?thesis unfolding TableSet encode_table.simps by (rule rb_decode, rule opcodes_lookup(1), rule control_lookup, rule rb)
qed (simp_all only: encode_table.simps, (rule rb_codes, rule rb)+)

text \<open>The instructions without immediates have the codes 0x45 to 0xC4, each once.\<close>

lemma numeric_keys:
  "list_all (\<lambda>k. 0x45 \<le> k \<and> k \<le> 0xC4) (map fst numeric_opcodes)"
  "successively (<) (map fst numeric_opcodes)"
  by (simp_all add: numeric_opcodes_def integer_opcodes_def float_opcodes_def)

lemma other_keys:
  "list_all (\<lambda>k. k < 0x45 \<or> 0xC4 < k) (map fst control_opcodes)" "list_all (\<lambda>k. k < 0x45 \<or> 0xC4 < k) (map fst memory_opcodes)"
  "list_all (\<lambda>k. k < 0x45 \<or> 0xC4 < k) (map fst constant_opcodes)"
  by (simp_all add: control_opcodes_def memory_opcodes_def constant_opcodes_def)

lemma map_of_outside:
  assumes "list_all (\<lambda>k. k < a \<or> b < k) (map fst xs)" and "a \<le> k" and "k \<le> (b :: u8)"
  shows "map_of xs k = None"
proof (rule ccontr)
  assume "map_of xs k \<noteq> None"
  then have "k \<in> set (map fst xs)" by (auto dest: map_of_SomeD intro: rev_image_eqI)
  then show False using assms by (force simp: list_all_iff)
qed

lemma numeric_lookup:
  assumes "(k, i) \<in> set numeric_opcodes" shows "map_of opcodes k = Some (ret i)"
proof (rule opcodes_lookup(4))
  have k: "0x45 \<le> k" "k \<le> 0xC4" using assms numeric_keys(1) by (auto simp: list_all_iff)
  show "map_of control_opcodes k = None" "map_of memory_opcodes k = None" "map_of constant_opcodes k = None"
    by (rule map_of_outside [OF _ k], rule other_keys)+
  have "distinct (map fst numeric_opcodes)"
    using numeric_keys(2) by (simp add: successively_conv_sorted_wrt strict_sorted_iff)
  then show "map_of numeric_opcodes k = Some i" using assms by simp
qed

lemma rb_numeric:
  assumes "i \<in> snd ` set numeric_opcodes"
  shows "reads_back decode_instruction (encode_numeric i) i"
proof -
  obtain k where k: "(k, i) \<in> set numeric_opcodes" using assms by force
  then have "find (\<lambda>(k, j). j = i) numeric_opcodes \<noteq> None" by (auto simp: find_None_iff)
  then obtain x where x: "find (\<lambda>(k, j). j = i) numeric_opcodes = Some x" by blast
  then obtain n where "n < length numeric_opcodes" "x = numeric_opcodes ! n" "snd x = i" by (auto simp: find_Some_iff)
  then have mem: "(fst x, i) \<in> set numeric_opcodes" by (metis nth_mem prod.collapse)
  have "encode_numeric i = [fst x]" by (simp add: encode_numeric_def x case_prod_beta)
  then show ?thesis using rb_decode [OF numeric_lookup [OF mem] rb_ret] by simp
qed

lemma numeric_parts:
  "x \<in> set (map snd integer_opcodes) \<Longrightarrow> x \<in> snd ` set numeric_opcodes"
  "x \<in> set (map snd float_opcodes) \<Longrightarrow> x \<in> snd ` set numeric_opcodes"
  by (auto simp: numeric_opcodes_def)

lemma integer_complete:
  "I32Comparison a \<in> set (map snd integer_opcodes)" "I64Comparison b \<in> set (map snd integer_opcodes)"
  "F32Comparison c \<in> set (map snd integer_opcodes)" "F64Comparison d \<in> set (map snd integer_opcodes)"
  "I32Arithmetic e \<in> set (map snd integer_opcodes)" "I64Arithmetic f \<in> set (map snd integer_opcodes)"
  unfolding integer_opcodes_def list.map snd_conv
  by (cases a, simp_all) (cases b, simp_all, cases c, simp_all, cases d, simp_all, cases e, simp_all, cases f, simp_all)

lemma float_complete:
  "F32Arithmetic a \<in> set (map snd float_opcodes)" "F64Arithmetic b \<in> set (map snd float_opcodes)"
  "Conversion c \<in> set (map snd float_opcodes)" "Reinterpretation d \<in> set (map snd float_opcodes)"
  "SignExtension e \<in> set (map snd float_opcodes)"
  unfolding float_opcodes_def list.map snd_conv
  by (cases a, simp_all) (cases b, simp_all, cases c, simp_all, cases d, simp_all, cases e, simp_all)

lemmas numeric_complete = integer_complete [THEN numeric_parts(1)] float_complete [THEN numeric_parts(2)]

lemma rb_instruction: "encodable i \<Longrightarrow> reads_back decode_instruction (encode_instruction i) i"
  by (cases i) (simp_all add: rb_control rb_reference rb_parametric rb_variable rb_table rb_memarg rb_memory rb_const rb_saturating
      rb_numeric numeric_complete)

lemma rb_decode_loop:
  assumes "list_all encodable is" and "reader_at r (concat (map encode_instruction is))"
  shows "fst (decode_loop acc r) = Ok (acc @ is)"
  using assms
proof (induction "is" arbitrary: acc r)
  case Nil
  then have "rd_is_empty r" by (simp add: rd_is_empty_def reader_at_def)
  then show ?case by (simp add: decode_loop.simps)
next
  case (Cons i "is")
  then have at: "reader_at r (encode_instruction i @ concat (map encode_instruction is))" by simp
  have d: "decode_instruction r = (Ok i, rd_advance (length (encode_instruction i)) r)"
    using Cons.prems by (intro reads_backD [OF rb_instruction at]) simp
  have "\<not> rd_is_empty r"
  proof
    assume "rd_is_empty r"
    then have "decode_instruction r = (Err (parse_error_new ''Unexpected end of data'' (rd_pos r)), r)"
      by (simp add: decode_instruction_def bind_apply read_byte_def rd_is_empty_def)
    with d show False by simp
  qed
  moreover have "reader_at (rd_advance (length (encode_instruction i)) r) (concat (map encode_instruction is))"
    by (rule reader_at_advance [OF at refl])
  ultimately show ?case
    using Cons.IH [of _ "acc @ [i]"] Cons.prems(1) d by (simp add: decode_loop.simps [of acc])
qed



end
