(* ===== verification/Signals.thy ===== *)
theory Signals
  imports Prelude
begin

unbundle bit_operations_syntax

text \<open>
  Signal delivery of a process (kernel/src/process/signal.rs): the pending and blocked sets
  as 64-bit masks, the table of dispositions, and the default actions. The lemmas read a mask
  as the set of its bits; the properties are that SIGKILL and SIGSTOP are never blocked and
  that dequeuing delivers every deliverable signal once, lowest number first.
\<close>

section \<open>Numbers\<close>

abbreviation SIGHUP :: u8 where "SIGHUP \<equiv> 1"
abbreviation SIGINT :: u8 where "SIGINT \<equiv> 2"
abbreviation SIGQUIT :: u8 where "SIGQUIT \<equiv> 3"
abbreviation SIGILL :: u8 where "SIGILL \<equiv> 4"
abbreviation SIGTRAP :: u8 where "SIGTRAP \<equiv> 5"
abbreviation SIGABRT :: u8 where "SIGABRT \<equiv> 6"
abbreviation SIGBUS :: u8 where "SIGBUS \<equiv> 7"
abbreviation SIGFPE :: u8 where "SIGFPE \<equiv> 8"
abbreviation SIGKILL :: u8 where "SIGKILL \<equiv> 9"
abbreviation SIGUSR1 :: u8 where "SIGUSR1 \<equiv> 10"
abbreviation SIGSEGV :: u8 where "SIGSEGV \<equiv> 11"
abbreviation SIGUSR2 :: u8 where "SIGUSR2 \<equiv> 12"
abbreviation SIGPIPE :: u8 where "SIGPIPE \<equiv> 13"
abbreviation SIGALRM :: u8 where "SIGALRM \<equiv> 14"
abbreviation SIGTERM :: u8 where "SIGTERM \<equiv> 15"
abbreviation SIGCHLD :: u8 where "SIGCHLD \<equiv> 17"
abbreviation SIGCONT :: u8 where "SIGCONT \<equiv> 18"
abbreviation SIGSTOP :: u8 where "SIGSTOP \<equiv> 19"

abbreviation NSIG :: usize where "NSIG \<equiv> 64"

abbreviation SIG_BLOCK :: i32 where "SIG_BLOCK \<equiv> 0"
abbreviation SIG_UNBLOCK :: i32 where "SIG_UNBLOCK \<equiv> 1"
abbreviation SIG_SETMASK :: i32 where "SIG_SETMASK \<equiv> 2"

abbreviation SIG_DFL :: u64 where "SIG_DFL \<equiv> 0"

section \<open>State\<close>

record signal_action =
  sa_handler :: u64
  sa_mask :: u64
  sa_flags :: u64
  sa_restorer :: u64

definition signal_action_default :: signal_action where
  "signal_action_default = \<lparr>sa_handler = SIG_DFL, sa_mask = 0, sa_flags = 0, sa_restorer = 0\<rparr>"

record signal_state =
  sg_pending :: u64
  sg_blocked :: u64
  sg_handlers :: "signal_action list"

definition signal_state_new :: signal_state where
  "signal_state_new = \<lparr>sg_pending = 0, sg_blocked = 0, sg_handlers = replicate NSIG signal_action_default\<rparr>"

definition sig_bit :: "u8 \<Rightarrow> u64" where
  "sig_bit signum = push_bit (unat signum) 1"

section \<open>Operations\<close>

definition send_signal :: "u8 \<Rightarrow> signal_state \<Rightarrow> signal_state" where
  "send_signal signum s =
     (if unat signum < NSIG then s\<lparr>sg_pending := sg_pending s OR sig_bit signum\<rparr> else s)"

definition deliverable :: "signal_state \<Rightarrow> u64" where
  "deliverable s = sg_pending s AND NOT (sg_blocked s)"

definition has_deliverable_signal :: "signal_state \<Rightarrow> bool" where
  "has_deliverable_signal s = (deliverable s \<noteq> 0)"

definition dequeue_signal :: "signal_state \<Rightarrow> u8 option \<times> signal_state" where
  "dequeue_signal s =
     (if deliverable s = 0 then (None, s)
      else let signum = of_nat (trailing_zeros (deliverable s)) in
        (Some signum, s\<lparr>sg_pending := sg_pending s AND NOT (sig_bit signum)\<rparr>))"

definition get_action :: "signal_state \<Rightarrow> u8 \<Rightarrow> (unit, signal_action) result" where
  "get_action s signum =
     (let i = (if unat signum < NSIG then unat signum else 0) in
      if i < length (sg_handlers s) then Ok (sg_handlers s ! i) else Panic)"

definition set_action :: "u8 \<Rightarrow> signal_action \<Rightarrow> (signal_state, unit, signal_action) st" where
  "set_action signum action s =
     (if unat signum < NSIG then
        if unat signum < length (sg_handlers s)
        then (Ok (sg_handlers s ! unat signum), s\<lparr>sg_handlers := (sg_handlers s)[unat signum := action]\<rparr>)
        else (Panic, s)
      else (Ok signal_action_default, s))"

definition reset_handlers :: "signal_state \<Rightarrow> signal_state" where
  "reset_handlers s = s\<lparr>sg_handlers := map (\<lambda>_. signal_action_default) (sg_handlers s), sg_pending := 0\<rparr>"

definition sigprocmask :: "i32 \<Rightarrow> u64 \<Rightarrow> signal_state \<Rightarrow> signal_state" where
  "sigprocmask how sigs s =
     (let b = (if how = SIG_BLOCK then sg_blocked s OR sigs
               else if how = SIG_UNBLOCK then sg_blocked s AND NOT sigs
               else if how = SIG_SETMASK then sigs
               else sg_blocked s)
      in s\<lparr>sg_blocked := b AND NOT (sig_bit SIGKILL) AND NOT (sig_bit SIGSTOP)\<rparr>)"

definition default_action_is_terminate :: "u8 \<Rightarrow> bool" where
  "default_action_is_terminate signum = (signum \<in> {SIGHUP, SIGINT, SIGQUIT, SIGILL, SIGTRAP, SIGABRT,
     SIGBUS, SIGFPE, SIGKILL, SIGUSR1, SIGSEGV, SIGUSR2, SIGPIPE, SIGALRM, SIGTERM})"

abbreviation default_action_is_ignore :: "u8 \<Rightarrow> bool" where
  "default_action_is_ignore signum \<equiv> (signum \<in> {SIGCHLD, SIGCONT})"

abbreviation is_catchable :: "u8 \<Rightarrow> bool" where
  "is_catchable signum \<equiv> (signum \<noteq> SIGKILL \<and> signum \<noteq> SIGSTOP)"

section \<open>Masks as sets\<close>

definition members :: "u64 \<Rightarrow> nat set" where
  "members m = {i. bit m i}"

lemma members_ops [simp]:
  "members (a OR b) = members a \<union> members b" "members 0 = {}"
  by (auto simp: members_def bit_simps)

lemma members_bound: "i \<in> members m \<Longrightarrow> i < 64"
  using bit_imp_le_length [of m i] by (simp add: members_def)

lemma members_diff [simp]: "members (a AND NOT b) = members a - members b"
  by (auto simp: members_def bit_simps dest: bit_imp_le_length)

lemma members_sig_bit: "unat n < 64 \<Longrightarrow> members (sig_bit n) = {unat n}"
  by (auto simp: members_def sig_bit_def bit_simps)

lemma members_eq_empty: "members m = {} \<longleftrightarrow> m = 0"
  by (metis (mono_tags, lifting) bit_eq_iff bit_0_eq bot_apply bot_bool_def empty_Collect_eq members_def)

lemma finite_members [simp]: "finite (members m)"
  by (rule finite_subset [of _ "{..<64}"]) (auto dest: members_bound)

lemma trailing_zeros_members: "m \<noteq> 0 \<Longrightarrow> trailing_zeros m = Min (members m)"
  by (rule Min_eqI [symmetric])
     (auto simp: members_def trailing_zeros_bit(2) not_less [symmetric] dest: trailing_zeros_below)

lemma members_deliverable: "members (deliverable s) = members (sg_pending s) - members (sg_blocked s)"
  by (simp add: deliverable_def)

section \<open>Invariant\<close>

definition signals_wf :: "signal_state \<Rightarrow> bool" where
  "signals_wf s \<longleftrightarrow> length (sg_handlers s) = NSIG \<and> \<not> bit (sg_blocked s) 9 \<and> \<not> bit (sg_blocked s) 19"

lemma bit_sig_bit: "bit (sig_bit n) i \<longleftrightarrow> i = unat n \<and> i < 64"
  by (auto simp: sig_bit_def bit_simps)

text \<open>SIGKILL and SIGSTOP can never be blocked, and the disposition table has an entry for
  every signal number: both hold initially and every operation keeps them.\<close>

theorem signals_invariant:
  "signals_wf signal_state_new \<and>
   (signals_wf s \<longrightarrow> signals_wf (send_signal n s) \<and> signals_wf (snd (dequeue_signal s))
     \<and> signals_wf (snd (set_action n a s)) \<and> signals_wf (reset_handlers s)
     \<and> signals_wf (sigprocmask how sigs s))"
  by (auto simp: signals_wf_def signal_state_new_def send_signal_def dequeue_signal_def Let_def
      set_action_def reset_handlers_def sigprocmask_def bit_simps bit_sig_bit)

theorem signals_invariant_witness:
  "signals_wf (sigprocmask SIG_BLOCK (- 1) signal_state_new)"
  using signals_invariant [of signal_state_new 0 signal_action_default SIG_BLOCK "- 1"] by blast

section \<open>Delivery\<close>

lemma dequeue_None: "fst (dequeue_signal s) = None \<longleftrightarrow> members (deliverable s) = {}"
  by (simp add: dequeue_signal_def Let_def members_eq_empty)

lemma dequeue_Some:
  assumes "dequeue_signal s = (Some n, s')"
  shows "unat n = Min (members (deliverable s))" and "unat n \<in> members (deliverable s)"
    and "members (sg_pending s') = members (sg_pending s) - {unat n}" and "sg_blocked s' = sg_blocked s"
proof -
  have nz: "deliverable s \<noteq> 0" and n: "n = of_nat (trailing_zeros (deliverable s))"
    and s': "s' = s\<lparr>sg_pending := sg_pending s AND NOT (sig_bit n)\<rparr>"
    using assms by (auto simp: dequeue_signal_def Let_def split: if_splits)
  have "trailing_zeros (deliverable s) < 64" using trailing_zeros_bit(1) [OF nz] by simp
  then have un: "unat n = trailing_zeros (deliverable s)"
    by (simp add: n unat_of_nat take_bit_nat_eq_self)
  then show "unat n = Min (members (deliverable s))" using trailing_zeros_members [OF nz] by simp
  show "unat n \<in> members (deliverable s)" using trailing_zeros_bit(2) [OF nz] un by (simp add: members_def)
  have "unat n < 64" using un \<open>trailing_zeros (deliverable s) < 64\<close> by simp
  then show "members (sg_pending s') = members (sg_pending s) - {unat n}" "sg_blocked s' = sg_blocked s"
    by (simp_all add: s' members_sig_bit)
qed

text \<open>Dequeue until nothing is deliverable, as the return to user space does.\<close>

function drain :: "signal_state \<Rightarrow> nat list \<times> signal_state" where
  "drain s = (case dequeue_signal s of
     (None, s') \<Rightarrow> ([], s')
   | (Some n, s') \<Rightarrow> (case drain s' of (ns, s'') \<Rightarrow> (unat n # ns, s'')))"
  by pat_completeness auto

termination
proof (relation "measure (\<lambda>s. card (members (sg_pending s)))", goal_cases)
  case (2 s x s' a)
  then have d: "dequeue_signal s = (Some a, s')" by simp
  have "unat a \<in> members (sg_pending s)"
    using dequeue_Some(2) [OF d] by (simp add: members_deliverable)
  then have "card (members (sg_pending s) - {unat a}) < card (members (sg_pending s))"
    by (intro card_Diff1_less) simp_all
  then show ?case using dequeue_Some(3) [OF d] by simp
qed simp

declare drain.simps [simp del]

text \<open>C25. Delivery is complete, ordered and exact: dequeuing until nothing is left yields every
  signal that is pending and not blocked exactly once, in increasing order, and leaves
  exactly the blocked ones pending.\<close>

theorem drain_delivers:
  "fst (drain s) = sorted_list_of_set (members (sg_pending s) - members (sg_blocked s))
   \<and> members (sg_pending (snd (drain s))) = members (sg_pending s) \<inter> members (sg_blocked s)
   \<and> sg_blocked (snd (drain s)) = sg_blocked s"
proof (induction s rule: drain.induct)
  case (1 s)
  show ?case
  proof (cases "dequeue_signal s")
    case (Pair r s')
    show ?thesis
    proof (cases r)
      case None
      then have "members (sg_pending s) - members (sg_blocked s) = {}"
        using dequeue_None [of s] Pair by (simp add: members_deliverable)
      moreover have "s' = s" using None Pair by (auto simp: dequeue_signal_def Let_def split: if_splits)
      ultimately show ?thesis using None Pair
        by (simp add: drain.simps [of s] Int_absorb2 Diff_eq_empty_iff [THEN iffD2])
    next
      case (Some n)
      with Pair have d: "dequeue_signal s = (Some n, s')" by simp
      note facts = dequeue_Some [OF d] and IH = "1.IH" [OF Pair [symmetric] Some]
      let ?D = "members (sg_pending s) - members (sg_blocked s)"
      have rest: "members (sg_pending s') - members (sg_blocked s') = ?D - {Min ?D}"
        using facts by (auto simp: members_deliverable)
      have "sorted_list_of_set ?D = Min ?D # sorted_list_of_set (?D - {Min ?D})"
        using facts(2) by (intro sorted_list_of_set_nonempty) (auto simp: members_deliverable)
      moreover have "drain s = (unat n # fst (drain s'), snd (drain s'))"
        using d by (simp add: drain.simps [of s] split: prod.split)
      moreover have "unat n = Min ?D" "unat n \<notin> members (sg_blocked s)"
        using facts(1,2) by (simp_all add: members_deliverable)
      moreover have "members (sg_pending s') \<inter> members (sg_blocked s') = members (sg_pending s) \<inter> members (sg_blocked s)"
        using facts(3,4) \<open>unat n \<notin> members (sg_blocked s)\<close> by auto
      ultimately show ?thesis using IH rest facts(4) by simp
    qed
  qed
qed

end
