(* ===== verification/Steps.thy ===== *)
theory Steps
  imports Prelude
begin

text \<open>
  Sequences of operations. A component is driven by a stream of operations; each takes the
  state to an answer and a new state. The locale \<open>op_invariant\<close> is the contract of an
  invariant: every operation keeps it, and \<open>budget_invariant\<close> one that holds for a
  limited number of operations. The locale \<open>op_simulation\<close> is the contract of an
  implementation: there is an abstraction under which each operation gives the answer and the
  state of the specification. Their lemmas extend both from one operation to all sequences.
\<close>

type_synonym ('op, 'out, 's) machine_step = "'op \<Rightarrow> 's \<Rightarrow> 'out \<times> 's"

fun run :: "('op, 'out, 's) machine_step \<Rightarrow> 'op list \<Rightarrow> 's \<Rightarrow> 'out list \<times> 's" where
  "run step [] s = ([], s)"
| "run step (op # ops) s =
     (case step op s of (out, s') \<Rightarrow> case run step ops s' of (outs, s'') \<Rightarrow> (out # outs, s''))"

lemma run_Cons:
  "run step (op # ops) s =
     (fst (step op s) # fst (run step ops (snd (step op s))), snd (run step ops (snd (step op s))))"
  by (simp split: prod.split)

lemma length_run [simp]: "length (fst (run step ops s)) = length ops"
  by (induction ops arbitrary: s) (simp_all add: run_Cons del: run.simps(2))

lemma run_append:
  "run step (xs @ ys) s =
     (fst (run step xs s) @ fst (run step ys (snd (run step xs s))), snd (run step ys (snd (run step xs s))))"
  by (induction xs arbitrary: s) (simp_all add: run_Cons del: run.simps(2))

locale op_invariant =
  fixes step :: "('op, 'out, 's) machine_step" and inv :: "'s \<Rightarrow> bool"
  assumes inv_step: "inv s \<Longrightarrow> inv (snd (step op s))"
begin

lemma inv_run: "inv s \<Longrightarrow> inv (snd (run step ops s))"
  by (induction ops arbitrary: s) (simp_all add: run_Cons inv_step del: run.simps(2))

end

text \<open>
  An invariant with a budget, for code that draws fresh identifiers from a counter that wraps
  around: \<open>inv n\<close> leaves room for \<open>n\<close> more operations, and each operation uses at most one.
\<close>

locale budget_invariant =
  fixes step :: "('op, 'out, 's) machine_step" and inv :: "nat \<Rightarrow> 's \<Rightarrow> bool"
  assumes inv_budget_step: "inv (Suc n) s \<Longrightarrow> inv n (snd (step op s))"
begin

lemma inv_budget_run: "inv (n + length ops) s \<Longrightarrow> inv n (snd (run step ops s))"
  by (induction ops arbitrary: s) (simp_all add: run_Cons inv_budget_step del: run.simps(2))

end

locale op_simulation = op_invariant step inv
  for step :: "('op, 'out, 's) machine_step" and inv :: "'s \<Rightarrow> bool" +
  fixes spec :: "('op, 'out, 'a) machine_step" and abs :: "'s \<Rightarrow> 'a"
  assumes sim_out: "inv s \<Longrightarrow> fst (spec op (abs s)) = fst (step op s)"
    and sim_state: "inv s \<Longrightarrow> snd (spec op (abs s)) = abs (snd (step op s))"
begin

lemma sim_run: "inv s \<Longrightarrow> run spec ops (abs s) = (fst (run step ops s), abs (snd (run step ops s)))"
  by (induction ops arbitrary: s) (simp_all add: run_Cons sim_out sim_state inv_step del: run.simps(2))

end

end
