(* ===== verification/Ipc.thy ===== *)
theory Ipc
  imports Steps
begin

unbundle bit_operations_syntax

text \<open>
  Inter-process communication (kernel/src/ipc): messages (message.rs), channels (channel.rs),
  capabilities (capability.rs) and the registry that owns both (mod.rs). The operations of the
  registry are driven as a sequence of calls; the properties are that messages arrive
  unchanged and in order, that a derived capability never has more rights than the one
  it comes from, and what the queue limit does and does not bound.
\<close>

section \<open>Messages\<close>

datatype message_type =
  MtData | MtRequest | MtReply | MtError | MtCapabilityTransfer | MtClose | MtPing | MtPong

record message_header =
  mh_msg_type :: message_type
  mh_flags :: u32
  mh_sequence :: u64
  mh_sender_pid :: u64
  mh_data_len :: u32
  mh_cap_count :: u32

definition header_new_data :: "usize \<Rightarrow> message_header" where
  "header_new_data data_len = \<lparr>mh_msg_type = MtData, mh_flags = 0, mh_sequence = 0, mh_sender_pid = 0,
     mh_data_len = of_nat data_len, mh_cap_count = 0\<rparr>"

definition header_new_request :: "u64 \<Rightarrow> usize \<Rightarrow> message_header" where
  "header_new_request sequence data_len = \<lparr>mh_msg_type = MtRequest, mh_flags = 0, mh_sequence = sequence,
     mh_sender_pid = 0, mh_data_len = of_nat data_len, mh_cap_count = 0\<rparr>"

definition header_new_reply :: "u64 \<Rightarrow> usize \<Rightarrow> message_header" where
  "header_new_reply sequence data_len = \<lparr>mh_msg_type = MtReply, mh_flags = 0, mh_sequence = sequence,
     mh_sender_pid = 0, mh_data_len = of_nat data_len, mh_cap_count = 0\<rparr>"

definition header_new_error :: "u32 \<Rightarrow> message_header" where
  "header_new_error error_code = \<lparr>mh_msg_type = MtError, mh_flags = error_code, mh_sequence = 0,
     mh_sender_pid = 0, mh_data_len = 0, mh_cap_count = 0\<rparr>"

text \<open>The header is \<open>repr(C)\<close>: 32 bytes.\<close>

abbreviation header_total_size :: "message_header \<Rightarrow> usize" where
  "header_total_size h \<equiv> 32 + unat (mh_data_len h)"

record message =
  ms_header :: message_header
  ms_data :: "u8 list"
  ms_capabilities :: "u64 list"

definition message_new :: "message_type \<Rightarrow> message" where
  "message_new t = \<lparr>ms_header = \<lparr>mh_msg_type = t, mh_flags = 0, mh_sequence = 0, mh_sender_pid = 0,
     mh_data_len = 0, mh_cap_count = 0\<rparr>, ms_data = [], ms_capabilities = []\<rparr>"

definition set_data :: "u8 list \<Rightarrow> message \<Rightarrow> message" where
  "set_data bytes m = m\<lparr>ms_header := (ms_header m)\<lparr>mh_data_len := of_nat (length bytes)\<rparr>, ms_data := bytes\<rparr>"

definition message_with_data :: "u8 list \<Rightarrow> message" where
  "message_with_data bytes =
     (let m = message_new MtData in
      m\<lparr>ms_header := (ms_header m)\<lparr>mh_data_len := of_nat (length bytes)\<rparr>, ms_data := bytes\<rparr>)"

definition message_request :: "u64 \<Rightarrow> u8 list \<Rightarrow> message" where
  "message_request sequence bytes =
     (let m = message_new MtRequest in
      m\<lparr>ms_header := (ms_header m)\<lparr>mh_sequence := sequence, mh_data_len := of_nat (length bytes)\<rparr>,
        ms_data := bytes\<rparr>)"

definition message_reply :: "u64 \<Rightarrow> u8 list \<Rightarrow> message" where
  "message_reply sequence bytes =
     (let m = message_new MtReply in
      m\<lparr>ms_header := (ms_header m)\<lparr>mh_sequence := sequence, mh_data_len := of_nat (length bytes)\<rparr>,
        ms_data := bytes\<rparr>)"

definition message_error :: "u32 \<Rightarrow> message" where
  "message_error error_code =
     (let m = message_new MtError in m\<lparr>ms_header := (ms_header m)\<lparr>mh_flags := error_code\<rparr>\<rparr>)"

definition add_capability :: "u64 \<Rightarrow> message \<Rightarrow> message" where
  "add_capability cap_id m =
     (let caps = ms_capabilities m @ [cap_id] in
      m\<lparr>ms_capabilities := caps, ms_header := (ms_header m)\<lparr>mh_cap_count := of_nat (length caps)\<rparr>\<rparr>)"

definition set_sender :: "u64 \<Rightarrow> message \<Rightarrow> message" where
  "set_sender pid m = m\<lparr>ms_header := (ms_header m)\<lparr>mh_sender_pid := pid\<rparr>\<rparr>"

abbreviation message_total_size :: "message \<Rightarrow> usize" where
  "message_total_size m \<equiv> 32 + length (ms_data m) + length (ms_capabilities m) * 8"

section \<open>Channels\<close>

abbreviation MAX_MESSAGE_SIZE :: usize where "MAX_MESSAGE_SIZE \<equiv> 64 * 1024"
abbreviation MAX_QUEUE_DEPTH :: usize where "MAX_QUEUE_DEPTH \<equiv> 256"

datatype channel_state = ChOpen | ChClosed

record channel =
  ch_id :: u64
  ch_peer_id :: u64
  ch_state :: channel_state
  ch_queue :: "message list"
  ch_waiters :: "u64 list"
  ch_flow_control_limit :: usize

definition channel_new :: "u64 \<Rightarrow> u64 \<Rightarrow> channel" where
  "channel_new i peer = \<lparr>ch_id = i, ch_peer_id = peer, ch_state = ChOpen, ch_queue = [], ch_waiters = [],
     ch_flow_control_limit = MAX_QUEUE_DEPTH\<rparr>"

definition ch_is_closed :: "channel \<Rightarrow> bool" where
  "ch_is_closed c = (ch_state c = ChClosed)"

definition ch_close :: "channel \<Rightarrow> channel" where
  "ch_close c = c\<lparr>ch_state := ChClosed\<rparr>"

definition ch_enqueue :: "message \<Rightarrow> channel \<Rightarrow> channel" where
  "ch_enqueue m c = c\<lparr>ch_queue := ch_queue c @ [m]\<rparr>"

definition ch_dequeue :: "channel \<Rightarrow> message option \<times> channel" where
  "ch_dequeue c = (case ch_queue c of [] \<Rightarrow> (None, c) | m # ms \<Rightarrow> (Some m, c\<lparr>ch_queue := ms\<rparr>))"

abbreviation ch_peek :: "channel \<Rightarrow> message option" where
  "ch_peek c \<equiv> (case ch_queue c of [] \<Rightarrow> None | m # _ \<Rightarrow> Some m)"

definition ch_queue_len :: "channel \<Rightarrow> usize" where
  "ch_queue_len c = length (ch_queue c)"

definition ch_is_full :: "channel \<Rightarrow> bool" where
  "ch_is_full c = (length (ch_queue c) \<ge> ch_flow_control_limit c)"

definition ch_add_waiter :: "u64 \<Rightarrow> channel \<Rightarrow> channel" where
  "ch_add_waiter t c = c\<lparr>ch_waiters := ch_waiters c @ [t]\<rparr>"

definition ch_remove_waiter :: "u64 \<Rightarrow> channel \<Rightarrow> channel" where
  "ch_remove_waiter t c = c\<lparr>ch_waiters := filter (\<lambda>i. i \<noteq> t) (ch_waiters c)\<rparr>"

definition ch_set_flow_control_limit :: "usize \<Rightarrow> channel \<Rightarrow> channel" where
  "ch_set_flow_control_limit limit c = c\<lparr>ch_flow_control_limit := limit\<rparr>"

section \<open>Capabilities\<close>

datatype capability_type = CtChannel | CtMemory | CtDevice | CtFile | CtProcess | CtNetwork | CtGraphics

abbreviation RIGHT_DERIVE :: u32 where "RIGHT_DERIVE \<equiv> 8"
abbreviation RIGHTS_ALL :: u32 where "RIGHTS_ALL \<equiv> 255"

record capability =
  cp_id :: u64
  cp_type :: capability_type
  cp_rights :: u32
  cp_resource_id :: u64
  cp_owner :: u64
  cp_children :: "u64 list"
  cp_parent :: "u64 option"
  cp_created_at :: u64
  cp_revoked :: bool

definition capability_new :: "u64 \<Rightarrow> capability_type \<Rightarrow> capability" where
  "capability_new i t = \<lparr>cp_id = i, cp_type = t, cp_rights = 0, cp_resource_id = 0, cp_owner = 0,
     cp_children = [], cp_parent = None, cp_created_at = 0, cp_revoked = False\<rparr>"

definition capability_new_full :: "u64 \<Rightarrow> capability_type \<Rightarrow> u64 \<Rightarrow> u64 \<Rightarrow> capability" where
  "capability_new_full i t resource_id owner = \<lparr>cp_id = i, cp_type = t, cp_rights = RIGHTS_ALL,
     cp_resource_id = resource_id, cp_owner = owner, cp_children = [], cp_parent = None,
     cp_created_at = 0, cp_revoked = False\<rparr>"

text \<open>\<open>contains\<close> of the bit flags.\<close>

definition has_right :: "capability \<Rightarrow> u32 \<Rightarrow> bool" where
  "has_right c right = (cp_rights c AND right = right)"

abbreviation cap_is_valid :: "capability \<Rightarrow> bool" where
  "cap_is_valid c \<equiv> (\<not> cp_revoked c)"

definition cap_revoke :: "capability \<Rightarrow> capability" where
  "cap_revoke c = c\<lparr>cp_revoked := True\<rparr>"

definition cap_derive :: "capability \<Rightarrow> u64 \<Rightarrow> u32 \<Rightarrow> capability option" where
  "cap_derive c new_id rights =
     (if \<not> has_right c RIGHT_DERIVE then None
      else Some ((capability_new new_id (cp_type c))\<lparr>cp_rights := cp_rights c AND rights,
                   cp_resource_id := cp_resource_id c, cp_parent := Some (cp_id c)\<rparr>))"

definition cap_add_child :: "u64 \<Rightarrow> capability \<Rightarrow> capability" where
  "cap_add_child i c = c\<lparr>cp_children := cp_children c @ [i]\<rparr>"

text \<open>The capabilities a process holds.\<close>

record capability_space =
  cs_process_id :: u64
  cs_capabilities :: "u64 set"

definition cspace_new :: "u64 \<Rightarrow> capability_space" where
  "cspace_new pid = \<lparr>cs_process_id = pid, cs_capabilities = {}\<rparr>"

definition cspace_add :: "u64 \<Rightarrow> capability_space \<Rightarrow> capability_space" where
  "cspace_add i s = s\<lparr>cs_capabilities := insert i (cs_capabilities s)\<rparr>"

definition cspace_remove :: "u64 \<Rightarrow> capability_space \<Rightarrow> bool \<times> capability_space" where
  "cspace_remove i s = (i \<in> cs_capabilities s, s\<lparr>cs_capabilities := cs_capabilities s - {i}\<rparr>)"

abbreviation cspace_contains :: "u64 \<Rightarrow> capability_space \<Rightarrow> bool" where
  "cspace_contains i s \<equiv> (i \<in> cs_capabilities s)"

section \<open>The registry\<close>

datatype ipc_error =
    NotInitialized | ChannelNotFound | ChannelClosed | QueueFull | QueueEmpty | MessageTooLarge
  | InvalidCapability | PermissionDenied | WouldBlock

record ipc_registry =
  ir_channels :: "u64 \<rightharpoonup> channel"
  ir_capabilities :: "u64 \<rightharpoonup> capability"
  ir_next_channel_id :: u64
  ir_next_capability_id :: u64

definition registry_new :: ipc_registry where
  "registry_new = \<lparr>ir_channels = Map.empty, ir_capabilities = Map.empty, ir_next_channel_id = 1,
     ir_next_capability_id = 1\<rparr>"

definition create_channel_pair :: "ipc_registry \<Rightarrow> (u64 \<times> u64) option \<times> ipc_registry" where
  "create_channel_pair r =
     (let id_a = ir_next_channel_id r; id_b = id_a + 1 in
      (Some (id_a, id_b),
       r\<lparr>ir_channels := (ir_channels r)(id_a \<mapsto> channel_new id_a id_b, id_b \<mapsto> channel_new id_b id_a),
         ir_next_channel_id := id_b + 1\<rparr>))"

definition ipc_send :: "u64 \<Rightarrow> message \<Rightarrow> (ipc_registry, ipc_error, unit) st" where
  "ipc_send channel_id m r =
     (if length (ms_data m) > MAX_MESSAGE_SIZE then (Err MessageTooLarge, r)
      else case ir_channels r channel_id of
        None \<Rightarrow> (Err ChannelNotFound, r)
      | Some chan \<Rightarrow>
          if ch_is_closed chan then (Err ChannelClosed, r)
          else if ch_queue_len chan \<ge> MAX_QUEUE_DEPTH then (Err QueueFull, r)
          else case ir_channels r (ch_peer_id chan) of
            None \<Rightarrow> (Err ChannelNotFound, r)
          | Some peer \<Rightarrow>
              (Ok (), r\<lparr>ir_channels := (ir_channels r)(ch_peer_id chan \<mapsto> ch_enqueue m peer)\<rparr>))"

definition ipc_receive :: "u64 \<Rightarrow> (ipc_registry, ipc_error, message) st" where
  "ipc_receive channel_id r =
     (case ir_channels r channel_id of
        None \<Rightarrow> (Err ChannelNotFound, r)
      | Some chan \<Rightarrow>
          (case ch_dequeue chan of
             (None, chan') \<Rightarrow> (Err QueueEmpty, r)
           | (Some m, chan') \<Rightarrow> (Ok m, r\<lparr>ir_channels := (ir_channels r)(channel_id \<mapsto> chan')\<rparr>)))"

definition close_channel :: "u64 \<Rightarrow> (ipc_registry, ipc_error, unit) st" where
  "close_channel channel_id r =
     (case ir_channels r channel_id of
        None \<Rightarrow> (Err ChannelNotFound, r)
      | Some chan \<Rightarrow> (Ok (), r\<lparr>ir_channels := (ir_channels r)(channel_id \<mapsto> ch_close chan)\<rparr>))"

definition create_capability :: "capability_type \<Rightarrow> ipc_registry \<Rightarrow> u64 \<times> ipc_registry" where
  "create_capability t r =
     (let i = ir_next_capability_id r in
      (i, r\<lparr>ir_capabilities := (ir_capabilities r)(i \<mapsto> capability_new i t), ir_next_capability_id := i + 1\<rparr>))"

definition validate_capability :: "ipc_registry \<Rightarrow> u64 \<Rightarrow> (ipc_error, capability) result" where
  "validate_capability r i = ok_or InvalidCapability (ir_capabilities r i)"

definition revoke_capability :: "u64 \<Rightarrow> (ipc_registry, ipc_error, unit) st" where
  "revoke_capability i r =
     (case ir_capabilities r i of
        None \<Rightarrow> (Err InvalidCapability, r)
      | Some _ \<Rightarrow> (Ok (), r\<lparr>ir_capabilities := (ir_capabilities r)(i := None)\<rparr>))"

section \<open>Sequences of calls\<close>

datatype ipc_op = OpCreate | OpSend u64 message | OpReceive u64 | OpClose u64

datatype ipc_out =
    OutCreated "(u64 \<times> u64) option" | OutSent "(ipc_error, unit) result"
  | OutReceived "(ipc_error, message) result" | OutClosed "(ipc_error, unit) result"

fun ipc_step :: "ipc_op \<Rightarrow> ipc_registry \<Rightarrow> ipc_out \<times> ipc_registry" where
  "ipc_step OpCreate r = (case create_channel_pair r of (x, r') \<Rightarrow> (OutCreated x, r'))"
| "ipc_step (OpSend i m) r = (case ipc_send i m r of (x, r') \<Rightarrow> (OutSent x, r'))"
| "ipc_step (OpReceive i) r = (case ipc_receive i r of (x, r') \<Rightarrow> (OutReceived x, r'))"
| "ipc_step (OpClose i) r = (case close_channel i r of (x, r') \<Rightarrow> (OutClosed x, r'))"

text \<open>The registry before the identifiers run out: identifiers in use are below the next one,
  and every channel's peer exists and names it.\<close>

definition ipc_wf :: "ipc_registry \<Rightarrow> bool" where
  "ipc_wf r \<longleftrightarrow>
     (\<forall>i c. ir_channels r i = Some c \<longrightarrow> ch_id c = i \<and> unat i < unat (ir_next_channel_id r)
        \<and> ch_peer_id c \<noteq> i \<and> (\<exists>p. ir_channels r (ch_peer_id c) = Some p \<and> ch_peer_id p = i))"

definition inbox :: "ipc_registry \<Rightarrow> u64 \<Rightarrow> message list" where
  "inbox r i = (case ir_channels r i of None \<Rightarrow> [] | Some c \<Rightarrow> ch_queue c)"

definition peer_of :: "ipc_registry \<Rightarrow> u64 \<Rightarrow> u64 option" where
  "peer_of r i = map_option ch_peer_id (ir_channels r i)"


lemma ipc_wf_new: "ipc_wf registry_new"
  by (simp add: ipc_wf_def registry_new_def)

lemma unat_succ: "unat (i :: u64) + 1 < 2 ^ 64 \<Longrightarrow> unat (i + 1) = unat i + 1"
  using unat_word_ariths(1) [of i 1] by simp

lemma ipc_wf_fresh: "ipc_wf r \<Longrightarrow> unat (ir_next_channel_id r) \<le> unat i \<Longrightarrow> ir_channels r i = None"
  by (rule ccontr) (fastforce simp: ipc_wf_def)

definition room :: "ipc_registry \<Rightarrow> nat \<Rightarrow> bool" where
  "room r n \<longleftrightarrow> unat (ir_next_channel_id r) + 2 * n < 2 ^ 64"

lemma create_wf:
  assumes "ipc_wf r" and "room r 1"
  shows "ipc_wf (snd (create_channel_pair r))"
    and "unat (ir_next_channel_id (snd (create_channel_pair r))) = unat (ir_next_channel_id r) + 2"
proof -
  let ?a = "ir_next_channel_id r"
  have a: "unat (?a + 1) = unat ?a + 1" "unat (?a + 1 + 1) = unat ?a + 2"
    using assms(2) unat_succ [of ?a] unat_succ [of "?a + 1"] by (simp_all add: room_def)
  then have ne: "?a + 1 \<noteq> ?a" by (metis n_not_Suc_n Suc_eq_plus1)
  have fresh: "ir_channels r ?a = None" "ir_channels r (?a + 1) = None"
    using ipc_wf_fresh [OF assms(1)] a(1) by simp_all
  show "unat (ir_next_channel_id (snd (create_channel_pair r))) = unat ?a + 2"
    using a by (simp add: create_channel_pair_def Let_def)
  show "ipc_wf (snd (create_channel_pair r))"
    unfolding ipc_wf_def
  proof (intro allI impI)
    fix i c
    assume "ir_channels (snd (create_channel_pair r)) i = Some c"
    then consider "i = ?a" "c = channel_new ?a (?a + 1)" | "i = ?a + 1" "c = channel_new (?a + 1) ?a"
      | "i \<noteq> ?a" "i \<noteq> ?a + 1" "ir_channels r i = Some c"
      using ne by (auto simp: create_channel_pair_def Let_def split: if_splits)
    then show "ch_id c = i \<and> unat i < unat (ir_next_channel_id (snd (create_channel_pair r)))
        \<and> ch_peer_id c \<noteq> i \<and> (\<exists>p. ir_channels (snd (create_channel_pair r)) (ch_peer_id c) = Some p \<and> ch_peer_id p = i)"
    proof cases
      case 3
      then have "ch_id c = i \<and> unat i < unat ?a \<and> ch_peer_id c \<noteq> i
          \<and> (\<exists>p. ir_channels r (ch_peer_id c) = Some p \<and> ch_peer_id p = i)"
        using assms(1) by (simp add: ipc_wf_def)
      moreover have "ch_peer_id c \<noteq> ?a" "ch_peer_id c \<noteq> ?a + 1" using calculation fresh by auto
      ultimately show ?thesis using a by (simp add: create_channel_pair_def Let_def)
    qed (use a ne in \<open>simp_all add: create_channel_pair_def Let_def channel_new_def\<close>)
  qed
qed

text \<open>The other calls change one channel, keeping its identity.\<close>

lemma update_channel_wf:
  assumes "ipc_wf r" and "ir_channels r i = Some c" and "ch_id c' = ch_id c" and "ch_peer_id c' = ch_peer_id c"
  shows "ipc_wf (r\<lparr>ir_channels := (ir_channels r)(i \<mapsto> c')\<rparr>)"
  using assms unfolding ipc_wf_def by (auto split: if_splits) (metis option.inject)+

lemmas ipc_call_defs = ipc_send_def ipc_receive_def close_channel_def ch_dequeue_def ch_enqueue_def ch_close_def

lemma ipc_step_wf:
  assumes "ipc_wf r" and "room r 1"
  shows "ipc_wf (snd (ipc_step op r))"
    and "unat (ir_next_channel_id (snd (ipc_step op r))) \<le> unat (ir_next_channel_id r) + 2"
  using create_wf [OF assms] assms(1)
  by (cases op; auto simp: ipc_call_defs split: prod.split option.split list.split intro: update_channel_wf)+

lemma ipc_step_peer:
  assumes "ipc_wf r" and "room r 1" and "peer_of r i = Some p"
  shows "peer_of (snd (ipc_step op r)) i = Some p"
proof (cases op)
  case OpCreate
  have "ir_channels r i \<noteq> None" using assms(3) by (auto simp: peer_of_def)
  then have "unat i < unat (ir_next_channel_id r)" using assms(1) by (auto simp: ipc_wf_def)
  then have "i \<noteq> ir_next_channel_id r" "i \<noteq> ir_next_channel_id r + 1"
    using assms(2) unat_succ [of "ir_next_channel_id r"] by (auto simp: room_def)
  then show ?thesis using OpCreate assms(3)
    by (simp add: create_channel_pair_def Let_def peer_of_def)
qed (use assms(3) in \<open>auto simp: peer_of_def ipc_call_defs split: prod.split option.split list.split\<close>)

lemma ipc_run_peer:
  assumes "ipc_wf r" and "room r (length ops)" and "peer_of r i = Some p"
  shows "peer_of (snd (run ipc_step ops r)) i = Some p"
  using assms
proof (induction ops arbitrary: r)
  case (Cons op ops)
  then have r: "room r 1" by (simp add: room_def)
  have "room (snd (ipc_step op r)) (length ops)"
    using ipc_step_wf(2) [OF Cons.prems(1) r, of op] Cons.prems(2) by (simp add: room_def)
  with Cons.IH ipc_step_wf(1) [OF Cons.prems(1) r] ipc_step_peer [OF Cons.prems(1) r Cons.prems(3)]
  show ?case by (simp add: run_Cons del: run.simps(2))
qed simp

section \<open>Delivery\<close>

text \<open>What a sequence of calls sent to an endpoint, by the peers of the final registry, and what
  was received there.\<close>

fun sent1 :: "ipc_registry \<Rightarrow> u64 \<Rightarrow> ipc_op \<Rightarrow> ipc_out \<Rightarrow> message list" where
  "sent1 r b (OpSend a m) (OutSent (Ok _)) = (if peer_of r a = Some b then [m] else [])"
| "sent1 r b _ _ = []"

fun received1 :: "u64 \<Rightarrow> ipc_op \<Rightarrow> ipc_out \<Rightarrow> message list" where
  "received1 b (OpReceive i) (OutReceived (Ok m)) = (if i = b then [m] else [])"
| "received1 b _ _ = []"

definition sent_to :: "ipc_registry \<Rightarrow> u64 \<Rightarrow> ipc_op list \<Rightarrow> ipc_out list \<Rightarrow> message list" where
  "sent_to r b ops outs = concat (map2 (sent1 r b) ops outs)"

definition received_on :: "u64 \<Rightarrow> ipc_op list \<Rightarrow> ipc_out list \<Rightarrow> message list" where
  "received_on b ops outs = concat (map2 (received1 b) ops outs)"

lemma ipc_step_fifo:
  assumes wf: "ipc_wf r" and room: "room r 1"
    and peers: "\<And>i p. peer_of r i = Some p \<Longrightarrow> peer_of r' i = Some p"
  shows "received1 b op (fst (ipc_step op r)) @ inbox (snd (ipc_step op r)) b
       = inbox r b @ sent1 r' b op (fst (ipc_step op r))"
proof (cases op)
  case OpCreate
  have "ir_channels r (ir_next_channel_id r) = None" "ir_channels r (ir_next_channel_id r + 1) = None"
    using ipc_wf_fresh [OF wf] room unat_succ [of "ir_next_channel_id r"] by (simp_all add: room_def)
  then show ?thesis using OpCreate
    by (auto simp: create_channel_pair_def Let_def inbox_def channel_new_def)
next
  case (OpSend a m)
  show ?thesis
  proof (cases "fst (ipc_send a m r)")
    case (Ok x)
    then obtain c p where c: "ir_channels r a = Some c" "ir_channels r (ch_peer_id c) = Some p"
      and snd: "snd (ipc_send a m r) = r\<lparr>ir_channels := (ir_channels r)(ch_peer_id c \<mapsto> ch_enqueue m p)\<rparr>"
      by (auto simp: ipc_send_def split: if_splits option.splits)
    then have "peer_of r' a = Some (ch_peer_id c)" using peers by (simp add: peer_of_def)
    then show ?thesis using OpSend Ok c snd
      by (auto simp: inbox_def ch_enqueue_def split: prod.split)
  next
    case (Err e)
    then have "snd (ipc_send a m r) = r"
      by (auto simp: ipc_send_def split: if_splits option.splits)
    then show ?thesis using OpSend Err by (auto split: prod.split)
  next
    case Panic
    then show ?thesis by (auto simp: ipc_send_def split: if_splits option.splits)
  qed
next
  case (OpReceive i)
  then show ?thesis
    by (auto simp: ipc_receive_def ch_dequeue_def inbox_def split: option.split list.split)
next
  case (OpClose i)
  then show ?thesis by (auto simp: close_channel_def ch_close_def inbox_def split: option.split)
qed

text \<open>C22. Reliable, ordered delivery: for every sequence of registry calls and every endpoint, the
  messages received there followed by those still queued are exactly the messages that were
  queued before followed by those successfully sent to it, in the order of the calls. Nothing
  is lost, duplicated or reordered, also when endpoints are closed in between.\<close>

theorem ipc_fifo:
  assumes "ipc_wf r" and "room r (length ops)" and "run ipc_step ops r = (outs, r')"
  shows "received_on b ops outs @ inbox r' b = inbox r b @ sent_to r' b ops outs"
  using assms
proof (induction ops arbitrary: r outs)
  case Nil
  then show ?case by (simp add: received_on_def sent_to_def)
next
  case (Cons op ops)
  define r1 outs1 where r1: "r1 = snd (ipc_step op r)" and outs1: "outs1 = fst (run ipc_step ops r1)"
  have room1: "room r 1" using Cons.prems(2) by (simp add: room_def)
  have wf1: "ipc_wf r1" and "room r1 (length ops)"
    using ipc_step_wf [OF Cons.prems(1) room1, of op] Cons.prems(2) by (simp_all add: r1 room_def)
  have outs: "outs = fst (ipc_step op r) # outs1" and r': "r' = snd (run ipc_step ops r1)"
    using Cons.prems(3) by (simp_all add: run_Cons r1 outs1 del: run.simps(2))
  have "received_on b ops outs1 @ inbox r' b = inbox r1 b @ sent_to r' b ops outs1"
    by (rule Cons.IH [OF wf1 \<open>room r1 (length ops)\<close>]) (simp add: outs1 r')
  moreover have "peer_of r i = Some p \<Longrightarrow> peer_of r' i = Some p" for i p
    using ipc_run_peer [OF Cons.prems(1,2)] Cons.prems(3) by fastforce
  from ipc_step_fifo [OF Cons.prems(1) room1 this, of b op]
  have "received1 b op (fst (ipc_step op r)) @ inbox r1 b = inbox r b @ sent1 r' b op (fst (ipc_step op r))"
    by (simp add: r1)
  ultimately show ?case by (simp add: outs received_on_def sent_to_def)
qed

theorem ipc_fifo_witness:
  "received_on 2 [OpCreate, OpSend 1 (message_with_data [7]), OpReceive 2]
     (fst (run ipc_step [OpCreate, OpSend 1 (message_with_data [7]), OpReceive 2] registry_new))
   = [message_with_data [7]]"
proof -
  let ?ops = "[OpCreate, OpSend 1 (message_with_data [7]), OpReceive 2]"
  obtain outs r' where run: "run ipc_step ?ops registry_new = (outs, r')" by fastforce
  have "received_on 2 ?ops outs @ inbox r' 2 = inbox registry_new 2 @ sent_to r' 2 ?ops outs"
    by (rule ipc_fifo [OF ipc_wf_new _ run]) (simp add: room_def registry_new_def)
  moreover have "inbox r' 2 = []" "sent_to r' 2 ?ops outs = [message_with_data [7]]"
    using run by (auto simp: registry_new_def create_channel_pair_def ipc_call_defs channel_new_def Let_def
        inbox_def sent_to_def peer_of_def message_with_data_def message_new_def
        ch_is_closed_def ch_queue_len_def)
  ultimately show ?thesis using run by (simp add: inbox_def registry_new_def)
qed


section \<open>The queue limit\<close>

lemma ipc_send_ok:
  assumes "ir_channels r a = Some c" and "\<not> ch_is_closed c" and "length (ch_queue c) < MAX_QUEUE_DEPTH"
    and "ir_channels r (ch_peer_id c) = Some p" and "length (ms_data m) \<le> MAX_MESSAGE_SIZE"
  shows "ipc_send a m r = (Ok (), r\<lparr>ir_channels := (ir_channels r)(ch_peer_id c \<mapsto> ch_enqueue m p)\<rparr>)"
  using assms by (simp add: ipc_send_def ch_queue_len_def)

text \<open>The depth limit does not bound a queue: \<open>send\<close> compares the limit with the sender's
  own queue and not with the queue it appends to. A sender whose own queue has room can send
  any number of messages to a receiver that takes none; all of them are queued.\<close>

theorem peer_queue_unbounded:
  assumes "ipc_wf r" and "ir_channels r a = Some c" and "\<not> ch_is_closed c"
    and "length (ch_queue c) < MAX_QUEUE_DEPTH" and "length (ms_data m) \<le> MAX_MESSAGE_SIZE"
  shows "fst (run ipc_step (replicate n (OpSend a m)) r) = replicate n (OutSent (Ok ()))
    \<and> inbox (snd (run ipc_step (replicate n (OpSend a m)) r)) (ch_peer_id c)
        = inbox r (ch_peer_id c) @ replicate n m"
  using assms(1,2)
proof (induction n arbitrary: r)
  case (Suc n)
  obtain p where p: "ir_channels r (ch_peer_id c) = Some p" "ch_peer_id c \<noteq> a"
    using Suc.prems by (auto simp: ipc_wf_def)
  note send = ipc_send_ok [OF Suc.prems(2) assms(3,4) p(1) assms(5)]
  let ?r = "r\<lparr>ir_channels := (ir_channels r)(ch_peer_id c \<mapsto> ch_enqueue m p)\<rparr>"
  have "ipc_wf ?r" by (rule update_channel_wf [OF Suc.prems(1) p(1)]) (simp_all add: ch_enqueue_def)
  from Suc.IH [OF this] Suc.prems(2) p show ?case
    by (simp add: run_Cons send inbox_def ch_enqueue_def del: run.simps(2))
qed simp

theorem peer_queue_unbounded_witness:
  "inbox (snd (run ipc_step (replicate 1000 (OpSend 1 (message_new MtPing))) (snd (create_channel_pair registry_new)))) 2
     = replicate 1000 (message_new MtPing)"
proof -
  have "ipc_wf (snd (create_channel_pair registry_new))"
    by (rule create_wf [OF ipc_wf_new]) (simp add: room_def registry_new_def)
  from peer_queue_unbounded [OF this, of 1 "channel_new 1 2" "message_new MtPing" 1000]
  show ?thesis
    by (simp add: create_channel_pair_def registry_new_def Let_def channel_new_def ch_is_closed_def
        message_new_def inbox_def)
qed

section \<open>Derivation of capabilities\<close>

inductive derived_from :: "capability \<Rightarrow> capability \<Rightarrow> bool" for root where
  refl: "derived_from root root"
| derive: "derived_from root c \<Longrightarrow> cap_derive c new_id rights = Some c' \<Longrightarrow> derived_from root c'"

text \<open>The rights as a set of bits.\<close>

definition rights_of :: "capability \<Rightarrow> nat set" where
  "rights_of c = {i. bit (cp_rights c) i}"

lemma cap_derive_SomeD:
  assumes "cap_derive c i rights = Some c'"
  shows "rights_of c' = rights_of c \<inter> {k. bit rights k}" and "bit (cp_rights c) 3"
    and "cp_type c' = cp_type c" and "cp_resource_id c' = cp_resource_id c"
    and "cp_parent c' = Some (cp_id c)" and "cp_id c' = i"
proof -
  have d: "cp_rights c AND RIGHT_DERIVE = RIGHT_DERIVE"
    and c': "c' = (capability_new i (cp_type c))\<lparr>cp_rights := cp_rights c AND rights,
                   cp_resource_id := cp_resource_id c, cp_parent := Some (cp_id c)\<rparr>"
    using assms by (auto simp: cap_derive_def has_right_def split: if_splits)
  have "bit RIGHT_DERIVE 3" by simp
  then show "bit (cp_rights c) 3" by (metis bit_and_iff d)
  show "rights_of c' = rights_of c \<inter> {k. bit rights k}" "cp_type c' = cp_type c"
    "cp_resource_id c' = cp_resource_id c" "cp_parent c' = Some (cp_id c)" "cp_id c' = i"
    by (auto simp: c' rights_of_def capability_new_def bit_simps)
qed

text \<open>No amplification of authority: a capability obtained from another by any number of
  derivations has only rights that the first has, and names the same resource with the same
  type; a derivation succeeds only from a capability with the DERIVE right.\<close>

theorem derived_rights_subset:
  assumes "derived_from root c"
  shows "rights_of c \<subseteq> rights_of root \<and> cp_type c = cp_type root \<and> cp_resource_id c = cp_resource_id root
    \<and> (c \<noteq> root \<longrightarrow> 3 \<in> rights_of root)"
  using assms
proof induction
  case (derive c new_id rights c')
  from cap_derive_SomeD [OF derive.hyps(2)] derive.IH show ?case by (auto simp: rights_of_def)
qed simp

theorem derived_rights_subset_witness:
  "\<exists>c. derived_from (capability_new_full 1 CtFile 5 7) c \<and> rights_of c \<subseteq> rights_of (capability_new_full 1 CtFile 5 7)"
proof -
  let ?root = "capability_new_full 1 CtFile 5 7"
  obtain c where "cap_derive ?root 2 3 = Some c"
    by (simp add: cap_derive_def has_right_def capability_new_full_def)
  then have "derived_from ?root c" by (rule derived_from.derive [OF derived_from.refl])
  with derived_rights_subset [OF this] show ?thesis by blast
qed

end
