(* ===== verification/Mqueue.thy ===== *)
theory Mqueue
  imports Steps
begin

text \<open>
  Message queues with priorities (kernel/src/ipc/mqueue.rs): one queue of 32 FIFO lists with a
  common message count, and the manager that opens, closes and dispatches to queues by name
  and identifier. The queue is shown to implement a single list ordered by priority: a send
  inserts behind the messages of at least its priority, a receive takes the first.
\<close>

section \<open>One queue\<close>

abbreviation MAX_PRIORITY :: u8 where "MAX_PRIORITY \<equiv> 31"
abbreviation DEFAULT_MAX_MESSAGES :: usize where "DEFAULT_MAX_MESSAGES \<equiv> 64"
abbreviation DEFAULT_MAX_MSG_SIZE :: usize where "DEFAULT_MAX_MSG_SIZE \<equiv> 8192"

record mq_attr =
  ma_max_messages :: usize
  ma_max_msg_size :: usize
  ma_cur_messages :: usize
  ma_flags :: u32

definition mq_attr_default :: mq_attr where
  "mq_attr_default = \<lparr>ma_max_messages = DEFAULT_MAX_MESSAGES, ma_max_msg_size = DEFAULT_MAX_MSG_SIZE,
     ma_cur_messages = 0, ma_flags = 0\<rparr>"

record queue_message =
  qm_priority :: u8
  qm_data :: "u8 list"
  qm_sender_pid :: u64
  qm_timestamp :: u64

definition queue_message_new :: "u8 \<Rightarrow> u8 list \<Rightarrow> u64 \<Rightarrow> queue_message" where
  "queue_message_new priority bytes pid =
     \<lparr>qm_priority = priority, qm_data = bytes, qm_sender_pid = pid, qm_timestamp = 0\<rparr>"

datatype mq_state = MqOpen | MqClosing | MqClosed

datatype mq_error =
    MqNotFound | MqQueueFull | MqQueueEmpty | MqQueueClosed | MqMessageTooLarge | MqAlreadyExists
  | MqPermissionDenied | MqInvalidArgument | MqLimitReached

record message_queue =
  mq_id :: u64
  mq_name :: string
  mq_attr :: mq_attr
  mq_state :: mq_state
  mq_priority_queues :: "queue_message list list"
  mq_message_count :: usize
  mq_creator :: u64
  mq_send_waiters :: "u64 list"
  mq_recv_waiters :: "u64 list"

definition message_queue_new :: "u64 \<Rightarrow> string \<Rightarrow> u64 \<Rightarrow> mq_attr \<Rightarrow> message_queue" where
  "message_queue_new i name creator attr = \<lparr>mq_id = i, mq_name = name, mq_attr = attr, mq_state = MqOpen,
     mq_priority_queues = replicate 32 [], mq_message_count = 0, mq_creator = creator,
     mq_send_waiters = [], mq_recv_waiters = []\<rparr>"

definition mq_get_attr :: "message_queue \<Rightarrow> mq_attr" where
  "mq_get_attr q = (mq_attr q)\<lparr>ma_cur_messages := mq_message_count q\<rparr>"

definition mq_is_full :: "message_queue \<Rightarrow> bool" where
  "mq_is_full q = (mq_message_count q \<ge> ma_max_messages (mq_attr q))"

definition mq_is_empty :: "message_queue \<Rightarrow> bool" where
  "mq_is_empty q = (mq_message_count q = 0)"

text \<open>The index of the list a message goes to; the array has 32 entries.\<close>

definition level :: "queue_message \<Rightarrow> nat" where
  "level m = min (unat (qm_priority m)) (unat MAX_PRIORITY)"

definition mq_send :: "queue_message \<Rightarrow> (message_queue, mq_error, unit) st" where
  "mq_send m q =
     (if mq_state q \<noteq> MqOpen then (Err MqQueueClosed, q)
      else if length (qm_data m) > ma_max_msg_size (mq_attr q) then (Err MqMessageTooLarge, q)
      else if mq_is_full q then (Err MqQueueFull, q)
      else (Ok (), q\<lparr>mq_priority_queues :=
              (mq_priority_queues q)[level m := mq_priority_queues q ! level m @ [m]],
              mq_message_count := mq_message_count q + 1\<rparr>))"

text \<open>The loop over the priorities, from the highest: \<open>ps\<close> are those still to look at.\<close>

fun scan_priorities :: "nat list \<Rightarrow> queue_message list list \<Rightarrow> (queue_message \<times> queue_message list list) option" where
  "scan_priorities [] qs = None"
| "scan_priorities (p # ps) qs =
     (case qs ! p of m # rest \<Rightarrow> Some (m, qs[p := rest]) | [] \<Rightarrow> scan_priorities ps qs)"

definition mq_receive :: "(message_queue, mq_error, queue_message) st" where
  "mq_receive q =
     (if mq_state q \<noteq> MqOpen then (Err MqQueueClosed, q)
      else if mq_is_empty q then (Err MqQueueEmpty, q)
      else case scan_priorities (rev [0..<Suc (unat MAX_PRIORITY)]) (mq_priority_queues q) of
             Some (m, qs) \<Rightarrow>
               if mq_message_count q = 0 then (Panic, q)
               else (Ok m, q\<lparr>mq_priority_queues := qs, mq_message_count := mq_message_count q - 1\<rparr>)
           | None \<Rightarrow> (Err MqQueueEmpty, q))"

definition mq_peek :: "message_queue \<Rightarrow> queue_message option" where
  "mq_peek q = map_option fst (scan_priorities (rev [0..<Suc (unat MAX_PRIORITY)]) (mq_priority_queues q))"

definition mq_close :: "message_queue \<Rightarrow> message_queue" where
  "mq_close q = q\<lparr>mq_state := MqClosed\<rparr>"

definition mq_add_send_waiter :: "u64 \<Rightarrow> message_queue \<Rightarrow> message_queue" where
  "mq_add_send_waiter pid q = q\<lparr>mq_send_waiters := mq_send_waiters q @ [pid]\<rparr>"

definition mq_add_recv_waiter :: "u64 \<Rightarrow> message_queue \<Rightarrow> message_queue" where
  "mq_add_recv_waiter pid q = q\<lparr>mq_recv_waiters := mq_recv_waiters q @ [pid]\<rparr>"

definition mq_remove_send_waiter :: "u64 \<Rightarrow> message_queue \<Rightarrow> message_queue" where
  "mq_remove_send_waiter pid q = q\<lparr>mq_send_waiters := filter (\<lambda>p. p \<noteq> pid) (mq_send_waiters q)\<rparr>"

definition mq_remove_recv_waiter :: "u64 \<Rightarrow> message_queue \<Rightarrow> message_queue" where
  "mq_remove_recv_waiter pid q = q\<lparr>mq_recv_waiters := filter (\<lambda>p. p \<noteq> pid) (mq_recv_waiters q)\<rparr>"

section \<open>The manager\<close>

record mq_manager =
  mm_named_queues :: "string \<rightharpoonup> u64"
  mm_queues :: "u64 \<rightharpoonup> message_queue"
  mm_next_id :: u64
  mm_max_queues :: usize

definition mq_manager_new :: mq_manager where
  "mq_manager_new = \<lparr>mm_named_queues = Map.empty, mm_queues = Map.empty, mm_next_id = 1, mm_max_queues = 1024\<rparr>"

definition mq_open :: "string \<Rightarrow> u64 \<Rightarrow> bool \<Rightarrow> bool \<Rightarrow> mq_attr option \<Rightarrow> (mq_manager, mq_error, u64) st" where
  "mq_open name creator create exclusive attr mm =
     (case mm_named_queues mm name of
        Some i \<Rightarrow> if exclusive \<and> create then (Err MqAlreadyExists, mm) else (Ok i, mm)
      | None \<Rightarrow>
          if \<not> create then (Err MqNotFound, mm)
          else if card (dom (mm_queues mm)) \<ge> mm_max_queues mm then (Err MqLimitReached, mm)
          else let i = mm_next_id mm;
                   q = message_queue_new i name creator (case attr of Some a \<Rightarrow> a | None \<Rightarrow> mq_attr_default)
               in (Ok i, mm\<lparr>mm_named_queues := (mm_named_queues mm)(name \<mapsto> i),
                            mm_queues := (mm_queues mm)(i \<mapsto> q), mm_next_id := i + 1\<rparr>))"

definition mq_close_named :: "string \<Rightarrow> u64 \<Rightarrow> (mq_manager, mq_error, unit) st" where
  "mq_close_named name pid mm =
     (case mm_named_queues mm name of
        None \<Rightarrow> (Err MqNotFound, mm)
      | Some i \<Rightarrow>
          (case mm_queues mm i of
             None \<Rightarrow> (Err MqNotFound, mm)
           | Some q \<Rightarrow>
               if mq_creator q \<noteq> pid then (Err MqPermissionDenied, mm)
               else (Ok (), mm\<lparr>mm_named_queues := (mm_named_queues mm)(name := None),
                              mm_queues := (mm_queues mm)(i := None)\<rparr>)))"

definition mq_manager_send :: "u64 \<Rightarrow> queue_message \<Rightarrow> (mq_manager, mq_error, unit) st" where
  "mq_manager_send i m mm =
     (case mm_queues mm i of
        None \<Rightarrow> (Err MqNotFound, mm)
      | Some q \<Rightarrow> (case mq_send m q of (r, q') \<Rightarrow> (r, mm\<lparr>mm_queues := (mm_queues mm)(i \<mapsto> q')\<rparr>)))"

definition mq_manager_receive :: "u64 \<Rightarrow> (mq_manager, mq_error, queue_message) st" where
  "mq_manager_receive i mm =
     (case mm_queues mm i of
        None \<Rightarrow> (Err MqNotFound, mm)
      | Some q \<Rightarrow> (case mq_receive q of (r, q') \<Rightarrow> (r, mm\<lparr>mm_queues := (mm_queues mm)(i \<mapsto> q')\<rparr>)))"

section \<open>Well-formed queues\<close>

definition mq_wf :: "message_queue \<Rightarrow> bool" where
  "mq_wf q \<longleftrightarrow> length (mq_priority_queues q) = 32
     \<and> mq_message_count q = length (concat (mq_priority_queues q))
     \<and> (\<forall>p < 32. \<forall>m \<in> set (mq_priority_queues q ! p). level m = p)"

lemma level_less: "level m < 32"
  by (simp add: level_def min_def)

lemma mq_wf_new: "mq_wf (message_queue_new i name creator attr)"
  by (simp add: mq_wf_def message_queue_new_def)

lemma concat_split:
  assumes "p < length qs"
  shows "concat qs = concat (take p qs) @ qs ! p @ concat (drop (Suc p) qs)"
  using arg_cong [OF id_take_nth_drop [OF assms], of concat] by simp

lemma concat_rev_split:
  assumes "p < length qs"
  shows "concat (rev qs) = concat (rev (drop (Suc p) qs)) @ qs ! p @ concat (rev (take p qs))"
  using arg_cong [OF id_take_nth_drop [OF assms], of "\<lambda>x. concat (rev x)"] by simp

lemma length_concat_update:
  assumes "p < length qs"
  shows "length (concat (qs[p := ms])) + length (qs ! p) = length (concat qs) + length ms"
  using concat_split [OF assms] concat_split [of p "qs[p := ms]"] assms by simp

text \<open>The search from the highest priority finds the first message of the concatenation.\<close>

lemma scan_priorities_None:
  "n \<le> length qs \<Longrightarrow> scan_priorities (rev [0..<n]) qs = None \<longleftrightarrow> concat (rev (take n qs)) = []"
  by (induction n) (auto simp: take_Suc_conv_app_nth split: list.split)

lemma scan_priorities_Some:
  assumes "n \<le> length qs" and "scan_priorities (rev [0..<n]) qs = Some (m, qs')"
  shows "\<exists>p rest. p < n \<and> qs ! p = m # rest \<and> qs' = qs[p := rest]
     \<and> concat (rev (take n qs)) = m # concat (rev (take n qs'))"
  using assms
proof (induction n)
  case (Suc n)
  show ?case
  proof (cases "qs ! n")
    case (Cons x rest)
    then have "x = m" "qs' = qs[n := rest]" using Suc.prems by auto
    then show ?thesis using Cons Suc.prems(1)
      by (intro exI [of _ n] exI [of _ rest]) (simp add: take_Suc_conv_app_nth)
  next
    case Nil
    then obtain p rest where "p < n" "qs ! p = m # rest" "qs' = qs[p := rest]"
      "concat (rev (take n qs)) = m # concat (rev (take n qs'))"
      using Suc by auto
    then show ?thesis using Nil Suc.prems(1)
      by (intro exI [of _ p] exI [of _ rest]) (simp add: take_Suc_conv_app_nth)
  qed
qed simp

section \<open>The specification\<close>

text \<open>One list, highest priority first and oldest first within a priority.\<close>

record mq_spec =
  sp_msgs :: "queue_message list"
  sp_attr :: mq_attr
  sp_state :: mq_state

definition insert_message :: "queue_message \<Rightarrow> queue_message list \<Rightarrow> queue_message list" where
  "insert_message m ms = takeWhile (\<lambda>x. level x \<ge> level m) ms @ m # dropWhile (\<lambda>x. level x \<ge> level m) ms"

datatype mq_op = MqSend queue_message | MqReceive | MqPeek | MqClose

datatype mq_out =
    MqSent "(mq_error, unit) result" | MqReceived "(mq_error, queue_message) result"
  | MqPeeked "queue_message option" | MqDone

fun mq_step :: "mq_op \<Rightarrow> message_queue \<Rightarrow> mq_out \<times> message_queue" where
  "mq_step (MqSend m) q = (case mq_send m q of (r, q') \<Rightarrow> (MqSent r, q'))"
| "mq_step MqReceive q = (case mq_receive q of (r, q') \<Rightarrow> (MqReceived r, q'))"
| "mq_step MqPeek q = (MqPeeked (mq_peek q), q)"
| "mq_step MqClose q = (MqDone, mq_close q)"

fun mq_spec_step :: "mq_op \<Rightarrow> mq_spec \<Rightarrow> mq_out \<times> mq_spec" where
  "mq_spec_step (MqSend m) a =
     (if sp_state a \<noteq> MqOpen then (MqSent (Err MqQueueClosed), a)
      else if length (qm_data m) > ma_max_msg_size (sp_attr a) then (MqSent (Err MqMessageTooLarge), a)
      else if length (sp_msgs a) \<ge> ma_max_messages (sp_attr a) then (MqSent (Err MqQueueFull), a)
      else (MqSent (Ok ()), a\<lparr>sp_msgs := insert_message m (sp_msgs a)\<rparr>))"
| "mq_spec_step MqReceive a =
     (if sp_state a \<noteq> MqOpen then (MqReceived (Err MqQueueClosed), a)
      else case sp_msgs a of
             [] \<Rightarrow> (MqReceived (Err MqQueueEmpty), a)
           | m # ms \<Rightarrow> (MqReceived (Ok m), a\<lparr>sp_msgs := ms\<rparr>))"
| "mq_spec_step MqPeek a = (MqPeeked (case sp_msgs a of [] \<Rightarrow> None | m # _ \<Rightarrow> Some m), a)"
| "mq_spec_step MqClose a = (MqDone, a\<lparr>sp_state := MqClosed\<rparr>)"

definition mq_abs :: "message_queue \<Rightarrow> mq_spec" where
  "mq_abs q = \<lparr>sp_msgs = concat (rev (mq_priority_queues q)), sp_attr = mq_attr q, sp_state = mq_state q\<rparr>"

lemma takeWhile_dropWhile_split:
  assumes "\<forall>x \<in> set as. P x" and "\<forall>x \<in> set bs. \<not> P x"
  shows "takeWhile P (as @ bs) = as" and "dropWhile P (as @ bs) = bs"
  using assms by (cases bs; simp add: takeWhile_append2 dropWhile_append2)+

lemma concat_rev_insert:
  assumes "mq_wf q"
  shows "concat (rev ((mq_priority_queues q)[level m := mq_priority_queues q ! level m @ [m]]))
       = insert_message m (concat (rev (mq_priority_queues q)))"
proof -
  let ?qs = "mq_priority_queues q" and ?l = "level m"
  have len: "?l < length ?qs" "length ?qs = 32" using assms level_less [of m] by (simp_all add: mq_wf_def)
  have lev: "x \<in> set (?qs ! p) \<Longrightarrow> p < 32 \<Longrightarrow> level x = p" for x p using assms by (simp add: mq_wf_def)
  have hi: "\<forall>x \<in> set (concat (rev (drop (Suc ?l) ?qs)) @ ?qs ! ?l). level x \<ge> ?l"
    using len lev by (auto simp: set_conv_nth [of "drop _ _"]) 
  have lo: "\<forall>x \<in> set (concat (rev (take ?l ?qs))). \<not> level x \<ge> ?l"
    using len lev by (auto simp: set_conv_nth [of "take _ _"] not_le)
  show ?thesis
    using takeWhile_dropWhile_split [OF hi lo] len
      concat_rev_split [OF len(1)] concat_rev_split [of ?l "?qs[?l := ?qs ! ?l @ [m]]"]
    by (simp add: insert_message_def)
qed

lemma mq_send_wf: "mq_wf q \<Longrightarrow> mq_wf (snd (mq_send m q))"
  using length_concat_update [of "level m" "mq_priority_queues q" "mq_priority_queues q ! level m @ [m]"] level_less [of m]
  by (auto simp: mq_wf_def mq_send_def nth_list_update)

lemma mq_scan:
  assumes "mq_wf q"
  shows "scan_priorities (rev [0..<Suc (unat MAX_PRIORITY)]) (mq_priority_queues q) = None
      \<longleftrightarrow> concat (rev (mq_priority_queues q)) = []"
    and "scan_priorities (rev [0..<Suc (unat MAX_PRIORITY)]) (mq_priority_queues q) = Some (m, qs)
      \<Longrightarrow> \<exists>p rest. p < 32 \<and> mq_priority_queues q ! p = m # rest \<and> qs = (mq_priority_queues q)[p := rest]
         \<and> concat (rev (mq_priority_queues q)) = m # concat (rev qs)"
  using assms scan_priorities_None [of 32 "mq_priority_queues q"] scan_priorities_Some [of 32 "mq_priority_queues q" m qs]
  by (auto simp: mq_wf_def simp del: upt_Suc)

lemma mq_receive_cases:
  assumes wf: "mq_wf q" and "mq_state q = MqOpen"
  shows "concat (rev (mq_priority_queues q)) = [] \<Longrightarrow> mq_receive q = (Err MqQueueEmpty, q)"
    and "concat (rev (mq_priority_queues q)) = m # ms \<Longrightarrow>
      \<exists>qs. mq_receive q = (Ok m, q\<lparr>mq_priority_queues := qs, mq_message_count := mq_message_count q - 1\<rparr>)
        \<and> concat (rev qs) = ms \<and> mq_wf (q\<lparr>mq_priority_queues := qs, mq_message_count := mq_message_count q - 1\<rparr>)"
proof -
  have count: "mq_message_count q = length (concat (rev (mq_priority_queues q)))"
    using wf by (simp add: mq_wf_def length_concat rev_map [symmetric])
  show "mq_receive q = (Err MqQueueEmpty, q)" if "concat (rev (mq_priority_queues q)) = []"
    using that count assms by (simp only: mq_receive_def mq_is_empty_def) simp
  assume c: "concat (rev (mq_priority_queues q)) = m # ms"
  then obtain m' qs where scan: "scan_priorities (rev [0..<Suc (unat MAX_PRIORITY)]) (mq_priority_queues q) = Some (m', qs)"
    using mq_scan(1) [OF wf] by fastforce
  then obtain p rest where p: "p < 32" "mq_priority_queues q ! p = m' # rest" "qs = (mq_priority_queues q)[p := rest]"
    "m # ms = m' # concat (rev qs)"
    using mq_scan(2) [OF wf scan] c by auto
  have "mq_wf (q\<lparr>mq_priority_queues := qs, mq_message_count := mq_message_count q - 1\<rparr>)"
    using wf p length_concat_update [of p "mq_priority_queues q" rest] unfolding mq_wf_def
    by (auto simp: nth_list_update)
  then show "\<exists>qs. mq_receive q = (Ok m, q\<lparr>mq_priority_queues := qs, mq_message_count := mq_message_count q - 1\<rparr>)
        \<and> concat (rev qs) = ms \<and> mq_wf (q\<lparr>mq_priority_queues := qs, mq_message_count := mq_message_count q - 1\<rparr>)"
    using scan p c count assms(2) by (intro exI [of _ qs]) (simp add: mq_receive_def mq_is_empty_def del: upt_Suc)
qed


lemma mq_count: "mq_wf q \<Longrightarrow> mq_message_count q = length (concat (rev (mq_priority_queues q)))"
  by (simp add: mq_wf_def length_concat rev_map [symmetric])

lemma mq_peek_eq:
  assumes "mq_wf q"
  shows "mq_peek q = (case concat (rev (mq_priority_queues q)) of [] \<Rightarrow> None | m # _ \<Rightarrow> Some m)"
proof (cases "scan_priorities (rev [0..<Suc (unat MAX_PRIORITY)]) (mq_priority_queues q)")
  case None
  then have "concat (rev (mq_priority_queues q)) = []" using mq_scan(1) [OF assms] by blast
  then show ?thesis using None by (simp only: mq_peek_def) simp
next
  case (Some x)
  then show ?thesis using mq_scan(2) [OF assms, of "fst x" "snd x"] by (auto simp: mq_peek_def simp del: upt_Suc)
qed

lemma mq_receive_closed: "mq_state q \<noteq> MqOpen \<Longrightarrow> mq_receive q = (Err MqQueueClosed, q)"
  by (simp add: mq_receive_def)

lemma mq_receive_sim:
  assumes "mq_wf q"
  shows "mq_wf (snd (mq_receive q))
    \<and> mq_spec_step MqReceive (mq_abs q) = (MqReceived (fst (mq_receive q)), mq_abs (snd (mq_receive q)))"
proof (cases "mq_state q = MqOpen")
  case False
  then show ?thesis using assms by (simp add: mq_receive_closed mq_abs_def)
next
  case True
  show ?thesis
  proof (cases "concat (rev (mq_priority_queues q))")
    case Nil
    then show ?thesis using mq_receive_cases(1) [OF assms True Nil] True assms
      by (simp only: mq_abs_def mq_spec_step.simps) simp
  next
    case (Cons m ms)
    from mq_receive_cases(2) [OF assms True this] Cons True show ?thesis
      by (elim exE conjE) (simp only: mq_abs_def mq_spec_step.simps, simp)
  qed
qed

lemma mq_step_eqs:
  "mq_step (MqSend m) q = (MqSent (fst (mq_send m q)), snd (mq_send m q))"
  "mq_step MqReceive q = (MqReceived (fst (mq_receive q)), snd (mq_receive q))"
  by (simp_all split: prod.split)

lemma mq_send_sim:
  assumes "mq_wf q"
  shows "mq_spec_step (MqSend m) (mq_abs q) = (MqSent (fst (mq_send m q)), mq_abs (snd (mq_send m q)))"
  using mq_count [OF assms] concat_rev_insert [OF assms, of m]
  by (simp add: mq_abs_def mq_send_def mq_is_full_def)

lemma mq_close_wf: "mq_wf q \<Longrightarrow> mq_wf (mq_close q)"
  by (simp add: mq_wf_def mq_close_def)

lemma mq_step_sim:
  assumes "mq_wf q"
  shows "mq_wf (snd (mq_step op q)) \<and>
    mq_spec_step op (mq_abs q) = (fst (mq_step op q), mq_abs (snd (mq_step op q)))"
proof (cases op)
  case (MqSend m)
  then show ?thesis using mq_send_sim [OF assms] mq_send_wf [OF assms]
    by (simp add: mq_step_eqs del: mq_step.simps mq_spec_step.simps)
next
  case MqReceive
  then show ?thesis using mq_receive_sim [OF assms]
    by (simp add: mq_step_eqs del: mq_step.simps mq_spec_step.simps)
next
  case MqPeek
  then show ?thesis using assms mq_peek_eq [OF assms] by (simp add: mq_abs_def)
next
  case MqClose
  then show ?thesis using mq_close_wf [OF assms] by (simp add: mq_abs_def mq_close_def)
qed

interpretation mq: op_simulation mq_step mq_wf mq_spec_step mq_abs
  by unfold_locales (simp_all only: mq_step_sim fst_conv snd_conv)

text \<open>C23. The 32 lists implement one priority queue: for every sequence of sends, receives, peeks
  and closes on a new queue, all answers are those of the specification, which keeps a single
  list ordered by priority, first come first served within a priority, and refuses a send
  exactly when the queue is closed, the message too long or the list full.\<close>

theorem mqueue_refines_priority_list:
  "run mq_spec_step ops \<lparr>sp_msgs = [], sp_attr = attr, sp_state = MqOpen\<rparr>
     = (fst (run mq_step ops (message_queue_new i name creator attr)),
        mq_abs (snd (run mq_step ops (message_queue_new i name creator attr))))"
proof -
  have "mq_abs (message_queue_new i name creator attr) = \<lparr>sp_msgs = [], sp_attr = attr, sp_state = MqOpen\<rparr>"
    by (simp add: mq_abs_def message_queue_new_def)
  then show ?thesis using mq.sim_run [OF mq_wf_new, of ops i name creator attr] by simp
qed

text \<open>The specification keeps its list in order and within its limit.\<close>

lemma insert_message_sorted:
  "sorted_wrt (\<lambda>x y. level x \<ge> level y) ms \<Longrightarrow> sorted_wrt (\<lambda>x y. level x \<ge> level y) (insert_message m ms)"
proof (induction ms)
  case (Cons x ms)
  then show ?case
    by (cases "level m \<le> level x")
       (auto simp: insert_message_def dest: set_takeWhileD set_dropWhileD)
qed (simp add: insert_message_def)

definition mq_bounded :: "mq_spec \<Rightarrow> bool" where
  "mq_bounded a \<longleftrightarrow> sorted_wrt (\<lambda>x y. level x \<ge> level y) (sp_msgs a) \<and> length (sp_msgs a) \<le> ma_max_messages (sp_attr a)
     \<and> (\<forall>m \<in> set (sp_msgs a). length (qm_data m) \<le> ma_max_msg_size (sp_attr a))"

lemma length_insert_message [simp]: "length (insert_message m ms) = Suc (length ms)"
  by (simp add: insert_message_def) (metis length_append takeWhile_dropWhile_id)

lemma set_insert_message [simp]: "set (insert_message m ms) = insert m (set ms)"
  by (simp add: insert_message_def) (metis set_append takeWhile_dropWhile_id)

interpretation mq_spec_bound: op_invariant mq_spec_step mq_bounded
proof (unfold_locales, goal_cases)
  case (1 s op)
  then show ?case
    by (cases op) (auto simp: mq_bounded_def insert_message_sorted split: list.split)
qed

text \<open>Bounds of a message queue: whatever is done with a queue, it never holds more messages
  than its attributes allow, no message is longer than they allow, and messages come out in
  order of priority.\<close>

theorem mqueue_bounded:
  "mq_bounded (mq_abs (snd (run mq_step ops (message_queue_new i name creator attr))))"
  using mq_spec_bound.inv_run [of "mq_abs (message_queue_new i name creator attr)" ops]
    mq.sim_run [OF mq_wf_new, of ops i name creator attr]
  by (simp add: mq_bounded_def mq_abs_def message_queue_new_def)

end
