(* ===== verification/Shm.thy ===== *)
theory Shm
  imports Steps
begin

text \<open>
  Shared memory regions (kernel/src/ipc/shm.rs): regions with their mappings and reference
  count, and the manager with its limits on number and total size. The properties are the
  accounting invariant of the manager over all sequences of calls, and what the reference count
  does and does not protect.
\<close>

section \<open>Regions\<close>

datatype shm_state = ShmAllocated | ShmMapped | ShmDestroying

record shm_mapping =
  sm_pid :: u64
  sm_vaddr :: u64
  sm_rights :: u32

record shm_region =
  sr_id :: u64
  sr_name :: string
  sr_size :: usize
  sr_frames :: "u64 list"
  sr_state :: shm_state
  sr_flags :: u32
  sr_creator :: u64
  sr_ref_count :: usize
  sr_mappings :: "shm_mapping list"
  sr_capability :: "u64 option"

definition shm_region_new :: "u64 \<Rightarrow> string \<Rightarrow> usize \<Rightarrow> u64 \<Rightarrow> u32 \<Rightarrow> shm_region" where
  "shm_region_new i name size' creator flags = \<lparr>sr_id = i, sr_name = name, sr_size = size', sr_frames = [],
     sr_state = ShmAllocated, sr_flags = flags, sr_creator = creator, sr_ref_count = 1, sr_mappings = [],
     sr_capability = None\<rparr>"

abbreviation sr_page_count :: "shm_region \<Rightarrow> usize" where
  "sr_page_count r \<equiv> (sr_size r + 4095) div 4096"

abbreviation sr_is_mapped :: "shm_region \<Rightarrow> bool" where
  "sr_is_mapped r \<equiv> (sr_mappings r \<noteq> [])"

definition sr_add_ref :: "shm_region \<Rightarrow> shm_region" where
  "sr_add_ref r = r\<lparr>sr_ref_count := sr_ref_count r + 1\<rparr>"

definition sr_release :: "shm_region \<Rightarrow> bool \<times> shm_region" where
  "sr_release r =
     (let n = (if sr_ref_count r > 0 then sr_ref_count r - 1 else sr_ref_count r)
      in (n = 0, r\<lparr>sr_ref_count := n\<rparr>))"

definition sr_add_mapping :: "shm_mapping \<Rightarrow> shm_region \<Rightarrow> shm_region" where
  "sr_add_mapping m r = r\<lparr>sr_mappings := sr_mappings r @ [m], sr_state := ShmMapped\<rparr>"

text \<open>Remove the first mapping of a process.\<close>

fun remove_first :: "('a \<Rightarrow> bool) \<Rightarrow> 'a list \<Rightarrow> ('a \<times> 'a list) option" where
  "remove_first P [] = None"
| "remove_first P (x # xs) =
     (if P x then Some (x, xs) else map_option (\<lambda>(y, ys). (y, x # ys)) (remove_first P xs))"

definition sr_remove_mapping :: "u64 \<Rightarrow> shm_region \<Rightarrow> shm_mapping option \<times> shm_region" where
  "sr_remove_mapping pid r =
     (case remove_first (\<lambda>m. sm_pid m = pid) (sr_mappings r) of
        None \<Rightarrow> (None, r)
      | Some (m, ms) \<Rightarrow>
          (Some m, r\<lparr>sr_mappings := ms, sr_state := (if ms = [] then ShmAllocated else sr_state r)\<rparr>))"

definition sr_find_mapping :: "u64 \<Rightarrow> shm_region \<Rightarrow> shm_mapping option" where
  "sr_find_mapping pid r = find (\<lambda>m. sm_pid m = pid) (sr_mappings r)"

section \<open>The manager\<close>

datatype shm_error =
    ShmNotFound | ShmOutOfMemory | ShmInvalidSize | ShmPermissionDenied | ShmAlreadyMapped
  | ShmNotMapped | ShmInvalidAddress | ShmLimitReached

record shm_manager =
  sh_regions :: "u64 \<rightharpoonup> shm_region"
  sh_next_id :: u64
  sh_max_regions :: usize
  sh_total_size :: u64
  sh_max_total_size :: usize

definition shm_manager_new :: shm_manager where
  "shm_manager_new = \<lparr>sh_regions = Map.empty, sh_next_id = 1, sh_max_regions = 4096, sh_total_size = 0,
     sh_max_total_size = 1024 * 1024 * 1024\<rparr>"

definition shm_create :: "string \<Rightarrow> usize \<Rightarrow> u64 \<Rightarrow> u32 \<Rightarrow> (shm_manager, shm_error, u64) st" where
  "shm_create name size' creator flags s =
     (if size' = 0 \<or> size' > sh_max_total_size s then (Err ShmInvalidSize, s)
      else if card (dom (sh_regions s)) \<ge> sh_max_regions s then (Err ShmLimitReached, s)
      else if unat (sh_total_size s) + size' \<ge> usize_limit then (Panic, s)
      else if unat (sh_total_size s) + size' > sh_max_total_size s then (Err ShmOutOfMemory, s)
      else let i = sh_next_id s in
        (Ok i, s\<lparr>sh_next_id := i + 1, sh_regions := (sh_regions s)(i \<mapsto> shm_region_new i name size' creator flags),
                 sh_total_size := sh_total_size s + of_nat size'\<rparr>))"

definition shm_map :: "u64 \<Rightarrow> u64 \<Rightarrow> u64 \<Rightarrow> u32 \<Rightarrow> (shm_manager, shm_error, u64) st" where
  "shm_map i pid vaddr rights s =
     (case sh_regions s i of
        None \<Rightarrow> (Err ShmNotFound, s)
      | Some r \<Rightarrow>
          if sr_find_mapping pid r \<noteq> None then (Err ShmAlreadyMapped, s)
          else (Ok vaddr, s\<lparr>sh_regions := (sh_regions s)(i \<mapsto>
                  sr_add_ref (sr_add_mapping \<lparr>sm_pid = pid, sm_vaddr = vaddr, sm_rights = rights\<rparr> r))\<rparr>))"

definition shm_unmap :: "u64 \<Rightarrow> u64 \<Rightarrow> (shm_manager, shm_error, unit) st" where
  "shm_unmap i pid s =
     (case sh_regions s i of
        None \<Rightarrow> (Err ShmNotFound, s)
      | Some r \<Rightarrow>
          (case sr_remove_mapping pid r of
             (None, _) \<Rightarrow> (Err ShmNotMapped, s)
           | (Some _, r') \<Rightarrow> (Ok (), s\<lparr>sh_regions := (sh_regions s)(i \<mapsto> r')\<rparr>)))"

definition shm_destroy :: "u64 \<Rightarrow> u64 \<Rightarrow> (shm_manager, shm_error, unit) st" where
  "shm_destroy i pid s =
     (case sh_regions s i of
        None \<Rightarrow> (Err ShmNotFound, s)
      | Some r \<Rightarrow>
          if sr_creator r \<noteq> pid then (Err ShmPermissionDenied, s)
          else (case sr_release r of
             (False, r') \<Rightarrow> (Ok (), s\<lparr>sh_regions := (sh_regions s)(i \<mapsto> r'\<lparr>sr_state := ShmDestroying\<rparr>)\<rparr>)
           | (True, r') \<Rightarrow> (Ok (), s\<lparr>sh_total_size := sh_total_size s - of_nat (sr_size r'),
                                     sh_regions := (sh_regions s)(i := None)\<rparr>)))"

definition shm_stats :: "shm_manager \<Rightarrow> usize \<times> usize" where
  "shm_stats s = (card (dom (sh_regions s)), unat (sh_total_size s))"

section \<open>Sequences of calls\<close>

datatype shm_op =
    ShmCreate string usize u64 u32 | ShmMap u64 u64 u64 u32 | ShmUnmap u64 u64 | ShmDestroy u64 u64

fun shm_step :: "shm_op \<Rightarrow> shm_manager \<Rightarrow> bool \<times> shm_manager" where
  "shm_step (ShmCreate name size' creator flags) s = (case shm_create name size' creator flags s of (r, s') \<Rightarrow> (r \<noteq> Panic, s'))"
| "shm_step (ShmMap i pid vaddr rights) s = (case shm_map i pid vaddr rights s of (r, s') \<Rightarrow> (r \<noteq> Panic, s'))"
| "shm_step (ShmUnmap i pid) s = (case shm_unmap i pid s of (r, s') \<Rightarrow> (r \<noteq> Panic, s'))"
| "shm_step (ShmDestroy i pid) s = (case shm_destroy i pid s of (r, s') \<Rightarrow> (r \<noteq> Panic, s'))"

section \<open>Accounting\<close>

definition region_ok :: "shm_region \<Rightarrow> bool" where
  "region_ok r \<longleftrightarrow> sr_ref_count r > 0 \<and> sr_size r > 0 \<and> distinct (map sm_pid (sr_mappings r))"

text \<open>
  What the manager keeps, with room for \<open>n\<close> more identifiers: identifiers in use are below
  the counter, \<open>total_size\<close> is the sum of the sizes of the registered regions and within the
  limit, and no process has two mappings of a region.
\<close>

definition shm_inv :: "nat \<Rightarrow> shm_manager \<Rightarrow> bool" where
  "shm_inv n s \<longleftrightarrow>
     unat (sh_next_id s) + n < 2 ^ 64 \<and> finite (dom (sh_regions s))
     \<and> (\<forall>i r. sh_regions s i = Some r \<longrightarrow> unat i < unat (sh_next_id s) \<and> region_ok r)
     \<and> unat (sh_total_size s) = (\<Sum>i \<in> dom (sh_regions s). sr_size (the (sh_regions s i)))
     \<and> unat (sh_total_size s) \<le> sh_max_total_size s \<and> sh_max_total_size s < 2 ^ 63
     \<and> card (dom (sh_regions s)) \<le> sh_max_regions s"

lemma shm_inv_new: "n < 2 ^ 64 - 1 \<Longrightarrow> shm_inv n shm_manager_new"
  by (simp add: shm_inv_def shm_manager_new_def)

lemma shm_inv_mono: "shm_inv (Suc n) s \<Longrightarrow> shm_inv n s"
  by (auto simp: shm_inv_def)

text \<open>Replacing a region by one of the same size keeps the accounting.\<close>

lemma shm_inv_update:
  assumes "shm_inv n s" and "sh_regions s i = Some r" and "sr_size r' = sr_size r" and "region_ok r'"
  shows "shm_inv n (s\<lparr>sh_regions := (sh_regions s)(i \<mapsto> r')\<rparr>)"
proof -
  have "insert i (dom (sh_regions s)) = dom (sh_regions s)" using assms(2) by auto
  moreover have "(\<Sum>j \<in> dom (sh_regions s). sr_size (the (((sh_regions s)(i \<mapsto> r')) j)))
      = (\<Sum>j \<in> dom (sh_regions s). sr_size (the (sh_regions s j)))"
    by (rule sum.cong) (use assms in auto)
  ultimately show ?thesis
    using assms(1,2,4) by (simp add: shm_inv_def)
qed

lemma region_ok_remove_first:
  "remove_first P ms = Some (m, ms') \<Longrightarrow> set ms' \<subseteq> set ms \<and> (distinct (map f ms) \<longrightarrow> distinct (map f ms'))"
proof (induction ms arbitrary: ms')
  case (Cons x ms)
  then show ?case by (fastforce split: if_splits)
qed simp

lemma shm_inv_region: "shm_inv n s \<Longrightarrow> sh_regions s i = Some r \<Longrightarrow> region_ok r"
  by (simp add: shm_inv_def)

lemma region_ok_map:
  "region_ok r \<Longrightarrow> sr_find_mapping (sm_pid m) r = None \<Longrightarrow> region_ok (sr_add_ref (sr_add_mapping m r))"
  by (auto simp: region_ok_def sr_find_mapping_def find_None_iff sr_add_ref_def sr_add_mapping_def)

lemma shm_map_inv:
  assumes "shm_inv n s" shows "shm_inv n (snd (shm_map i pid vaddr rights s))"
proof (cases "sh_regions s i")
  case (Some r)
  let ?r = "sr_add_ref (sr_add_mapping \<lparr>sm_pid = pid, sm_vaddr = vaddr, sm_rights = rights\<rparr> r)"
  have "sr_size ?r = sr_size r" by (simp add: sr_add_ref_def sr_add_mapping_def)
  then show ?thesis
    using assms Some shm_inv_update [OF assms Some, of ?r] region_ok_map [OF shm_inv_region [OF assms Some]]
    by (simp add: shm_map_def)
qed (simp add: shm_map_def assms)

lemma region_ok_unmap:
  "region_ok r \<Longrightarrow> sr_remove_mapping pid r = (x, r') \<Longrightarrow> region_ok r' \<and> sr_size r' = sr_size r"
  by (auto simp: region_ok_def sr_remove_mapping_def split: option.splits dest!: region_ok_remove_first [where f = sm_pid])

lemma shm_unmap_inv:
  assumes "shm_inv n s" shows "shm_inv n (snd (shm_unmap i pid s))"
proof (cases "sh_regions s i")
  case (Some r)
  obtain x r' where x: "sr_remove_mapping pid r = (x, r')" by (cases "sr_remove_mapping pid r")
  from region_ok_unmap [OF shm_inv_region [OF assms Some] x] show ?thesis
    using assms Some x shm_inv_update [OF assms Some, of r'] by (simp add: shm_unmap_def split: option.split)
qed (simp add: shm_unmap_def assms)

lemma sum_remove_region:
  assumes "finite (dom m)" and "m i = Some r"
  shows "(\<Sum>j \<in> dom m. sr_size (the (m j))) = sr_size r + (\<Sum>j \<in> dom (m(i := None)). sr_size (the ((m(i := None)) j)))"
proof -
  have "i \<in> dom m" using assms(2) by auto
  moreover have "(\<Sum>j \<in> dom m - {i}. sr_size (the (m j))) = (\<Sum>j \<in> dom (m(i := None)). sr_size (the ((m(i := None)) j)))"
    by (rule sum.cong) auto
  ultimately show ?thesis using assms by (simp add: sum.remove)
qed

lemma sum_add_region:
  assumes "finite (dom m)" and "m i = None"
  shows "(\<Sum>j \<in> dom (m(i \<mapsto> r)). sr_size (the ((m(i \<mapsto> r)) j))) = sr_size r + (\<Sum>j \<in> dom m. sr_size (the (m j)))"
  using sum_remove_region [of "m(i \<mapsto> r)" i r] assms by (simp add: fun_upd_idem)

lemma shm_destroy_inv:
  assumes "shm_inv n s" shows "shm_inv n (snd (shm_destroy i pid s))"
proof (cases "sh_regions s i")
  case (Some r)
  note ok = shm_inv_region [OF assms Some]
  have fin: "finite (dom (sh_regions s))" using assms by (simp add: shm_inv_def)
  show ?thesis
  proof (cases "sr_ref_count r > 1")
    case True
    then have "region_ok (r\<lparr>sr_ref_count := sr_ref_count r - Suc 0, sr_state := ShmDestroying\<rparr>)"
      using ok by (simp add: region_ok_def)
    then show ?thesis
      using Some True assms by (simp add: shm_destroy_def sr_release_def Let_def shm_inv_update split: prod.split bool.split)
  next
    case False
    then have one: "sr_ref_count r = 1" using ok by (simp add: region_ok_def)
    note sum_remove_region [OF fin Some]
    moreover have "unat (sh_total_size s - of_nat (sr_size r)) = unat (sh_total_size s) - sr_size r"
    proof -
      have le: "sr_size r \<le> unat (sh_total_size s)"
        using assms sum_remove_region [OF fin Some] by (simp add: shm_inv_def)
      then have "unat (of_nat (sr_size r) :: u64) = sr_size r"
        using le_less_trans [OF le unat_u64_lt] by (intro unat_of_nat_small) simp
      with le show ?thesis by (simp add: unat_sub word_le_nat_alt)
    qed
    moreover have "card (dom ((sh_regions s)(i := None))) \<le> card (dom (sh_regions s))"
      by (rule card_mono) (use fin in auto)
    ultimately show ?thesis
      using Some one assms by (simp add: shm_destroy_def sr_release_def shm_inv_def del: dom_fun_upd)
  qed
qed (simp add: shm_destroy_def assms)

lemma sr_size_new: "sr_size (shm_region_new i name n creator flags) = n"
  by (simp add: shm_region_new_def)

lemma shm_create_inv:
  assumes "shm_inv (Suc n) s" shows "shm_inv n (snd (shm_create name size' creator flags s))"
proof -
  let ?i = "sh_next_id s"
  have fresh: "sh_regions s ?i = None"
    using assms by (cases "sh_regions s ?i") (auto simp: shm_inv_def)
  have next': "unat (?i + 1) = unat ?i + 1" using assms by (simp add: shm_inv_def unat_word_ariths)
  have fin: "finite (dom (sh_regions s))" using assms by (simp add: shm_inv_def)
  show ?thesis
  proof (cases "size' = 0 \<or> size' > sh_max_total_size s \<or> card (dom (sh_regions s)) \<ge> sh_max_regions s
      \<or> unat (sh_total_size s) + size' > sh_max_total_size s")
    case True
    then show ?thesis using shm_inv_mono [OF assms] by (auto simp: shm_create_def Let_def)
  next
    case False
    then have tot: "unat (sh_total_size s + of_nat size') = unat (sh_total_size s) + size'"
      and lim: "unat (sh_total_size s) + size' < usize_limit"
      using assms by (simp_all add: shm_inv_def unat_word_ariths unat_of_nat_small usize_limit_def)
    let ?m = "(sh_regions s)(?i \<mapsto> shm_region_new ?i name size' creator flags)"
    have "region_ok (shm_region_new ?i name size' creator flags)"
      using False by (simp add: region_ok_def shm_region_new_def)
    then have "\<forall>j r. ?m j = Some r \<longrightarrow> unat j < unat (?i + 1) \<and> region_ok r"
      using assms by (auto simp: next' shm_inv_def intro: less_SucI)
    moreover note sum_add_region [OF fin fresh, of "shm_region_new ?i name size' creator flags"]
    moreover have "card (dom ?m) = Suc (card (dom (sh_regions s)))"
      using fin fresh by (simp add: domIff)
    ultimately show ?thesis
      using False tot lim assms next'
      by (simp add: shm_create_def Let_def shm_inv_def sr_size_new del: dom_fun_upd fun_upd_apply)
  qed
qed

lemma shm_step_eqs:
  "snd (shm_step (ShmCreate name size' creator flags) s) = snd (shm_create name size' creator flags s)"
  "snd (shm_step (ShmMap i pid vaddr rights) s) = snd (shm_map i pid vaddr rights s)"
  "snd (shm_step (ShmUnmap i pid) s) = snd (shm_unmap i pid s)"
  "snd (shm_step (ShmDestroy i pid) s) = snd (shm_destroy i pid s)"
  by (simp_all split: prod.split)

interpretation shm: budget_invariant shm_step shm_inv
proof (unfold_locales, goal_cases)
  case (1 n s op)
  then show ?case
    by (cases op) (simp_all only: shm_step_eqs shm_create_inv shm_map_inv shm_unmap_inv shm_destroy_inv shm_inv_mono)
qed

lemma shm_step_no_panic: "shm_inv n s \<Longrightarrow> fst (shm_step op s)"
  by (cases op)
     (auto simp: shm_inv_def shm_create_def shm_map_def shm_unmap_def shm_destroy_def Let_def usize_limit_def
       split: prod.splits option.splits if_splits bool.splits)

lemma shm_run_no_panic: "shm_inv (length ops) s \<Longrightarrow> list_all id (fst (run shm_step ops s))"
proof (induction ops arbitrary: s)
  case (Cons op ops)
  then show ?case
    using shm.inv_budget_step [of "length ops" s op] shm_step_no_panic [of _ s op]
    by (simp add: run_Cons del: run.simps(2))
qed simp

text \<open>C24. Accounting of shared memory: after any sequence of create, map, unmap and destroy calls (fewer
  than there are identifiers) the total the manager keeps is the sum of the sizes of the
  registered regions, it is at most 1 GiB and there are at most 4096 regions, every registered
  region has a reference left and at most one mapping per process, and no call overflowed.\<close>

theorem shm_accounting:
  assumes "length ops < 2 ^ 64 - 1"
  shows "shm_inv 0 (snd (run shm_step ops shm_manager_new)) \<and> list_all id (fst (run shm_step ops shm_manager_new))"
  using shm.inv_budget_run [of 0 ops] shm_run_no_panic [of ops] shm_inv_new [OF assms] by simp

theorem shm_accounting_witness:
  "shm_inv 0 (snd (run shm_step [ShmCreate ''a'' 4096 1 3, ShmMap 1 2 8192 1, ShmDestroy 1 1] shm_manager_new))
   \<and> sh_total_size (snd (run shm_step [ShmCreate ''a'' 4096 1 3, ShmMap 1 2 8192 1, ShmDestroy 1 1] shm_manager_new)) = 4096"
  using shm_accounting [of "[ShmCreate ''a'' 4096 1 3, ShmMap 1 2 8192 1, ShmDestroy 1 1]"]
  by (simp add: shm_manager_new_def shm_create_def shm_map_def shm_destroy_def shm_region_new_def sr_find_mapping_def
      sr_add_ref_def sr_add_mapping_def sr_release_def usize_limit_def Let_def)

section \<open>What the reference count does\<close>

lemmas shm_run_defs = shm_create_def shm_map_def shm_unmap_def shm_destroy_def shm_region_new_def
  sr_find_mapping_def sr_remove_mapping_def sr_add_ref_def sr_add_mapping_def sr_release_def Let_def

text \<open>The reference that \<open>map\<close> takes is never given back by \<open>unmap\<close>: a region that is created,
  mapped by a process, unmapped by it and destroyed by its creator, all four calls answering \<open>Ok\<close>,
  is still registered, marked for destruction, and its size still counts towards the limit.\<close>

theorem shm_unmap_keeps_reference:
  assumes "shm_create name sz creator flags s = (Ok i, s1)" and "shm_map i pid vaddr rights s1 = (Ok v, s2)"
    and "shm_unmap i pid s2 = (Ok (), s3)" and "shm_destroy i creator s3 = (Ok (), s4)"
  shows "(\<exists>r. sh_regions s4 i = Some r \<and> sr_state r = ShmDestroying \<and> sr_mappings r = [] \<and> sr_ref_count r = 1)
     \<and> sh_total_size s4 = sh_total_size s + of_nat sz"
  using assms by (auto simp: shm_run_defs split: if_splits)

theorem shm_unmap_keeps_reference_witness:
  "\<exists>s1 s2 s3 s4. shm_create ''a'' 4096 1 3 shm_manager_new = (Ok 1, s1) \<and> shm_map 1 2 8192 1 s1 = (Ok 8192, s2)
     \<and> shm_unmap 1 2 s2 = (Ok (), s3) \<and> shm_destroy 1 1 s3 = (Ok (), s4) \<and> sh_total_size s4 = 4096"
proof -
  obtain s1 where 1: "shm_create ''a'' 4096 1 3 shm_manager_new = (Ok 1, s1)" and
    s1: "s1 = snd (shm_create ''a'' 4096 1 3 shm_manager_new)"
    by (simp add: shm_run_defs shm_manager_new_def usize_limit_def)
  obtain s2 where 2: "shm_map 1 2 8192 1 s1 = (Ok 8192, s2)" and s2: "s2 = snd (shm_map 1 2 8192 1 s1)"
    by (simp add: s1 shm_run_defs shm_manager_new_def usize_limit_def)
  obtain s3 where 3: "shm_unmap 1 2 s2 = (Ok (), s3)" and s3: "s3 = snd (shm_unmap 1 2 s2)"
    by (simp add: s1 s2 shm_run_defs shm_manager_new_def usize_limit_def)
  obtain s4 where 4: "shm_destroy 1 1 s3 = (Ok (), s4)"
    by (simp add: s1 s2 s3 shm_run_defs shm_manager_new_def usize_limit_def)
  have "sh_total_size s4 = 4096"
    using shm_unmap_keeps_reference [OF 1 2 3 4] by (simp add: shm_manager_new_def)
  with 1 2 3 4 show ?thesis by blast
qed

text \<open>Nor does it protect a mapping: the creator can destroy twice.\<close>

lemma shm_destroy_twice_removes_mapped_region:
  assumes "shm_create name sz creator flags s = (Ok i, s1)" and "shm_map i pid vaddr rights s1 = (Ok v, s2)"
    and "shm_destroy i creator s2 = (Ok (), s3)" and "shm_destroy i creator s3 = (Ok (), s4)"
  shows "sh_regions s4 i = None"
  using assms by (auto simp: shm_run_defs split: if_splits)

end
