(* ===== verification/Limbs.thy ===== *)
theory Limbs
  imports Prelude
begin

text \<open>
  Arithmetic on numbers in five limbs, as both Curve25519 (radix \<open>2\<^sup>51\<close>, modulus \<open>2\<^sup>255 - 19\<close>) and Poly1305
  (radix \<open>2\<^sup>26\<close>, modulus \<open>2\<^sup>130 - 5\<close>) use it: the schoolbook product with its upper half folded down,
  and the carry chain. The radix \<open>b\<close>, the modulus \<open>p\<close> and the factor \<open>k\<close> with \<open>b\<^sup>5 = p + k\<close> are variables.
\<close>

text \<open>That a value fits its machine type; a sum or product that does not overflows, and panics.\<close>

definition u32_ok :: "nat \<Rightarrow> bool" where
  "u32_ok n \<longleftrightarrow> n < 2 ^ 32"

definition u64_ok :: "nat \<Rightarrow> bool" where
  "u64_ok n \<longleftrightarrow> n < 2 ^ 64"

definition u128_ok :: "nat \<Rightarrow> bool" where
  "u128_ok n \<longleftrightarrow> n < 2 ^ 128"

text \<open>Carrying through five limbs keeps the value, up to what leaves the top limb.\<close>

lemma carry_chain:
  fixes b :: nat
  assumes "\<And>n. lo n + b * hi n = n"
  shows "lo r0 + b * lo (r1 + hi r0) + b ^ 2 * lo (r2 + hi (r1 + hi r0)) + b ^ 3 * lo (r3 + hi (r2 + hi (r1 + hi r0)))
      + b ^ 4 * lo (r4 + hi (r3 + hi (r2 + hi (r1 + hi r0)))) + b ^ 5 * hi (r4 + hi (r3 + hi (r2 + hi (r1 + hi r0))))
    = r0 + b * r1 + b ^ 2 * r2 + b ^ 3 * r3 + b ^ 4 * r4" (is "?l = _")
proof -
  define q1 where "q1 = r1 + hi r0"
  define q2 where "q2 = r2 + hi q1"
  define q3 where "q3 = r3 + hi q2"
  define q4 where "q4 = r4 + hi q3"
  have "?l = lo r0 + b * lo q1 + b ^ 2 * lo q2 + b ^ 3 * lo q3 + b ^ 4 * (lo q4 + b * hi q4)"
    by (simp add: q1_def q2_def q3_def q4_def algebra_simps eval_nat_numeral)
  also have "\<dots> = lo r0 + b * lo q1 + b ^ 2 * lo q2 + b ^ 3 * (lo q3 + b * hi q3) + b ^ 4 * r4"
    unfolding assms [of q4] by (simp add: q4_def algebra_simps eval_nat_numeral)
  also have "\<dots> = lo r0 + b * lo q1 + b ^ 2 * (lo q2 + b * hi q2) + b ^ 3 * r3 + b ^ 4 * r4"
    unfolding assms [of q3] by (simp add: q3_def algebra_simps eval_nat_numeral)
  also have "\<dots> = lo r0 + b * (lo q1 + b * hi q1) + b ^ 2 * r2 + b ^ 3 * r3 + b ^ 4 * r4"
    unfolding assms [of q2] by (simp add: q2_def algebra_simps eval_nat_numeral)
  also have "\<dots> = (lo r0 + b * hi r0) + b * r1 + b ^ 2 * r2 + b ^ 3 * r3 + b ^ 4 * r4"
    unfolding assms [of q1] by (simp add: q1_def algebra_simps eval_nat_numeral)
  also have "\<dots> = r0 + b * r1 + b ^ 2 * r2 + b ^ 3 * r3 + b ^ 4 * r4"
    unfolding assms [of r0] ..
  finally show ?thesis .
qed

text \<open>Schoolbook multiplication of five limbs, with the upper half folded down by the factor \<open>k\<close>.\<close>

lemma limb_product:
  fixes b k :: nat
  shows "(a0 + b * a1 + b ^ 2 * a2 + b ^ 3 * a3 + b ^ 4 * a4) * (c0 + b * c1 + b ^ 2 * c2 + b ^ 3 * c3 + b ^ 4 * c4)
      + k * ((a1 * c4 + a2 * c3 + a3 * c2 + a4 * c1) + b * (a2 * c4 + a3 * c3 + a4 * c2) + b ^ 2 * (a3 * c4 + a4 * c3) + b ^ 3 * (a4 * c4))
    = (a0 * c0 + a1 * (c4 * k) + a2 * (c3 * k) + a3 * (c2 * k) + a4 * (c1 * k))
      + b * (a0 * c1 + a1 * c0 + a2 * (c4 * k) + a3 * (c3 * k) + a4 * (c2 * k))
      + b ^ 2 * (a0 * c2 + a1 * c1 + a2 * c0 + a3 * (c4 * k) + a4 * (c3 * k))
      + b ^ 3 * (a0 * c3 + a1 * c2 + a2 * c1 + a3 * c0 + a4 * (c4 * k))
      + b ^ 4 * (a0 * c4 + a1 * c3 + a2 * c2 + a3 * c1 + a4 * c0)
      + b ^ 5 * ((a1 * c4 + a2 * c3 + a3 * c2 + a4 * c1) + b * (a2 * c4 + a3 * c3 + a4 * c2) + b ^ 2 * (a3 * c4 + a4 * c3) + b ^ 3 * (a4 * c4))"
  by (simp add: algebra_simps eval_nat_numeral)

text \<open>The carry out of the top limb comes back into the lowest, times \<open>k\<close>.\<close>

lemma fold_top:
  fixes b p k :: nat
  assumes "b5 = p + k" and "t + b * u = r + c * k"
  shows "r + b * q1 + x2 + x3 + x4 + b5 * c + b5 * h = t + b * (q1 + u) + x2 + x3 + x4 + p * (c + h) + k * h"
  using assms by (simp add: algebra_simps)

end
