(* ===== verification/X25519.thy ===== *)
theory X25519
  imports Limbs
begin

unbundle bit_operations_syntax

text \<open>
  X25519 key exchange (kernel/src/net/crypto/x25519.rs): field elements of GF(2^255 - 19) in five limbs
  of 51 bits, their arithmetic, the inversion chain, the conversion to and from bytes and the Montgomery
  ladder.

  Limbs are natural numbers, as \<open>u64\<close> and (inside a multiplication) \<open>u128\<close> values that the code keeps
  below their limits; sums and differences that leave the type panic, which \<open>u64_ok\<close> and \<open>u128_ok\<close> write
  out. All terms of a sum are non-negative, so it overflows somewhere exactly when the whole does.
\<close>

section \<open>Field elements\<close>

datatype fe = Fe nat nat nat nat nat

abbreviation FE_ZERO :: fe where "FE_ZERO \<equiv> Fe 0 0 0 0 0"

abbreviation FE_ONE :: fe where "FE_ONE \<equiv> Fe 1 0 0 0 0"

text \<open>\<open>x & REDUCE_MASK\<close> and \<open>x >> 51\<close>.\<close>

definition lo51 :: "nat \<Rightarrow> nat" where
  "lo51 n = n mod 2 ^ 51"

definition hi51 :: "nat \<Rightarrow> nat" where
  "hi51 n = n div 2 ^ 51"

definition load8 :: "u8 list \<Rightarrow> nat" where
  "load8 bs = unat (from_le (take 8 bs) :: u64)"

definition fe_decode :: "u8 list \<Rightarrow> fe" where
  "fe_decode bytes = Fe (lo51 (load8 bytes)) (lo51 (load8 (drop 6 bytes) div 2 ^ 3)) (lo51 (load8 (drop 12 bytes) div 2 ^ 6))
     (lo51 (load8 (drop 19 bytes) div 2)) (lo51 (load8 (drop 24 bytes) div 2 ^ 12))"

fun fe_reduce :: "fe \<Rightarrow> (unit, fe) result" where
  "fe_reduce (Fe f0 f1 f2 f3 f4) =
     (let f1 = f1 + hi51 f0; f2 = f2 + hi51 f1; f3 = f3 + hi51 f2; f4 = f4 + hi51 f3; t0 = lo51 f0 + 19 * hi51 f4 in
      if u64_ok f1 \<and> u64_ok f2 \<and> u64_ok f3 \<and> u64_ok f4 \<and> u64_ok t0
      then Ok (Fe t0 (lo51 f1) (lo51 f2) (lo51 f3) (lo51 f4)) else Panic)"

text \<open>The low 16 bytes of a \<open>u128\<close> (\<open>v >> (8 * i)\<close>, as \<open>u8\<close>).\<close>

definition bytes16 :: "nat \<Rightarrow> u8 list" where
  "bytes16 v = map (\<lambda>i. of_nat (v div 2 ^ (8 * i))) [0 ..< 16]"

fun fe_freeze :: "fe \<Rightarrow> (unit, fe) result" where
  "fe_freeze (Fe h0 h1 h2 h3 h4) =
     (let q0 = hi51 (h0 + 19); q1 = hi51 (h1 + q0); q2 = hi51 (h2 + q1); q3 = hi51 (h3 + q2); q = hi51 (h4 + q3);
          h0' = h0 + 19 * q; h1' = h1 + hi51 h0'; h2' = h2 + hi51 h1'; h3' = h3 + hi51 h2'; h4' = h4 + hi51 h3' in
      if u64_ok (h0 + 19) \<and> u64_ok (h1 + q0) \<and> u64_ok (h2 + q1) \<and> u64_ok (h3 + q2) \<and> u64_ok (h4 + q3)
         \<and> u64_ok h0' \<and> u64_ok h1' \<and> u64_ok h2' \<and> u64_ok h3' \<and> u64_ok h4'
      then Ok (Fe (lo51 h0') (lo51 h1') (lo51 h2') (lo51 h3') (lo51 h4')) else Panic)"

text \<open>\<open>v\<close> and \<open>w\<close> are assembled with \<open>|\<close> from parts that do not overlap, modulo \<open>2\<^sup>128\<close>; the last byte loses
  its top bit.\<close>

fun fe_bytes :: "fe \<Rightarrow> u8 list" where
  "fe_bytes (Fe h0 h1 h2 h3 h4) =
     (let v = (h0 OR push_bit 51 h1 OR push_bit 102 h2) mod 2 ^ 128;
          w = ((h2 div 2 ^ 26) OR push_bit 25 h3 OR push_bit 76 h4) mod 2 ^ 128;
          out = bytes16 v @ bytes16 w in out[31 := out ! 31 AND 0x7F])"

definition fe_encode :: "fe \<Rightarrow> (unit, u8 list) result" where
  "fe_encode f = and_then (fe_reduce f) (\<lambda>h. and_then (fe_freeze h) (\<lambda>h. Ok (fe_bytes h)))"

fun fe_add :: "fe \<Rightarrow> fe \<Rightarrow> (unit, fe) result" where
  "fe_add (Fe a0 a1 a2 a3 a4) (Fe b0 b1 b2 b3 b4) =
     (if u64_ok (a0 + b0) \<and> u64_ok (a1 + b1) \<and> u64_ok (a2 + b2) \<and> u64_ok (a3 + b3) \<and> u64_ok (a4 + b4)
      then Ok (Fe (a0 + b0) (a1 + b1) (a2 + b2) (a3 + b3) (a4 + b4)) else Panic)"

definition TWO_P :: fe where
  "TWO_P = Fe 0xFFFFFFFFFFFDA 0x7FFFFFFFFFFFF 0x7FFFFFFFFFFFF 0x7FFFFFFFFFFFF 0x7FFFFFFFFFFFF"

fun fe_sub_limbs :: "fe \<Rightarrow> fe \<Rightarrow> fe \<Rightarrow> (unit, fe) result" where
  "fe_sub_limbs (Fe t0 t1 t2 t3 t4) (Fe a0 a1 a2 a3 a4) (Fe b0 b1 b2 b3 b4) =
     (if u64_ok (a0 + t0) \<and> u64_ok (a1 + t1) \<and> u64_ok (a2 + t2) \<and> u64_ok (a3 + t3) \<and> u64_ok (a4 + t4)
         \<and> b0 \<le> a0 + t0 \<and> b1 \<le> a1 + t1 \<and> b2 \<le> a2 + t2 \<and> b3 \<le> a3 + t3 \<and> b4 \<le> a4 + t4
      then Ok (Fe (a0 + t0 - b0) (a1 + t1 - b1) (a2 + t2 - b2) (a3 + t3 - b3) (a4 + t4 - b4)) else Panic)"

definition fe_sub :: "fe \<Rightarrow> fe \<Rightarrow> (unit, fe) result" where
  "fe_sub a b = fe_sub_limbs TWO_P a b"

text \<open>The carry chain of a product and the casts back to \<open>u64\<close>.\<close>

fun fe_mul :: "fe \<Rightarrow> fe \<Rightarrow> (unit, fe) result" where
  "fe_mul (Fe a0 a1 a2 a3 a4) (Fe b0 b1 b2 b3 b4) =
     (let b1_19 = b1 * 19; b2_19 = b2 * 19; b3_19 = b3 * 19; b4_19 = b4 * 19;
          r0 = a0 * b0 + a1 * b4_19 + a2 * b3_19 + a3 * b2_19 + a4 * b1_19;
          r1 = a0 * b1 + a1 * b0 + a2 * b4_19 + a3 * b3_19 + a4 * b2_19;
          r2 = a0 * b2 + a1 * b1 + a2 * b0 + a3 * b4_19 + a4 * b3_19;
          r3 = a0 * b3 + a1 * b2 + a2 * b1 + a3 * b0 + a4 * b4_19;
          r4 = a0 * b4 + a1 * b3 + a2 * b2 + a3 * b1 + a4 * b0;
          r1' = r1 + hi51 r0; r2' = r2 + hi51 r1'; r3' = r3 + hi51 r2'; r4' = r4 + hi51 r3';
          r0' = lo51 r0 + hi51 r4' * 19; r1'' = lo51 r1' + hi51 r0' in
      if u128_ok r0 \<and> u128_ok r1' \<and> u128_ok r2' \<and> u128_ok r3' \<and> u128_ok r4' \<and> u128_ok r0' \<and> u128_ok r1''
      then Ok (Fe (lo51 r0') (r1'' mod 2 ^ 64) (lo51 r2') (lo51 r3') (lo51 r4')) else Panic)"

definition fe_sq :: "fe \<Rightarrow> (unit, fe) result" where
  "fe_sq a = fe_mul a a"

fun fe_mul_scalar :: "fe \<Rightarrow> nat \<Rightarrow> (unit, fe) result" where
  "fe_mul_scalar (Fe a0 a1 a2 a3 a4) s =
     (let r1 = a1 * s + hi51 (a0 * s); r2 = a2 * s + hi51 r1; r3 = a3 * s + hi51 r2; r4 = a4 * s + hi51 r3;
          r0 = lo51 (a0 * s) + hi51 r4 * 19 in
      if u128_ok (a0 * s) \<and> u128_ok r1 \<and> u128_ok r2 \<and> u128_ok r3 \<and> u128_ok r4 \<and> u128_ok r0
      then Ok (Fe (r0 mod 2 ^ 64) (lo51 r1) (lo51 r2) (lo51 r3) (lo51 r4)) else Panic)"

text \<open>\<open>t = fe_sq(x); for _ in 1..n { t = fe_sq(&t); }\<close>\<close>

fun fe_sq_times :: "nat \<Rightarrow> fe \<Rightarrow> (unit, fe) result" where
  "fe_sq_times 0 x = Ok x"
| "fe_sq_times (Suc n) x = and_then (fe_sq x) (fe_sq_times n)"

definition fe_invert :: "fe \<Rightarrow> (unit, fe) result" where
  "fe_invert a =
     and_then (fe_sq a) (\<lambda>z2. and_then (fe_sq_times 2 z2) (\<lambda>z8. and_then (fe_mul a z8) (\<lambda>z9.
     and_then (fe_mul z2 z9) (\<lambda>z11. and_then (fe_sq z11) (\<lambda>z22. and_then (fe_mul z9 z22) (\<lambda>z_5_0.
     and_then (fe_sq_times 5 z_5_0) (\<lambda>t. and_then (fe_mul z_5_0 t) (\<lambda>z_10_0.
     and_then (fe_sq_times 10 z_10_0) (\<lambda>t. and_then (fe_mul z_10_0 t) (\<lambda>z_20_0.
     and_then (fe_sq_times 20 z_20_0) (\<lambda>t. and_then (fe_mul z_20_0 t) (\<lambda>t.
     and_then (fe_sq_times 10 t) (\<lambda>t. and_then (fe_mul z_10_0 t) (\<lambda>z_50_0.
     and_then (fe_sq_times 50 z_50_0) (\<lambda>t. and_then (fe_mul z_50_0 t) (\<lambda>z_100_0.
     and_then (fe_sq_times 100 z_100_0) (\<lambda>t. and_then (fe_mul z_100_0 t) (\<lambda>t.
     and_then (fe_sq_times 50 t) (\<lambda>t. and_then (fe_mul z_50_0 t) (\<lambda>t.
     and_then (fe_sq_times 2 t) (\<lambda>t. and_then (fe_mul a t) (\<lambda>t.
     and_then (fe_sq_times 3 t) (\<lambda>t. fe_mul z11 t)))))))))))))))))))))))"

text \<open>With \<open>swap\<close> 0 or 1 the mask is all zeros or all ones, and the exclusive or exchanges the limbs.\<close>

definition cswap_limb :: "u64 \<Rightarrow> nat \<Rightarrow> nat \<Rightarrow> nat \<times> nat" where
  "cswap_limb msk a b =
     (let t = msk AND (of_nat a XOR of_nat b) in (unat (of_nat a XOR t), unat (of_nat b XOR t)))"

fun fe_cswap :: "fe \<Rightarrow> fe \<Rightarrow> u64 \<Rightarrow> fe \<times> fe" where
  "fe_cswap (Fe a0 a1 a2 a3 a4) (Fe b0 b1 b2 b3 b4) swap =
     (let msk = 0 - swap;
          (x0, y0) = cswap_limb msk a0 b0; (x1, y1) = cswap_limb msk a1 b1; (x2, y2) = cswap_limb msk a2 b2;
          (x3, y3) = cswap_limb msk a3 b3; (x4, y4) = cswap_limb msk a4 b4 in
      (Fe x0 x1 x2 x3 x4, Fe y0 y1 y2 y3 y4))"

abbreviation A24 :: nat where "A24 \<equiv> 121666"

section \<open>The ladder\<close>

record ladder =
  la_x2 :: fe
  la_z2 :: fe
  la_x3 :: fe
  la_z3 :: fe
  la_swap :: u64

definition ladder_step :: "fe \<Rightarrow> u64 \<Rightarrow> ladder \<Rightarrow> (unit, ladder) result" where
  "ladder_step u k_t s =
     (let swap = la_swap s XOR k_t;
          (x2, x3) = fe_cswap (la_x2 s) (la_x3 s) swap; (z2, z3) = fe_cswap (la_z2 s) (la_z3 s) swap in
      and_then (fe_add x2 z2) (\<lambda>a. and_then (fe_sq a) (\<lambda>aa. and_then (fe_sub x2 z2) (\<lambda>b. and_then (fe_sq b) (\<lambda>bb.
      and_then (fe_sub aa bb) (\<lambda>e. and_then (fe_add x3 z3) (\<lambda>cc. and_then (fe_sub x3 z3) (\<lambda>dd.
      and_then (fe_mul dd a) (\<lambda>da. and_then (fe_mul cc b) (\<lambda>cb. and_then (fe_add da cb) (\<lambda>sum.
      and_then (fe_sq sum) (\<lambda>x3'. and_then (fe_sub da cb) (\<lambda>diff. and_then (fe_sq diff) (\<lambda>diff_sq.
      and_then (fe_mul u diff_sq) (\<lambda>z3'. and_then (fe_mul aa bb) (\<lambda>x2'. and_then (fe_mul_scalar e A24) (\<lambda>a24_e.
      and_then (fe_add aa a24_e) (\<lambda>aa'. and_then (fe_reduce aa') (\<lambda>aa'. and_then (fe_reduce bb) (\<lambda>_.
      and_then (fe_mul e aa') (\<lambda>z2'.
      Ok \<lparr>la_x2 = x2', la_z2 = z2', la_x3 = x3', la_z3 = z3', la_swap = k_t\<rparr>)))))))))))))))))))))"

definition scalar_bit :: "u8 list \<Rightarrow> nat \<Rightarrow> u64" where
  "scalar_bit k t = ucast (drop_bit (t mod 8) (k ! (t div 8)) AND 1)"

text \<open>\<open>for t in (0..n).rev()\<close>\<close>

fun ladder_loop :: "u8 list \<Rightarrow> fe \<Rightarrow> nat \<Rightarrow> ladder \<Rightarrow> (unit, ladder) result" where
  "ladder_loop k u 0 s = Ok s"
| "ladder_loop k u (Suc t) s = and_then (ladder_step u (scalar_bit k t) s) (ladder_loop k u t)"

definition montgomery_ladder :: "u8 list \<Rightarrow> fe \<Rightarrow> (unit, fe) result" where
  "montgomery_ladder k u =
     and_then (ladder_loop k u 255 \<lparr>la_x2 = FE_ONE, la_z2 = FE_ZERO, la_x3 = u, la_z3 = FE_ONE, la_swap = 0\<rparr>) (\<lambda>s.
     let (x2, _) = fe_cswap (la_x2 s) (la_x3 s) (la_swap s); (z2, _) = fe_cswap (la_z2 s) (la_z3 s) (la_swap s) in
     and_then (fe_invert z2) (\<lambda>z_inv. fe_mul x2 z_inv))"

definition clamp :: "u8 list \<Rightarrow> u8 list" where
  "clamp k = (let k = k[0 := k ! 0 AND 248]; k = k[31 := k ! 31 AND 127] in k[31 := k ! 31 OR 64])"

definition x25519 :: "u8 list \<Rightarrow> u8 list \<Rightarrow> (unit, u8 list) result" where
  "x25519 scalar point = and_then (montgomery_ladder (clamp scalar) (fe_decode point)) fe_encode"

definition x25519_basepoint :: "u8 list \<Rightarrow> (unit, u8 list) result" where
  "x25519_basepoint scalar = x25519 scalar (9 # replicate 31 0)"

section \<open>Values\<close>

definition p25519 :: nat where
  "p25519 = 2 ^ 255 - 19"

fun fe_val :: "fe \<Rightarrow> nat" where
  "fe_val (Fe a0 a1 a2 a3 a4) = a0 + 2 ^ 51 * a1 + 2 ^ 102 * a2 + 2 ^ 153 * a3 + 2 ^ 204 * a4"

fun fe_below :: "nat \<Rightarrow> fe \<Rightarrow> bool" where
  "fe_below n (Fe a0 a1 a2 a3 a4) \<longleftrightarrow> a0 < n \<and> a1 < n \<and> a2 < n \<and> a3 < n \<and> a4 < n"

lemma p25519_plus: "p25519 + 19 = 2 ^ 255"
  by (simp add: p25519_def)

lemma lo_hi: "lo51 n + 2 ^ 51 * hi51 n = n"
  by (simp add: lo51_def hi51_def)

lemma lo51_less [simp]: "lo51 n < 2 ^ 51"
  by (simp add: lo51_def)

lemma hi51_less: "n < 2 ^ 51 * m \<Longrightarrow> hi51 n < m"
  by (simp add: hi51_def less_mult_imp_div_less mult.commute)

lemma fe_val_pow: "fe_val (Fe a0 a1 a2 a3 a4) = a0 + 2 ^ 51 * a1 + (2 ^ 51) ^ 2 * a2 + (2 ^ 51) ^ 3 * a3 + (2 ^ 51) ^ 4 * a4"
  by simp

lemma product_below: "a < 2 ^ 54 \<Longrightarrow> b < 2 ^ 54 \<Longrightarrow> a * b \<le> 2 ^ 108" for a b :: nat
  using mult_mono [of a "2 ^ 54" b "2 ^ 54"] by simp

text \<open>What the code's 128-bit accumulators hold, when the limbs of both factors are below \<open>2\<^sup>54\<close>.\<close>

lemma accumulator_bounds:
  fixes r0 r1 r2 r3 r4 :: nat
  assumes "r0 < 2 ^ 115" "r1 < 2 ^ 115" "r2 < 2 ^ 115" "r3 < 2 ^ 115" "r4 < 2 ^ 115"
  defines "q1 \<equiv> r1 + hi51 r0" defines "q2 \<equiv> r2 + hi51 q1" defines "q3 \<equiv> r3 + hi51 q2" defines "q4 \<equiv> r4 + hi51 q3"
  shows "q1 < 2 ^ 116" "q2 < 2 ^ 116" "q3 < 2 ^ 116" "q4 < 2 ^ 116" "hi51 q4 < 2 ^ 65"
    "lo51 r0 + hi51 q4 * 19 < 2 ^ 70" "hi51 (lo51 r0 + hi51 q4 * 19) < 2 ^ 19"
proof -
  show q1: "q1 < 2 ^ 116" using assms(1,2) hi51_less [of r0 "2 ^ 64"] by (simp add: q1_def)
  show q2: "q2 < 2 ^ 116" using assms(3) q1 hi51_less [of q1 "2 ^ 65"] by (simp add: q2_def)
  show q3: "q3 < 2 ^ 116" using assms(4) q2 hi51_less [of q2 "2 ^ 65"] by (simp add: q3_def)
  show q4: "q4 < 2 ^ 116" using assms(5) q3 hi51_less [of q3 "2 ^ 65"] by (simp add: q4_def)
  show h: "hi51 q4 < 2 ^ 65" using q4 hi51_less [of q4 "2 ^ 65"] by simp
  show t: "lo51 r0 + hi51 q4 * 19 < 2 ^ 70" using h lo51_less [of r0] by simp
  show "hi51 (lo51 r0 + hi51 q4 * 19) < 2 ^ 19" using t hi51_less [of "lo51 r0 + hi51 q4 * 19" "2 ^ 19"] by simp
qed

lemma fe_mul_ok:
  assumes "fe_below (2 ^ 54) a" and "fe_below (2 ^ 54) b"
  shows "\<exists>r k. fe_mul a b = Ok r \<and> fe_below (2 ^ 52) r \<and> fe_val a * fe_val b = fe_val r + p25519 * k"
proof -
  obtain a0 a1 a2 a3 a4 b0 b1 b2 b3 b4 where a: "a = Fe a0 a1 a2 a3 a4" and b: "b = Fe b0 b1 b2 b3 b4"
    by (cases a, cases b)
  define r0 where "r0 = a0 * b0 + a1 * (b4 * 19) + a2 * (b3 * 19) + a3 * (b2 * 19) + a4 * (b1 * 19)"
  define r1 where "r1 = a0 * b1 + a1 * b0 + a2 * (b4 * 19) + a3 * (b3 * 19) + a4 * (b2 * 19)"
  define r2 where "r2 = a0 * b2 + a1 * b1 + a2 * b0 + a3 * (b4 * 19) + a4 * (b3 * 19)"
  define r3 where "r3 = a0 * b3 + a1 * b2 + a2 * b1 + a3 * b0 + a4 * (b4 * 19)"
  define r4 where "r4 = a0 * b4 + a1 * b3 + a2 * b2 + a3 * b1 + a4 * b0"
  note defs = r0_def r1_def r2_def r3_def r4_def
  have lim: "a0 < 2 ^ 54" "a1 < 2 ^ 54" "a2 < 2 ^ 54" "a3 < 2 ^ 54" "a4 < 2 ^ 54"
    "b0 < 2 ^ 54" "b1 < 2 ^ 54" "b2 < 2 ^ 54" "b3 < 2 ^ 54" "b4 < 2 ^ 54"
    using assms by (simp_all add: a b)
  note prods = product_below [OF lim(1) lim(6)] product_below [OF lim(1) lim(7)] product_below [OF lim(1) lim(8)]
    product_below [OF lim(1) lim(9)] product_below [OF lim(1) lim(10)] product_below [OF lim(2) lim(6)] product_below [OF lim(2) lim(7)]
    product_below [OF lim(2) lim(8)] product_below [OF lim(2) lim(9)] product_below [OF lim(2) lim(10)]
    product_below [OF lim(3) lim(6)] product_below [OF lim(3) lim(7)] product_below [OF lim(3) lim(8)] product_below [OF lim(3) lim(9)]
    product_below [OF lim(3) lim(10)] product_below [OF lim(4) lim(6)] product_below [OF lim(4) lim(7)] product_below [OF lim(4) lim(8)]
    product_below [OF lim(4) lim(9)] product_below [OF lim(4) lim(10)] product_below [OF lim(5) lim(6)] product_below [OF lim(5) lim(7)]
    product_below [OF lim(5) lim(8)] product_below [OF lim(5) lim(9)] product_below [OF lim(5) lim(10)]
  have r: "r0 < 2 ^ 115" "r1 < 2 ^ 115" "r2 < 2 ^ 115" "r3 < 2 ^ 115" "r4 < 2 ^ 115"
    using prods unfolding defs mult.assoc [symmetric] by simp_all
  define q1 where "q1 = r1 + hi51 r0"
  define q2 where "q2 = r2 + hi51 q1"
  define q3 where "q3 = r3 + hi51 q2"
  define q4 where "q4 = r4 + hi51 q3"
  define t0 where "t0 = lo51 r0 + hi51 q4 * 19"
  define h where "h = (a1 * b4 + a2 * b3 + a3 * b2 + a4 * b1) + 2 ^ 51 * (a2 * b4 + a3 * b3 + a4 * b2)
      + (2 ^ 51) ^ 2 * (a3 * b4 + a4 * b3) + (2 ^ 51) ^ 3 * (a4 * b4)"
  let ?r = "Fe (lo51 t0) (lo51 q1 + hi51 t0) (lo51 q2) (lo51 q3) (lo51 q4)"
  note bounds = accumulator_bounds [OF r, folded q1_def, folded q2_def, folded q3_def, folded q4_def, folded t0_def]
  have small: "lo51 q1 + hi51 t0 < 2 ^ 52" using bounds(7) lo51_less [of q1] by simp
  have run: "fe_mul a b = Ok ?r"
    using r bounds small
    by (simp add: a b Let_def defs [symmetric] q1_def [symmetric] q2_def [symmetric] q3_def [symmetric] q4_def [symmetric]
        t0_def [symmetric] u128_ok_def)
  have below: "fe_below (2 ^ 52) ?r"
    using small lo51_less [of t0] lo51_less [of q2] lo51_less [of q3] lo51_less [of q4] by simp
  have "fe_val a * fe_val b + 19 * h = r0 + 2 ^ 51 * r1 + (2 ^ 51) ^ 2 * r2 + (2 ^ 51) ^ 3 * r3 + (2 ^ 51) ^ 4 * r4 + (2 ^ 51) ^ 5 * h"
    unfolding a b fe_val_pow defs h_def by (rule limb_product)
  also have "r0 + 2 ^ 51 * r1 + (2 ^ 51) ^ 2 * r2 + (2 ^ 51) ^ 3 * r3 + (2 ^ 51) ^ 4 * r4
      = lo51 r0 + 2 ^ 51 * lo51 q1 + (2 ^ 51) ^ 2 * lo51 q2 + (2 ^ 51) ^ 3 * lo51 q3 + (2 ^ 51) ^ 4 * lo51 q4 + (2 ^ 51) ^ 5 * hi51 q4"
    using carry_chain [of lo51 "2 ^ 51" hi51 r0 r1 r2 r3 r4, OF lo_hi, folded q1_def, folded q2_def, folded q3_def, folded q4_def] by (rule sym)
  also have "lo51 r0 + 2 ^ 51 * lo51 q1 + (2 ^ 51) ^ 2 * lo51 q2 + (2 ^ 51) ^ 3 * lo51 q3 + (2 ^ 51) ^ 4 * lo51 q4 + (2 ^ 51) ^ 5 * hi51 q4 + (2 ^ 51) ^ 5 * h
      = fe_val ?r + p25519 * (hi51 q4 + h) + 19 * h"
    unfolding fe_val_pow by (rule fold_top) (simp_all only: p25519_plus lo_hi t0_def power_mult [symmetric], simp)
  finally have "fe_val a * fe_val b = fe_val ?r + p25519 * (hi51 q4 + h)" by simp
  with run below show ?thesis by blast
qed

section \<open>Arithmetic modulo p\<close>

definition represents :: "fe \<Rightarrow> nat \<Rightarrow> bool" where
  "represents a x \<longleftrightarrow> fe_below (2 ^ 52) a \<and> fe_val a mod p25519 = x mod p25519"

lemma fe_below_mono: "fe_below m a \<Longrightarrow> m \<le> n \<Longrightarrow> fe_below n a"
  by (cases a) auto

lemma fe_mul_represents:
  assumes "represents a x" and "represents b y"
  shows "\<exists>r. fe_mul a b = Ok r \<and> represents r (x * y)"
proof -
  have "fe_below (2 ^ 54) a" "fe_below (2 ^ 54) b"
    using assms by (auto simp: represents_def elim: fe_below_mono)
  from fe_mul_ok [OF this] obtain r k where r: "fe_mul a b = Ok r" "fe_below (2 ^ 52) r"
    and v: "fe_val a * fe_val b = fe_val r + p25519 * k" by blast
  have "fe_val r mod p25519 = (fe_val a * fe_val b) mod p25519" by (simp add: v)
  also have "\<dots> = (x * y) mod p25519" using assms by (metis represents_def mod_mult_cong)
  finally show ?thesis using r by (auto simp: represents_def)
qed

text \<open>Powers of a fixed element, composed along the inversion chain.\<close>

lemma power_mul:
  assumes "represents a (x ^ i)" and "represents b (x ^ j)" and "i + j = k"
  shows "\<exists>r. fe_mul a b = Ok r \<and> represents r (x ^ k)"
  using fe_mul_represents [OF assms(1,2)] assms(3) by (simp add: power_add [symmetric])

lemma power_sq:
  assumes "represents a (x ^ i)" and "i + i = k" shows "\<exists>r. fe_sq a = Ok r \<and> represents r (x ^ k)"
  unfolding fe_sq_def by (rule power_mul [OF assms(1,1,2)])

lemma power_sq_times:
  assumes "represents a (x ^ i)" and "i * 2 ^ n = k" shows "\<exists>r. fe_sq_times n a = Ok r \<and> represents r (x ^ k)"
  using assms
proof (induction n arbitrary: a i)
  case (Suc n)
  obtain b where "fe_sq a = Ok b" "represents b (x ^ (i + i))" using power_sq [OF Suc.prems(1) refl] by blast
  then show ?case using Suc.IH [of b "i + i"] Suc.prems(2) by (simp add: algebra_simps)
qed simp

lemma and_then_exists:
  assumes "\<exists>r. m = Ok r \<and> represents r y" and "\<And>r. represents r y \<Longrightarrow> \<exists>s. f r = Ok s \<and> P s"
  shows "\<exists>s. and_then m f = Ok s \<and> P s"
  using assms by fastforce

lemma fe_invert_power:
  assumes "represents a x" shows "\<exists>r. fe_invert a = Ok r \<and> represents r (x ^ (p25519 + 6))"
proof -
  have a: "represents a (x ^ 1)" using assms by simp
  show ?thesis
    unfolding fe_invert_def
    apply (rule and_then_exists, rule power_sq, rule a, rule refl)
    apply (rule and_then_exists, rule power_sq_times, assumption, rule refl)
    apply (rule and_then_exists, rule power_mul, rule a, assumption, rule refl)
    apply (rule and_then_exists, rule power_mul, assumption, assumption, rule refl)
    apply (rule and_then_exists, rule power_sq, assumption, rule refl)
    apply (rule and_then_exists, rule power_mul, assumption, assumption, rule refl)
    apply (rule and_then_exists, rule power_sq_times, assumption, rule refl, rule and_then_exists, rule power_mul, assumption, assumption, rule refl)+
    apply (rule and_then_exists, rule power_sq_times, assumption, rule refl)
    apply (rule and_then_exists, rule power_mul, rule a, assumption, rule refl)
    apply (rule and_then_exists, rule power_sq_times, assumption, rule refl)
    apply (rule power_mul, assumption, assumption)
    apply (simp add: p25519_def)
    done
qed

text \<open>C34. Multiplication in GF(2^255 - 19): for factors with limbs below \<open>2\<^sup>54\<close> no accumulator overflows, the
  result has limbs below \<open>2\<^sup>52\<close> again and its value is the product modulo p.\<close>

theorem fe_mul_correct:
  assumes "fe_below (2 ^ 54) a" and "fe_below (2 ^ 54) b"
  shows "\<exists>r. fe_mul a b = Ok r \<and> fe_below (2 ^ 52) r \<and> fe_val r mod p25519 = (fe_val a * fe_val b) mod p25519"
  using fe_mul_ok [OF assms] by (metis mod_mult_self2)

theorem fe_mul_correct_witness:
  "\<exists>r. fe_mul (Fe (2 ^ 53) 1 2 3 (2 ^ 53)) (Fe 5 6 7 8 9) = Ok r \<and> fe_below (2 ^ 52) r
     \<and> fe_val r mod p25519 = (fe_val (Fe (2 ^ 53) 1 2 3 (2 ^ 53)) * fe_val (Fe 5 6 7 8 9)) mod p25519"
  by (rule fe_mul_correct) simp_all

text \<open>C35. Inversion is off: the addition chain of \<open>fe_invert\<close> never overflows, but it computes the power with
  exponent \<open>2\<^sup>255 - 13 = p + 6\<close>, not the exponent p - 2 of the inverse: its last five squarings are split by
  a multiplication that adds 8 to the exponent.\<close>

theorem fe_invert_exponent:
  assumes "fe_below (2 ^ 52) a"
  shows "\<exists>r. fe_invert a = Ok r \<and> fe_below (2 ^ 52) r \<and> fe_val r mod p25519 = fe_val a ^ (p25519 + 6) mod p25519"
  using fe_invert_power [of a "fe_val a"] assms by (simp add: represents_def)

theorem fe_invert_exponent_witness:
  "\<exists>r. fe_invert (Fe 2 0 0 0 0) = Ok r \<and> fe_below (2 ^ 52) r
     \<and> fe_val r mod p25519 = fe_val (Fe 2 0 0 0 0) ^ (p25519 + 6) mod p25519"
  by (rule fe_invert_exponent) simp

section \<open>Subtraction\<close>

text \<open>C36. Subtraction is off: the constant that \<open>fe_sub\<close> adds is not twice p, as it is meant to be, but
  \<open>p + 2\<^sup>51 - 19\<close>; so whenever it returns, its result is not \<open>a - b\<close> but \<open>a - b + 2\<^sup>51 - 19\<close> modulo p, which is a
  different element for all a and b.\<close>

theorem fe_sub_off:
  assumes "fe_sub a b = Ok r"
  shows "(fe_val r + fe_val b) mod p25519 = (fe_val a + (2 ^ 51 - 19)) mod p25519
     \<and> (fe_val r + fe_val b) mod p25519 \<noteq> fe_val a mod p25519"
proof -
  obtain a0 a1 a2 a3 a4 b0 b1 b2 b3 b4 where a: "a = Fe a0 a1 a2 a3 a4" and b: "b = Fe b0 b1 b2 b3 b4"
    by (cases a, cases b)
  have "fe_val TWO_P = p25519 + (2 ^ 51 - 19)" by (simp add: TWO_P_def p25519_def)
  moreover have "fe_val r + fe_val b = fe_val a + fe_val TWO_P"
    using assms by (auto simp: fe_sub_def TWO_P_def a b split: if_splits)
  ultimately have val: "fe_val r + fe_val b = fe_val a + (2 ^ 51 - 19) + p25519" by simp
  then have eq: "(fe_val r + fe_val b) mod p25519 = (fe_val a + (2 ^ 51 - 19)) mod p25519" by simp
  have "(fe_val a + (2 ^ 51 - 19)) mod p25519 \<noteq> fe_val a mod p25519"
  proof
    assume "(fe_val a + (2 ^ 51 - 19)) mod p25519 = fe_val a mod p25519"
    then have "p25519 dvd (2 ^ 51 - 19)" by (metis add_diff_cancel_left' le_add1 mod_eq_dvd_iff_nat)
    then show False by (auto dest: dvd_imp_le simp: p25519_def)
  qed
  with eq show ?thesis by simp
qed

theorem fe_sub_off_witness:
  "\<exists>r. fe_sub FE_ONE FE_ZERO = Ok r \<and> (fe_val r + fe_val FE_ZERO) mod p25519 \<noteq> fe_val FE_ONE mod p25519"
proof -
  obtain r where r: "fe_sub FE_ONE FE_ZERO = Ok r"
    by (simp add: fe_sub_def TWO_P_def u64_ok_def)
  then show ?thesis using fe_sub_off [OF r] by blast
qed

end
