(* ===== verification/Chacha20.thy ===== *)
theory Chacha20
  imports Limbs
begin

unbundle bit_operations_syntax

text \<open>
  ChaCha20-Poly1305 (kernel/src/net/crypto/chacha20.rs): the block function and the stream cipher, the
  Poly1305 authenticator with its five 26-bit limbs, and the authenticated encryption built from them.

  The cipher works on \<open>u32\<close> words. The limbs of Poly1305 are natural numbers with the limits of their
  types written out: \<open>u32_ok\<close> and \<open>u64_ok\<close> say that a sum or product does not overflow, and a cast
  keeps the remainder.
\<close>

section \<open>The cipher\<close>

definition qr :: "nat \<Rightarrow> nat \<Rightarrow> nat \<Rightarrow> nat \<Rightarrow> u32 list \<Rightarrow> u32 list" where
  "qr a b c d s =
     (let s = s[a := s ! a + s ! b]; s = s[d := s ! d XOR s ! a]; s = s[d := word_rotl 16 (s ! d)];
          s = s[c := s ! c + s ! d]; s = s[b := s ! b XOR s ! c]; s = s[b := word_rotl 12 (s ! b)];
          s = s[a := s ! a + s ! b]; s = s[d := s ! d XOR s ! a]; s = s[d := word_rotl 8 (s ! d)];
          s = s[c := s ! c + s ! d]; s = s[b := s ! b XOR s ! c]; s = s[b := word_rotl 7 (s ! b)] in s)"

definition double_round :: "u32 list \<Rightarrow> u32 list" where
  "double_round w =
     qr 3 4 9 14 (qr 2 7 8 13 (qr 1 6 11 12 (qr 0 5 10 15 (qr 3 7 11 15 (qr 2 6 10 14 (qr 1 5 9 13 (qr 0 4 8 12 w)))))))"

definition le32_at :: "u8 list \<Rightarrow> nat \<Rightarrow> u32" where
  "le32_at bs i = from_le (take 4 (drop i bs))"

definition chacha20_init :: "u8 list \<Rightarrow> u32 \<Rightarrow> u8 list \<Rightarrow> u32 list" where
  "chacha20_init key counter nonce =
     [0x61707865, 0x3320646e, 0x79622d32, 0x6b206574] @ map (\<lambda>i. le32_at key (i * 4)) [0 ..< 8]
     @ [counter] @ map (\<lambda>i. le32_at nonce (i * 4)) [0 ..< 3]"

definition chacha20_block :: "u8 list \<Rightarrow> u32 \<Rightarrow> u8 list \<Rightarrow> u8 list" where
  "chacha20_block key counter nonce =
     (let state = chacha20_init key counter nonce; working = (double_round ^^ 10) state in
      concat (map (to_le 4) (map2 (+) working state)))"

function crypt_loop :: "u8 list \<Rightarrow> u32 \<Rightarrow> u8 list \<Rightarrow> u8 list \<Rightarrow> u8 list" where
  "crypt_loop key ctr nonce rest =
     (if rest = [] then []
      else map2 (XOR) (take 64 rest) (chacha20_block key ctr nonce) @ crypt_loop key (ctr + 1) nonce (drop 64 rest))"
  by pat_completeness auto
termination
  by (relation "measure (\<lambda>(key, ctr, nonce, rest). length rest)") auto

declare crypt_loop.simps [simp del]

definition chacha20_crypt :: "u8 list \<Rightarrow> u32 \<Rightarrow> u8 list \<Rightarrow> u8 list \<Rightarrow> u8 list" where
  "chacha20_crypt key counter nonce data = crypt_loop key counter nonce data"

section \<open>Poly1305\<close>

datatype limbs = Limbs nat nat nat nat nat

definition lo26 :: "nat \<Rightarrow> nat" where
  "lo26 n = n mod 2 ^ 26"

definition hi26 :: "nat \<Rightarrow> nat" where
  "hi26 n = n div 2 ^ 26"

definition poly_r :: "u8 list \<Rightarrow> limbs" where
  "poly_r key = Limbs (unat (le32_at key 0 AND 0x03ffffff)) (unat (drop_bit 2 (le32_at key 3) AND 0x03ffff03))
     (unat (drop_bit 4 (le32_at key 6) AND 0x03ffc0ff)) (unat (drop_bit 6 (le32_at key 9) AND 0x03f03fff))
     (unat (drop_bit 8 (le32_at key 12) AND 0x000fffff))"

text \<open>The words of a block, padded with a one byte and zeros, cut into limbs.\<close>

definition poly_block :: "u8 list \<Rightarrow> u8 list" where
  "poly_block bs = bs @ [1] @ replicate (16 - length bs) 0"

definition block_limbs :: "u8 list \<Rightarrow> nat \<times> nat \<times> nat \<times> nat" where
  "block_limbs block =
     (let t0 = le32_at block 0; t1 = le32_at block 4; t2 = le32_at block 8; t3 = le32_at block 12 in
      (unat (t0 AND 0x03ffffff), unat ((drop_bit 26 t0 OR push_bit 6 t1) AND 0x03ffffff),
       unat ((drop_bit 20 t1 OR push_bit 12 t2) AND 0x03ffffff), unat ((drop_bit 14 t2 OR push_bit 18 t3) AND 0x03ffffff)))"

text \<open>The top limb: once with the high bit for a full block, and once more the high bit alone.\<close>

definition top_limb :: "u8 list \<Rightarrow> nat \<Rightarrow> u32" where
  "top_limb block block_len =
     drop_bit 8 (le32_at block 12) OR
       (if block_len = 16 then push_bit 24 1 else push_bit (min ((block_len * 8) - 104) 24) (ucast (block ! 16)))"

definition add_top :: "u8 list \<Rightarrow> nat \<Rightarrow> nat \<Rightarrow> nat" where
  "add_top block block_len h4 =
     (if block_len = 16
      then unat (of_nat h4 + (drop_bit 8 (le32_at block 12) OR push_bit 24 1) - drop_bit 8 (le32_at block 12) :: u32)
      else h4)"

definition poly_mul :: "limbs \<Rightarrow> limbs \<Rightarrow> (unit, limbs) result" where
  "poly_mul r h =
     (case r of Limbs r0 r1 r2 r3 r4 \<Rightarrow> case h of Limbs h0 h1 h2 h3 h4 \<Rightarrow>
     (let s1 = r1 * 5; s2 = r2 * 5; s3 = r3 * 5; s4 = r4 * 5;
          d0 = h0 * r0 + h1 * s4 + h2 * s3 + h3 * s2 + h4 * s1;
          d1 = h0 * r1 + h1 * r0 + h2 * s4 + h3 * s3 + h4 * s2;
          d2 = h0 * r2 + h1 * r1 + h2 * r0 + h3 * s4 + h4 * s3;
          d3 = h0 * r3 + h1 * r2 + h2 * r1 + h3 * r0 + h4 * s4;
          d4 = h0 * r4 + h1 * r3 + h2 * r2 + h3 * r1 + h4 * r0;
          d1' = d1 + hi26 d0 mod 2 ^ 32; d2' = d2 + hi26 d1' mod 2 ^ 32; d3' = d3 + hi26 d2' mod 2 ^ 32;
          d4' = d4 + hi26 d3' mod 2 ^ 32; c = hi26 d4' mod 2 ^ 32;
          h0' = lo26 d0 + c * 5; h1' = lo26 d1' + hi26 h0' in
      if u32_ok s1 \<and> u32_ok s2 \<and> u32_ok s3 \<and> u32_ok s4 \<and> u64_ok d0 \<and> u64_ok d1' \<and> u64_ok d2' \<and> u64_ok d3' \<and> u64_ok d4'
         \<and> u32_ok h0' \<and> u32_ok h1'
      then Ok (Limbs (lo26 h0') h1' (lo26 d2') (lo26 d3') (lo26 d4')) else Panic))"

text \<open>One round of the loop over the blocks.\<close>

fun poly_step :: "limbs \<Rightarrow> u8 list \<Rightarrow> limbs \<Rightarrow> (unit, limbs) result" where
  "poly_step r bs (Limbs h0 h1 h2 h3 h4) =
     (let block = poly_block bs; (m0, m1, m2, m3) = block_limbs block; m4 = unat (top_limb block (length bs)) in
      if u32_ok (h0 + m0) \<and> u32_ok (h1 + m1) \<and> u32_ok (h2 + m2) \<and> u32_ok (h3 + m3) \<and> u32_ok (h4 + m4)
      then poly_mul r (Limbs (h0 + m0) (h1 + m1) (h2 + m2) (h3 + m3) (add_top block (length bs) (h4 + m4)))
      else Panic)"

function poly_loop :: "limbs \<Rightarrow> u8 list \<Rightarrow> limbs \<Rightarrow> (unit, limbs) result" where
  "poly_loop r data h =
     (if data = [] then Ok h else and_then (poly_step r (take 16 data) h) (poly_loop r (drop 16 data)))"
  by pat_completeness auto
termination
  by (relation "measure (\<lambda>(r, data, h). length data)") auto

declare poly_loop.simps [simp del]

definition poly_carry :: "limbs \<Rightarrow> (unit, limbs) result" where
  "poly_carry h =
     (case h of Limbs h0 h1 h2 h3 h4 \<Rightarrow>
     (let h2' = h2 + hi26 h1; h3' = h3 + hi26 h2'; h4' = h4 + hi26 h3'; h0' = h0 + hi26 h4' * 5; h1' = lo26 h1 + hi26 h0' in
      if u32_ok h2' \<and> u32_ok h3' \<and> u32_ok h4' \<and> u32_ok h0' \<and> u32_ok h1'
      then Ok (Limbs (lo26 h0') h1' (lo26 h2') (lo26 h3') (lo26 h4')) else Panic))"

text \<open>\<open>h\<close> or \<open>h - p\<close>, chosen by the sign of the top limb of the difference; the masks select whole limbs.\<close>

definition sel :: "u32 \<Rightarrow> nat \<Rightarrow> nat \<Rightarrow> nat" where
  "sel msk h g = unat ((of_nat h AND NOT msk) OR (of_nat g AND msk))"

definition poly_select :: "limbs \<Rightarrow> limbs" where
  "poly_select h =
     (case h of Limbs h0 h1 h2 h3 h4 \<Rightarrow>
     (let g0 = (h0 + 5) mod 2 ^ 32; g1 = (h1 + hi26 g0) mod 2 ^ 32; g2 = (h2 + hi26 g1) mod 2 ^ 32;
          g3 = (h3 + hi26 g2) mod 2 ^ 32; g4 = of_nat h4 + of_nat (hi26 g3) - push_bit 26 1 :: u32;
          msk = drop_bit 31 g4 - 1 in
      Limbs (sel msk h0 (lo26 g0)) (sel msk h1 (lo26 g1)) (sel msk h2 (lo26 g2)) (sel msk h3 (lo26 g3)) (sel msk h4 (unat g4))))"

fun poly_tag :: "u8 list \<Rightarrow> limbs \<Rightarrow> u8 list" where
  "poly_tag key (Limbs h0 h1 h2 h3 h4) =
     (let h_full = of_nat h0 OR push_bit 26 (of_nat h1) OR push_bit 52 (of_nat h2) OR push_bit 78 (of_nat h3)
            OR push_bit 104 (of_nat h4) :: 128 word;
          s_full = ucast (le32_at key 16) OR push_bit 32 (ucast (le32_at key 20)) OR push_bit 64 (ucast (le32_at key 24))
            OR push_bit 96 (ucast (le32_at key 28)) :: 128 word in
      to_le 16 (h_full + s_full))"

definition poly1305_mac :: "u8 list \<Rightarrow> u8 list \<Rightarrow> (unit, u8 list) result" where
  "poly1305_mac key data =
     and_then (poly_loop (poly_r key) data (Limbs 0 0 0 0 0)) (\<lambda>h. and_then (poly_carry h) (\<lambda>h. Ok (poly_tag key (poly_select h))))"

section \<open>Authenticated encryption\<close>

definition pad16 :: "u8 list \<Rightarrow> u8 list" where
  "pad16 bs = bs @ replicate ((16 - length bs mod 16) mod 16) 0"

definition construct_poly1305_data :: "u8 list \<Rightarrow> u8 list \<Rightarrow> u8 list" where
  "construct_poly1305_data aad ciphertext =
     pad16 aad @ pad16 ciphertext @ to_le 8 (of_nat (length aad) :: u64) @ to_le 8 (of_nat (length ciphertext) :: u64)"

definition chacha20_poly1305_seal :: "u8 list \<Rightarrow> u8 list \<Rightarrow> u8 list \<Rightarrow> u8 list \<Rightarrow> (unit, u8 list \<times> u8 list) result" where
  "chacha20_poly1305_seal key nonce aad plaintext =
     (let poly_key = take 32 (chacha20_block key 0 nonce); ciphertext = chacha20_crypt key 1 nonce plaintext in
      and_then (poly1305_mac poly_key (construct_poly1305_data aad ciphertext)) (\<lambda>tag. Ok (ciphertext, tag)))"

definition tag_diff :: "u8 list \<Rightarrow> u8 list \<Rightarrow> u8" where
  "tag_diff computed tag = fold (\<lambda>j diff. diff OR (computed ! j XOR tag ! j)) [0 ..< 16] 0"

definition chacha20_poly1305_open :: "u8 list \<Rightarrow> u8 list \<Rightarrow> u8 list \<Rightarrow> u8 list \<Rightarrow> u8 list \<Rightarrow> (unit, u8 list option) result" where
  "chacha20_poly1305_open key nonce aad ciphertext tag =
     (let poly_key = take 32 (chacha20_block key 0 nonce) in
      and_then (poly1305_mac poly_key (construct_poly1305_data aad ciphertext)) (\<lambda>computed.
      Ok (if tag_diff computed tag \<noteq> 0 then None else Some (chacha20_crypt key 1 nonce ciphertext))))"

section \<open>The cipher is its own inverse\<close>

lemma length_qr [simp]: "length (qr a b c d s) = length s"
  by (simp add: qr_def Let_def)

lemma length_double_rounds [simp]: "length ((double_round ^^ n) s) = length s"
  by (induction n) (simp_all add: double_round_def)

lemma length_chacha20_init [simp]: "length (chacha20_init key counter nonce) = 16"
  by (simp add: chacha20_init_def)

lemma length_concat_to_le: "length (concat (map (to_le n) ws)) = n * length ws"
  by (induction ws) simp_all

lemma length_chacha20_block [simp]: "length (chacha20_block key counter nonce) = 64"
  unfolding chacha20_block_def Let_def length_concat_to_le by simp

lemma length_crypt_loop [simp]: "length (crypt_loop key ctr nonce data) = length data"
proof (induction key ctr nonce data rule: crypt_loop.induct)
  case (1 key ctr nonce rest)
  then show ?case by (subst crypt_loop.simps) (auto simp: min_def)
qed

lemma map2_xor_twice: "length xs \<le> length ks \<Longrightarrow> map2 (XOR) (map2 (XOR) xs ks) ks = (xs :: u8 list)"
  by (rule nth_equalityI) (simp_all add: xor.assoc)

lemma crypt_loop_twice: "crypt_loop key ctr nonce (crypt_loop key ctr nonce data) = data"
proof (induction key ctr nonce data rule: crypt_loop.induct)
  case (1 key ctr nonce rest)
  show ?case
  proof (cases "rest = []")
    case False
    let ?x = "map2 (XOR) (take 64 rest) (chacha20_block key ctr nonce)"
    let ?y = "crypt_loop key (ctr + 1) nonce (drop 64 rest)"
    have c: "crypt_loop key ctr nonce rest = ?x @ ?y" using False by (simp add: crypt_loop.simps)
    have y: "?y = []" if "length rest \<le> 64" using that by (simp add: crypt_loop.simps)
    have parts: "take 64 (?x @ ?y) = ?x" "drop 64 (?x @ ?y) = ?y"
      using y by (cases "length rest \<le> 64", simp_all)+
    have "length (?x @ ?y) \<noteq> 0" using False by simp
    then have "?x @ ?y \<noteq> []" by fastforce
    then have "crypt_loop key ctr nonce (?x @ ?y) = map2 (XOR) ?x (chacha20_block key ctr nonce) @ crypt_loop key (ctr + 1) nonce ?y"
      unfolding crypt_loop.simps [of key ctr nonce "?x @ ?y"] parts by (simp only: if_False)
    also have "\<dots> = take 64 rest @ drop 64 rest"
      using "1.IH" False by (simp add: map2_xor_twice)
    finally show ?thesis by (simp add: c)
  qed (simp add: crypt_loop.simps)
qed

lemma tag_diff_bits: "bit (fold (\<lambda>j diff. diff OR (xs ! j XOR ys ! j)) js d :: u8) n \<longleftrightarrow> bit d n \<or> (\<exists>j \<in> set js. bit (xs ! j XOR ys ! j) n)"
  by (induction js arbitrary: d) (auto simp: bit_simps)

lemma tag_diff_zero:
  assumes "length computed = 16" and "length tag = 16" shows "tag_diff computed tag = 0 \<longleftrightarrow> computed = tag"
proof
  assume z: "tag_diff computed tag = 0"
  show "computed = tag"
  proof (rule nth_equalityI)
    fix i assume "i < length computed"
    then have i: "i \<in> set [0 ..< 16]" using assms by simp
    have "\<not> bit (computed ! i XOR tag ! i) n" for n
      using tag_diff_bits [of computed tag "[0 ..< 16]" 0 n] z i by (auto simp: tag_diff_def)
    then show "computed ! i = tag ! i" by (intro bit_eqI) (simp add: bit_xor_iff)
  qed (simp add: assms)
next
  assume "computed = tag"
  then have "\<not> bit (tag_diff computed tag) n" for n
    unfolding tag_diff_def tag_diff_bits by simp
  then show "tag_diff computed tag = 0" by (intro bit_eqI) simp
qed

section \<open>The arithmetic of Poly1305\<close>

definition p1305 :: nat where
  "p1305 = 2 ^ 130 - 5"

fun limbs_val :: "limbs \<Rightarrow> nat" where
  "limbs_val (Limbs h0 h1 h2 h3 h4) = h0 + 2 ^ 26 * h1 + (2 ^ 26) ^ 2 * h2 + (2 ^ 26) ^ 3 * h3 + (2 ^ 26) ^ 4 * h4"

text \<open>What the accumulator satisfies between two blocks, and after the final carry.\<close>

fun limbs_ok :: "limbs \<Rightarrow> bool" where
  "limbs_ok (Limbs h0 h1 h2 h3 h4) \<longleftrightarrow> h0 < 2 ^ 26 \<and> h1 < 2 ^ 26 + 64 \<and> h2 < 2 ^ 26 \<and> h3 < 2 ^ 26 \<and> h4 < 2 ^ 26"

fun limbs_below :: "nat \<Rightarrow> limbs \<Rightarrow> bool" where
  "limbs_below n (Limbs h0 h1 h2 h3 h4) \<longleftrightarrow> h0 < n \<and> h1 < n \<and> h2 < n \<and> h3 < n \<and> h4 < n"

lemma p1305_plus: "p1305 + 5 = (2 ^ 26) ^ 5"
  by (simp add: p1305_def)

lemma lo_hi26: "lo26 n + 2 ^ 26 * hi26 n = n"
  by (simp add: lo26_def hi26_def)

lemma lo26_less [simp]: "lo26 n < 2 ^ 26"
  by (simp add: lo26_def)

lemma hi26_less: "n < 2 ^ 26 * m \<Longrightarrow> hi26 n < m"
  by (simp add: hi26_def less_mult_imp_div_less mult.commute)

lemma product_below26: "a < 2 ^ 27 + 64 \<Longrightarrow> b < 2 ^ 26 \<Longrightarrow> a * b \<le> 2 ^ 53 + 2 ^ 32" for a b :: nat
  using mult_mono [of a "2 ^ 27 + 64" b "2 ^ 26"] by simp

text \<open>What the 64-bit sums of the product hold; the casts of the carries to \<open>u32\<close> lose nothing.\<close>

lemma carry_bounds:
  fixes d0 d1 d2 d3 d4 :: nat
  assumes "d0 < 22 * 2 ^ 53" "d1 < 22 * 2 ^ 53" "d2 < 22 * 2 ^ 53" "d3 < 22 * 2 ^ 53" "d4 < 5 * 2 ^ 53 + 2 ^ 35"
  defines "q1 \<equiv> d1 + hi26 d0" defines "q2 \<equiv> d2 + hi26 q1" defines "q3 \<equiv> d3 + hi26 q2" defines "q4 \<equiv> d4 + hi26 q3"
  shows "hi26 d0 < 2 ^ 32" "q1 < 2 ^ 58" "hi26 q1 < 2 ^ 32" "q2 < 2 ^ 58" "hi26 q2 < 2 ^ 32" "q3 < 2 ^ 58" "hi26 q3 < 2 ^ 32" "q4 < 2 ^ 58"
    "hi26 q4 < 2 ^ 32" "lo26 d0 + hi26 q4 * 5 < 2 ^ 32" "hi26 (lo26 d0 + hi26 q4 * 5) < 64"
proof -
  show c0: "hi26 d0 < 2 ^ 32" using assms(1) hi26_less [of d0 "2 ^ 32"] by simp
  show q1: "q1 < 2 ^ 58" using assms(2) c0 by (simp add: q1_def)
  show c1: "hi26 q1 < 2 ^ 32" using q1 hi26_less [of q1 "2 ^ 32"] by simp
  show q2: "q2 < 2 ^ 58" using assms(3) c1 by (simp add: q2_def)
  show c2: "hi26 q2 < 2 ^ 32" using q2 hi26_less [of q2 "2 ^ 32"] by simp
  show q3: "q3 < 2 ^ 58" using assms(4) c2 by (simp add: q3_def)
  show c3: "hi26 q3 < 2 ^ 32" using q3 hi26_less [of q3 "2 ^ 32"] by simp
  show q4: "q4 < 2 ^ 58" using assms(5) c3 by (simp add: q4_def)
  show c4: "hi26 q4 < 2 ^ 32" using q4 hi26_less [of q4 "2 ^ 32"] by simp
  have "q4 < 2 ^ 26 * (5 * 2 ^ 27 + 1024)" using assms(5) c3 by (simp add: q4_def)
  then have "hi26 q4 < 5 * 2 ^ 27 + 1024" by (rule hi26_less)
  then show t: "lo26 d0 + hi26 q4 * 5 < 2 ^ 32" using lo26_less [of d0] by simp
  show "hi26 (lo26 d0 + hi26 q4 * 5) < 64" using t hi26_less [of "lo26 d0 + hi26 q4 * 5" 64] by simp
qed

lemma poly_mul_ok:
  assumes "limbs_below (2 ^ 26) r" and "limbs_below (2 ^ 27 + 64) h"
  shows "\<exists>h' k. poly_mul r h = Ok h' \<and> limbs_ok h' \<and> limbs_val h * limbs_val r = limbs_val h' + p1305 * k"
proof -
  obtain r0 r1 r2 r3 r4 h0 h1 h2 h3 h4 where r: "r = Limbs r0 r1 r2 r3 r4" and h: "h = Limbs h0 h1 h2 h3 h4"
    by (cases r, cases h)
  define d0 where "d0 = h0 * r0 + h1 * (r4 * 5) + h2 * (r3 * 5) + h3 * (r2 * 5) + h4 * (r1 * 5)"
  define d1 where "d1 = h0 * r1 + h1 * r0 + h2 * (r4 * 5) + h3 * (r3 * 5) + h4 * (r2 * 5)"
  define d2 where "d2 = h0 * r2 + h1 * r1 + h2 * r0 + h3 * (r4 * 5) + h4 * (r3 * 5)"
  define d3 where "d3 = h0 * r3 + h1 * r2 + h2 * r1 + h3 * r0 + h4 * (r4 * 5)"
  define d4 where "d4 = h0 * r4 + h1 * r3 + h2 * r2 + h3 * r1 + h4 * r0"
  note defs = d0_def d1_def d2_def d3_def d4_def
  have lim: "h0 < 2 ^ 27 + 64" "h1 < 2 ^ 27 + 64" "h2 < 2 ^ 27 + 64" "h3 < 2 ^ 27 + 64" "h4 < 2 ^ 27 + 64"
    "r0 < 2 ^ 26" "r1 < 2 ^ 26" "r2 < 2 ^ 26" "r3 < 2 ^ 26" "r4 < 2 ^ 26"
    using assms by (simp_all add: r h)
  note prods = lim(1-5) [THEN product_below26, OF lim(6)] lim(1-5) [THEN product_below26, OF lim(7)]
    lim(1-5) [THEN product_below26, OF lim(8)] lim(1-5) [THEN product_below26, OF lim(9)] lim(1-5) [THEN product_below26, OF lim(10)]
  have d: "d0 < 22 * 2 ^ 53" "d1 < 22 * 2 ^ 53" "d2 < 22 * 2 ^ 53" "d3 < 22 * 2 ^ 53" "d4 < 5 * 2 ^ 53 + 2 ^ 35"
    using prods unfolding defs mult.assoc [symmetric] by simp_all
  define q1 where "q1 = d1 + hi26 d0"
  define q2 where "q2 = d2 + hi26 q1"
  define q3 where "q3 = d3 + hi26 q2"
  define q4 where "q4 = d4 + hi26 q3"
  define t0 where "t0 = lo26 d0 + hi26 q4 * 5"
  define g where "g = (h1 * r4 + h2 * r3 + h3 * r2 + h4 * r1) + 2 ^ 26 * (h2 * r4 + h3 * r3 + h4 * r2)
      + (2 ^ 26) ^ 2 * (h3 * r4 + h4 * r3) + (2 ^ 26) ^ 3 * (h4 * r4)"
  let ?r = "Limbs (lo26 t0) (lo26 q1 + hi26 t0) (lo26 q2) (lo26 q3) (lo26 q4)"
  note bounds = carry_bounds [OF d, folded q1_def, folded q2_def, folded q3_def, folded q4_def, folded t0_def]
  have small: "lo26 q1 + hi26 t0 < 2 ^ 26 + 64" using bounds(11) lo26_less [of q1] by simp
  have casts: "hi26 d0 mod 2 ^ 32 = hi26 d0" "hi26 q1 mod 2 ^ 32 = hi26 q1" "hi26 q2 mod 2 ^ 32 = hi26 q2"
      "hi26 q3 mod 2 ^ 32 = hi26 q3" "hi26 q4 mod 2 ^ 32 = hi26 q4"
    using bounds(1,3,5,7,9) by (simp_all only: mod_less)
  have oks: "u32_ok (r1 * 5)" "u32_ok (r2 * 5)" "u32_ok (r3 * 5)" "u32_ok (r4 * 5)" "u64_ok d0" "u64_ok q1" "u64_ok q2" "u64_ok q3" "u64_ok q4"
      "u32_ok t0" "u32_ok (lo26 q1 + hi26 t0)"
    using lim(7-10) d(1) bounds small by (simp_all add: u32_ok_def u64_ok_def)
  have run: "poly_mul r h = Ok ?r"
    unfolding r h poly_mul_def limbs.case Let_def defs [symmetric] casts(1) q1_def [symmetric] casts(2) q2_def [symmetric]
      casts(3) q3_def [symmetric] casts(4) q4_def [symmetric] casts(5) t0_def [symmetric]
    using oks by simp
  have ok: "limbs_ok ?r"
    using small lo26_less [of t0] lo26_less [of q2] lo26_less [of q3] lo26_less [of q4] by simp
  have "limbs_val h * limbs_val r + 5 * g = d0 + 2 ^ 26 * d1 + (2 ^ 26) ^ 2 * d2 + (2 ^ 26) ^ 3 * d3 + (2 ^ 26) ^ 4 * d4 + (2 ^ 26) ^ 5 * g"
    unfolding r h limbs_val.simps defs g_def by (rule limb_product)
  also have "d0 + 2 ^ 26 * d1 + (2 ^ 26) ^ 2 * d2 + (2 ^ 26) ^ 3 * d3 + (2 ^ 26) ^ 4 * d4
      = lo26 d0 + 2 ^ 26 * lo26 q1 + (2 ^ 26) ^ 2 * lo26 q2 + (2 ^ 26) ^ 3 * lo26 q3 + (2 ^ 26) ^ 4 * lo26 q4 + (2 ^ 26) ^ 5 * hi26 q4"
    using carry_chain [of lo26 "2 ^ 26" hi26 d0 d1 d2 d3 d4, OF lo_hi26, folded q1_def, folded q2_def, folded q3_def, folded q4_def] by (rule sym)
  also have "lo26 d0 + 2 ^ 26 * lo26 q1 + (2 ^ 26) ^ 2 * lo26 q2 + (2 ^ 26) ^ 3 * lo26 q3 + (2 ^ 26) ^ 4 * lo26 q4 + (2 ^ 26) ^ 5 * hi26 q4 + (2 ^ 26) ^ 5 * g
      = limbs_val ?r + p1305 * (hi26 q4 + g) + 5 * g"
    unfolding limbs_val.simps by (rule fold_top) (simp_all only: p1305_plus lo_hi26 t0_def)
  finally have "limbs_val h * limbs_val r = limbs_val ?r + p1305 * (hi26 q4 + g)" by simp
  with run ok show ?thesis by blast
qed

lemma hi26_carry: "h < 2 ^ 26 \<Longrightarrow> c \<le> 1 \<Longrightarrow> hi26 (h + c) \<le> c"
  by (cases "c = 0") (simp_all add: hi26_def)

text \<open>The final carry: the limbs are then all below \<open>2\<^sup>26\<close>.\<close>

lemma poly_carry_ok:
  assumes "limbs_ok h"
  shows "\<exists>h' k. poly_carry h = Ok h' \<and> limbs_below (2 ^ 26) h' \<and> limbs_val h = limbs_val h' + p1305 * k"
proof -
  obtain h0 h1 h2 h3 h4 where h: "h = Limbs h0 h1 h2 h3 h4" by (cases h)
  have lim: "h0 < 2 ^ 26" "h1 < 2 ^ 26 + 64" "h2 < 2 ^ 26" "h3 < 2 ^ 26" "h4 < 2 ^ 26" using assms by (simp_all add: h)
  define q2 where "q2 = h2 + hi26 h1"
  define q3 where "q3 = h3 + hi26 q2"
  define q4 where "q4 = h4 + hi26 q3"
  define t0 where "t0 = h0 + hi26 q4 * 5"
  let ?r = "Limbs (lo26 t0) (lo26 h1 + hi26 t0) (lo26 q2) (lo26 q3) (lo26 q4)"
  have c1: "hi26 h1 \<le> 1" using lim(2) by (simp add: hi26_def)
  have c2: "hi26 q2 \<le> hi26 h1" unfolding q2_def by (rule hi26_carry) (use lim(3) c1 in simp_all)
  have c3: "hi26 q3 \<le> hi26 q2" unfolding q3_def by (rule hi26_carry) (use lim(4) c1 c2 in simp_all)
  have c4: "hi26 q4 \<le> hi26 q3" unfolding q4_def by (rule hi26_carry) (use lim(5) c1 c2 c3 in simp_all)
  have t: "t0 < 2 ^ 26 + 5" using lim(1) c1 c2 c3 c4 by (simp add: t0_def)
  have h1': "lo26 h1 + hi26 t0 < 2 ^ 26"
  proof (cases "hi26 h1 = 0")
    case True
    then have "hi26 q4 = 0" using c2 c3 c4 by simp
    then have "hi26 t0 = 0" using lim(1) by (simp add: t0_def hi26_def)
    then show ?thesis using lo26_less [of h1] by simp
  next
    case False
    then have "hi26 h1 = 1" using c1 by simp
    then have "lo26 h1 < 64" using lim(2) lo_hi26 [of h1] by simp
    moreover have "hi26 t0 \<le> 1" using t by (simp add: hi26_def)
    ultimately show ?thesis by simp
  qed
  have "u32_ok q2 \<and> u32_ok q3 \<and> u32_ok q4 \<and> u32_ok t0 \<and> u32_ok (lo26 h1 + hi26 t0)"
    using lim c1 c2 c3 c4 t h1' by (simp add: u32_ok_def q2_def q3_def q4_def)
  then have run: "poly_carry h = Ok ?r"
    unfolding h poly_carry_def limbs.case Let_def q2_def [symmetric] q3_def [symmetric] q4_def [symmetric] t0_def [symmetric]
    by simp
  have below: "limbs_below (2 ^ 26) ?r"
    using h1' lo26_less [of t0] lo26_less [of q2] lo26_less [of q3] lo26_less [of q4] by simp
  have "limbs_val h = h0 + 2 ^ 26 * h1 + (2 ^ 26) ^ 2 * h2 + (2 ^ 26) ^ 3 * h3 + (2 ^ 26) ^ 4 * h4"
    by (simp add: h)
  also have "\<dots> = h0 + 2 ^ 26 * lo26 h1 + (2 ^ 26) ^ 2 * lo26 q2 + (2 ^ 26) ^ 3 * lo26 q3 + (2 ^ 26) ^ 4 * lo26 q4 + (2 ^ 26) ^ 5 * hi26 q4
      + (2 ^ 26) ^ 5 * 0"
    using carry_chain [of lo26 "2 ^ 26" hi26 h0 h1 h2 h3 h4, OF lo_hi26] lim(1)
    by (simp add: q2_def q3_def q4_def hi26_def [of h0] lo26_def [of h0])
  also have "\<dots> = limbs_val ?r + p1305 * (hi26 q4 + 0) + 5 * 0"
    unfolding limbs_val.simps by (rule fold_top) (simp_all only: p1305_plus lo_hi26 t0_def)
  finally show ?thesis using run below by auto
qed

text \<open>The selection reduces a value below \<open>2\<^sup>130\<close> modulo p.\<close>

lemma poly_select_val:
  assumes "limbs_below (2 ^ 26) h"
  shows "limbs_below (2 ^ 26) (poly_select h) \<and> limbs_val (poly_select h) = limbs_val h mod p1305"
proof -
  obtain h0 h1 h2 h3 h4 where h: "h = Limbs h0 h1 h2 h3 h4" by (cases h)
  have lim: "h0 < 2 ^ 26" "h1 < 2 ^ 26" "h2 < 2 ^ 26" "h3 < 2 ^ 26" "h4 < 2 ^ 26" using assms by (simp_all add: h)
  define g0 where "g0 = h0 + 5"
  define g1 where "g1 = h1 + hi26 g0"
  define g2 where "g2 = h2 + hi26 g1"
  define g3 where "g3 = h3 + hi26 g2"
  define g4 where "g4 = h4 + hi26 g3"
  have c0: "hi26 g0 \<le> 1" using lim(1) by (simp add: hi26_def g0_def)
  have c1: "hi26 g1 \<le> hi26 g0" unfolding g1_def by (rule hi26_carry) (use lim(2) c0 in simp_all)
  have c2: "hi26 g2 \<le> hi26 g1" unfolding g2_def by (rule hi26_carry) (use lim(3) c0 c1 in simp_all)
  have c3: "hi26 g3 \<le> hi26 g2" unfolding g3_def by (rule hi26_carry) (use lim(4) c0 c1 c2 in simp_all)
  have casts: "g0 mod 2 ^ 32 = g0" "g1 mod 2 ^ 32 = g1" "g2 mod 2 ^ 32 = g2" "g3 mod 2 ^ 32 = g3"
    using lim c0 c1 c2 c3 by (simp_all add: g0_def g1_def g2_def g3_def)
  have g4: "g4 \<le> 2 ^ 26" using lim(5) c0 c1 c2 c3 by (simp add: g4_def)
  define w where "w = (of_nat h4 + of_nat (hi26 g3) - push_bit 26 1 :: u32)"
  have wg: "w = of_nat g4 - 2 ^ 26" by (simp add: w_def g4_def push_bit_eq_mult)
  have run: "poly_select h = (let msk = drop_bit 31 w - 1 in
      Limbs (sel msk h0 (lo26 g0)) (sel msk h1 (lo26 g1)) (sel msk h2 (lo26 g2)) (sel msk h3 (lo26 g3)) (sel msk h4 (unat w)))"
    unfolding h poly_select_def limbs.case Let_def g0_def [symmetric] casts(1) g1_def [symmetric] casts(2) g2_def [symmetric]
      casts(3) g3_def [symmetric] casts(4) w_def [symmetric] ..
  have val: "limbs_val h + 5 = lo26 g0 + 2 ^ 26 * lo26 g1 + (2 ^ 26) ^ 2 * lo26 g2 + (2 ^ 26) ^ 3 * lo26 g3 + (2 ^ 26) ^ 4 * g4"
    using carry_chain [of lo26 "2 ^ 26" hi26 g0 h1 h2 h3 h4, OF lo_hi26, folded g1_def, folded g2_def, folded g3_def, folded g4_def] lo_hi26 [of g4]
    by (simp add: h g0_def)
  have low: "lo26 g0 + 2 ^ 26 * lo26 g1 + (2 ^ 26) ^ 2 * lo26 g2 + (2 ^ 26) ^ 3 * lo26 g3 < (2 ^ 26) ^ 4"
    using lo26_less [of g0] lo26_less [of g1] lo26_less [of g2] lo26_less [of g3] by simp
  show ?thesis
  proof (cases "g4 = 2 ^ 26")
    case True
    then have "w = 0" by (simp add: wg)
    then have sel: "poly_select h = Limbs (lo26 g0) (lo26 g1) (lo26 g2) (lo26 g3) 0"
      using lo26_less [of g0] lo26_less [of g1] lo26_less [of g2] lo26_less [of g3]
      by (simp add: run sel_def unat_of_nat)
    have "limbs_val h = limbs_val (poly_select h) + p1305" using val by (simp add: sel True p1305_def)
    moreover have "limbs_val (poly_select h) < p1305" using low by (simp add: sel p1305_def)
    ultimately show ?thesis using lo26_less [of g0] lo26_less [of g1] lo26_less [of g2] lo26_less [of g3] by (simp add: sel)
  next
    case False
    then have small: "g4 < 2 ^ 26" using g4 by simp
    have w: "w = of_nat (2 ^ 32 - 2 ^ 26 + g4)" by (simp add: wg)
    have "unat w = 2 ^ 32 - 2 ^ 26 + g4" unfolding w unat_of_nat using small by simp
    then have "unat (drop_bit 31 w) = 1" using small by (simp only: unat_drop_bit_eq) (simp add: drop_bit_eq_div)
    then have "drop_bit 31 w = 1" by (metis unat_1 unsigned_word_eqI)
    then have sel: "poly_select h = h" unfolding run using lim by (simp add: sel_def h unat_of_nat)
    have "limbs_val h + 5 < 2 ^ 130" using low small val by simp
    then show ?thesis using assms by (simp add: sel p1305_def)
  qed
qed

section \<open>Words and numbers\<close>

primrec le_nat :: "u8 list \<Rightarrow> nat" where
  "le_nat [] = 0"
| "le_nat (b # bs) = unat b + 256 * le_nat bs"

lemma bit_nat_below: "bit (x :: nat) i \<Longrightarrow> n \<le> i \<Longrightarrow> x < 2 ^ n \<Longrightarrow> False"
  by (metis bit_take_bit_iff not_less take_bit_nat_eq_self_iff)

lemma or_push_bit_add:
  assumes "x < 2 ^ n" shows "of_nat x OR push_bit n w = (of_nat x + push_bit n w :: 'a::len word)"
proof -
  have "of_nat x AND push_bit n w = (0 :: 'a word)"
    using assms by (intro bit_word_eqI) (auto simp: bit_simps dest: bit_nat_below)
  then show ?thesis by (simp add: disjunctive_add_eq_or)
qed

lemma le_nat_append: "le_nat (xs @ ys) = le_nat xs + 2 ^ (8 * length xs) * le_nat ys"
  by (induction xs) (simp_all add: power_add algebra_simps)

lemma le_nat_less: "le_nat bs < 2 ^ (8 * length bs)"
proof (induction bs)
  case (Cons b bs)
  have "unat b < 256" using unsigned_less [of b] by simp
  moreover have "le_nat bs + 1 \<le> 2 ^ (8 * length bs)" using Cons by simp
  ultimately show ?case by (simp add: power_add)
qed simp

lemma le_nat_zeros [simp]: "le_nat (replicate n 0) = 0"
  by (induction n) simp_all

lemma from_le_nat: "8 * length bs \<le> LENGTH('a) \<Longrightarrow> (from_le bs :: 'a::len word) = of_nat (le_nat bs)"
proof (induction bs)
  case (Cons b bs)
  have "ucast b OR push_bit 8 (from_le bs :: 'a word) = of_nat (unat b) + push_bit 8 (of_nat (le_nat bs))"
    using Cons or_push_bit_add [of "unat b" 8 "from_le bs :: 'a word"] unsigned_less [of b] by simp
  then show ?case by (simp add: push_bit_eq_mult)
qed simp

lemma unat_le32: "i + 4 \<le> length bs \<Longrightarrow> unat (le32_at bs i) = le_nat (take 4 (drop i bs))"
  using le_nat_less [of "take 4 (drop i bs)"] by (simp add: le32_at_def from_le_nat unat_of_nat)

lemma limb_mask: "unat (w AND 0x03ffffff :: u32) = unat w mod 2 ^ 26"
proof -
  have m: "(0x03ffffff :: u32) = mask 26" by (simp add: mask_eq_exp_minus_1)
  show ?thesis unfolding m take_bit_eq_mask [symmetric] unsigned_take_bit_eq by (rule take_bit_eq_mod)
qed

lemma unat_u32_less: "unat (w :: u32) < 2 ^ 32"
  by (rule order_less_le_trans [OF unsigned_less]) simp

lemma limb_join:
  fixes a b :: u32
  assumes "i + j = 32"
  shows "unat ((drop_bit i a OR push_bit j b) AND 0x03ffffff) = (unat a div 2 ^ i + 2 ^ j * unat b) mod 2 ^ 26"
proof -
  have "unat (drop_bit i a) = unat a div 2 ^ i" unfolding unat_drop_bit_eq by (rule drop_bit_eq_div)
  moreover have "of_nat (unat (drop_bit i a)) = drop_bit i a" by simp
  ultimately have d: "drop_bit i a = of_nat (unat a div 2 ^ i)" by (simp only:)
  have "unat a < 2 ^ j * 2 ^ i" using unat_u32_less [of a] assms by (simp add: add.commute flip: power_add)
  then have "unat a div 2 ^ i < 2 ^ j" by (rule less_mult_imp_div_less)
  then have eq: "drop_bit i a OR push_bit j b = of_nat (unat a div 2 ^ i + 2 ^ j * unat b)"
    unfolding d by (subst or_push_bit_add) (simp_all add: push_bit_eq_mult mult.commute)
  show ?thesis unfolding eq limb_mask unat_of_nat by (rule mod_mod_cancel) simp
qed

lemma split_limb: "a < 2 ^ j \<Longrightarrow> (a + 2 ^ j * t) mod (2 ^ j * 2 ^ k) = a + 2 ^ j * (t mod 2 ^ k)" for a t :: nat
  by (simp add: mod_mult2_eq)

text \<open>Cutting four 32-bit words into limbs keeps the number.\<close>

lemma words_to_limbs:
  fixes t0 t1 t2 t3 :: nat
  assumes "t0 < 2 ^ 32" "t1 < 2 ^ 32" "t2 < 2 ^ 32"
  shows "t0 mod 2 ^ 26 + 2 ^ 26 * ((t0 div 2 ^ 26 + 2 ^ 6 * t1) mod 2 ^ 26) + (2 ^ 26) ^ 2 * ((t1 div 2 ^ 20 + 2 ^ 12 * t2) mod 2 ^ 26)
      + (2 ^ 26) ^ 3 * ((t2 div 2 ^ 14 + 2 ^ 18 * t3) mod 2 ^ 26) + (2 ^ 26) ^ 4 * (t3 div 2 ^ 8)
    = t0 + 2 ^ 32 * t1 + 2 ^ 64 * t2 + 2 ^ 96 * t3"
proof -
  have a: "t0 div 2 ^ 26 < 2 ^ 6" "t1 div 2 ^ 20 < 2 ^ 12" "t2 div 2 ^ 14 < 2 ^ 18"
    using assms by (simp_all add: less_mult_imp_div_less)
  have m: "(t0 div 2 ^ 26 + 2 ^ 6 * t1) mod 2 ^ 26 = t0 div 2 ^ 26 + 2 ^ 6 * (t1 mod 2 ^ 20)"
      "(t1 div 2 ^ 20 + 2 ^ 12 * t2) mod 2 ^ 26 = t1 div 2 ^ 20 + 2 ^ 12 * (t2 mod 2 ^ 14)"
      "(t2 div 2 ^ 14 + 2 ^ 18 * t3) mod 2 ^ 26 = t2 div 2 ^ 14 + 2 ^ 18 * (t3 mod 2 ^ 8)"
    using split_limb [OF a(1), of t1 20] split_limb [OF a(2), of t2 14] split_limb [OF a(3), of t3 8] by simp_all
  have "y0 + 2 ^ 26 * (x0 + 2 ^ 6 * y1) + (2 ^ 26) ^ 2 * (x1 + 2 ^ 12 * y2) + (2 ^ 26) ^ 3 * (x2 + 2 ^ 18 * y3) + (2 ^ 26) ^ 4 * x3
      = (2 ^ 26 * x0 + y0) + 2 ^ 32 * (2 ^ 20 * x1 + y1) + 2 ^ 64 * (2 ^ 14 * x2 + y2) + 2 ^ 96 * (2 ^ 8 * x3 + y3)"
    for x0 x1 x2 x3 y0 y1 y2 y3 :: nat
    by (simp add: algebra_simps)
  from this [of "t0 mod 2 ^ 26" "t0 div 2 ^ 26" "t1 mod 2 ^ 20" "t1 div 2 ^ 20" "t2 mod 2 ^ 14" "t2 div 2 ^ 14" "t3 mod 2 ^ 8" "t3 div 2 ^ 8"]
  show ?thesis unfolding m by (simp only: mult_div_mod_eq)
qed

lemma le_nat_words:
  assumes "length bs = 16"
  shows "le_nat bs = le_nat (take 4 bs) + 2 ^ 32 * le_nat (take 4 (drop 4 bs)) + 2 ^ 64 * le_nat (take 4 (drop 8 bs)) + 2 ^ 96 * le_nat (take 4 (drop 12 bs))"
proof -
  have "bs = take 4 bs @ take 4 (drop 4 bs) @ take 4 (drop 8 bs) @ take 4 (drop 12 bs)"
    using assms append_take_drop_id [of 4 bs] append_take_drop_id [of 4 "drop 4 bs"] append_take_drop_id [of 4 "drop 8 bs"] by simp
  then have "le_nat bs = le_nat (take 4 bs @ take 4 (drop 4 bs) @ take 4 (drop 8 bs) @ take 4 (drop 12 bs))" by (rule arg_cong)
  then show ?thesis using assms by (simp only: le_nat_append) simp
qed

text \<open>The number a block stands for: the bytes with a one bit above them. For a full block the code adds that bit
  twice, so that it counts \<open>2\<^sup>129\<close> instead of \<open>2\<^sup>128\<close>.\<close>

definition block_num :: "u8 list \<Rightarrow> nat" where
  "block_num bs = le_nat bs + (if length bs = 16 then 2 ^ 129 else 2 ^ (8 * length bs))"

definition block_words :: "u8 list \<Rightarrow> nat" where
  "block_words bs = le_nat (take 16 (poly_block bs))"

lemma block_words_eq: "length bs \<le> 16 \<Longrightarrow> block_words bs = le_nat bs + (if length bs = 16 then 0 else 2 ^ (8 * length bs))"
  by (cases "length bs = 16")
    (auto simp: block_words_def poly_block_def le_nat_append take_Cons' min_def)

lemma length_poly_block: "length bs \<le> 16 \<Longrightarrow> length (poly_block bs) = 17"
  by (simp add: poly_block_def)

lemma unat_drop8: "unat (drop_bit 8 t) = unat (t :: u32) div 2 ^ 8"
  unfolding unat_drop_bit_eq by (rule drop_bit_eq_div)

lemma drop8_less: "unat (t :: u32) div 2 ^ 8 < 2 ^ 24"
  using unat_u32_less [of t] by (simp add: less_mult_imp_div_less)

lemma hibit: "drop_bit 8 t OR 16777216 = (drop_bit 8 t + 16777216 :: u32)"
proof -
  have w: "of_nat (unat (drop_bit 8 t)) = drop_bit 8 t" by simp
  show ?thesis using or_push_bit_add [OF drop8_less [of t], where w = "1 :: u32"] unfolding unat_drop8 [symmetric] w by simp
qed

lemma top_limb_val:
  assumes "length bs \<le> 16"
  shows "unat (top_limb (poly_block bs) (length bs)) = unat (le32_at (poly_block bs) 12) div 2 ^ 8 + (if length bs = 16 then 2 ^ 24 else 0)"
proof (cases "length bs = 16")
  case True
  define t where "t = le32_at (poly_block bs) 12"
  have "unat (drop_bit 8 t + 16777216) = unat (drop_bit 8 t) + unat (16777216 :: u32)"
    using drop8_less [of t] by (intro unat_add_lem [THEN iffD1]) (simp add: unat_drop8)
  then show ?thesis using True by (simp add: top_limb_def hibit unat_drop8 t_def)
next
  case False
  then have "poly_block bs ! 16 = 0" using assms by (simp add: poly_block_def nth_append)
  then show ?thesis using False by (simp add: top_limb_def unat_drop8)
qed

lemma add_top_val: "n < 2 ^ 31 \<Longrightarrow> add_top block len n = n + (if len = 16 then 2 ^ 24 else 0)"
proof -
  assume n: "n < 2 ^ 31"
  have eq: "of_nat n + 16777216 = (of_nat (n + 2 ^ 24) :: u32)" by simp
  have "unat (of_nat n + 16777216 :: u32) = n + 16777216" unfolding eq unat_of_nat using n by simp
  then show ?thesis by (simp add: add_top_def hibit)
qed

text \<open>One block: the accumulator becomes \<open>(h + m) \<sqdot> r\<close> modulo p.\<close>

lemma poly_step_ok:
  assumes "limbs_below (2 ^ 26) r" and "limbs_ok h" and len: "length bs \<le> 16"
  shows "\<exists>h' k. poly_step r bs h = Ok h' \<and> limbs_ok h' \<and> (limbs_val h + block_num bs) * limbs_val r = limbs_val h' + p1305 * k"
proof -
  obtain h0 h1 h2 h3 h4 where h: "h = Limbs h0 h1 h2 h3 h4" by (cases h)
  define block where "block = poly_block bs"
  define t where "t i = unat (le32_at block (4 * i))" for i
  define hb where "hb = (if length bs = 16 then 2 ^ 24 else 0 :: nat)"
  define m0 where "m0 = t 0 mod 2 ^ 26"
  define m1 where "m1 = (t 0 div 2 ^ 26 + 2 ^ 6 * t 1) mod 2 ^ 26"
  define m2 where "m2 = (t 1 div 2 ^ 20 + 2 ^ 12 * t 2) mod 2 ^ 26"
  define m3 where "m3 = (t 2 div 2 ^ 14 + 2 ^ 18 * t 3) mod 2 ^ 26"
  define m4 where "m4 = t 3 div 2 ^ 8"
  have t: "t i < 2 ^ 32" for i by (simp only: t_def unat_u32_less)
  have m: "m0 < 2 ^ 26" "m1 < 2 ^ 26" "m2 < 2 ^ 26" "m3 < 2 ^ 26" "m4 < 2 ^ 24" "hb \<le> 2 ^ 24"
    unfolding m0_def m1_def m2_def m3_def m4_def hb_def using t [of 3] by (simp_all add: less_mult_imp_div_less)
  have bl: "block_limbs block = (m0, m1, m2, m3)"
    unfolding block_limbs_def Let_def limb_join [of 26 6, simplified] limb_join [of 20 12, simplified] limb_join [of 14 18, simplified]
    unfolding limb_mask by (simp add: m0_def m1_def m2_def m3_def t_def)
  have top: "unat (top_limb block (length bs)) = m4 + hb"
    unfolding block_def top_limb_val [OF len] by (simp add: m4_def hb_def t_def block_def)
  have lim: "h0 < 2 ^ 26" "h1 < 2 ^ 26 + 64" "h2 < 2 ^ 26" "h3 < 2 ^ 26" "h4 < 2 ^ 26" using assms(2) by (simp_all add: h)
  have add: "add_top block (length bs) (h4 + (m4 + hb)) = h4 + m4 + 2 * hb"
    using m lim by (subst add_top_val) (simp_all add: hb_def)
  let ?h = "Limbs (h0 + m0) (h1 + m1) (h2 + m2) (h3 + m3) (h4 + m4 + 2 * hb)"
  have run: "poly_step r bs h = poly_mul r ?h"
    unfolding h poly_step.simps Let_def block_def [symmetric] bl prod.case top add
    using m lim by (simp add: u32_ok_def)
  have "m0 + 2 ^ 26 * m1 + (2 ^ 26) ^ 2 * m2 + (2 ^ 26) ^ 3 * m3 + (2 ^ 26) ^ 4 * m4 = t 0 + 2 ^ 32 * t 1 + 2 ^ 64 * t 2 + 2 ^ 96 * t 3"
    unfolding m0_def m1_def m2_def m3_def m4_def by (rule words_to_limbs [OF t t t])
  also have "\<dots> = block_words bs"
    using le_nat_words [of "take 16 block"] length_poly_block [OF len]
    by (simp add: t_def unat_le32 block_words_def block_def drop_take)
  finally have "limbs_val ?h = limbs_val h + (block_words bs + (2 ^ 26) ^ 4 * (2 * hb))"
    unfolding h limbs_val.simps by (simp add: algebra_simps)
  also have "\<dots> = limbs_val h + block_num bs" using block_words_eq [OF len] by (simp add: block_num_def hb_def)
  finally have val: "limbs_val ?h = limbs_val h + block_num bs" .
  have "limbs_below (2 ^ 27 + 64) ?h" using m lim by simp
  from poly_mul_ok [OF assms(1) this] show ?thesis by (simp only: run val)
qed

text \<open>The polynomial the loop evaluates.\<close>

function poly_spec :: "nat \<Rightarrow> u8 list \<Rightarrow> nat \<Rightarrow> nat" where
  "poly_spec r data acc =
     (if data = [] then acc else poly_spec r (drop 16 data) ((acc + block_num (take 16 data)) * r mod p1305))"
  by pat_completeness auto
termination
  by (relation "measure (\<lambda>(r, data, acc). length data)") auto

declare poly_spec.simps [simp del]

lemma poly_loop_ok:
  assumes "limbs_below (2 ^ 26) r" and "limbs_ok h" and "limbs_val h mod p1305 = acc"
  shows "\<exists>h'. poly_loop r data h = Ok h' \<and> limbs_ok h' \<and> limbs_val h' mod p1305 = poly_spec (limbs_val r) data acc"
  using assms(2,3)
proof (induction "length data" arbitrary: data h acc rule: less_induct)
  case less
  show ?case
  proof (cases "data = []")
    case True
    then show ?thesis using less.prems by (simp add: poly_loop.simps poly_spec.simps)
  next
    case False
    obtain h1 k where s: "poly_step r (take 16 data) h = Ok h1" "limbs_ok h1"
      and v: "(limbs_val h + block_num (take 16 data)) * limbs_val r = limbs_val h1 + p1305 * k"
      using poly_step_ok [OF assms(1) less.prems(1), of "take 16 data"] by auto
    have "limbs_val h1 mod p1305 = (limbs_val h + block_num (take 16 data)) * limbs_val r mod p1305" by (simp add: v)
    also have "\<dots> = (acc + block_num (take 16 data)) * limbs_val r mod p1305"
      unfolding less.prems(2) [symmetric] by (metis mod_add_left_eq mod_mult_left_eq)
    finally obtain h' where "poly_loop r (drop 16 data) h1 = Ok h'" "limbs_ok h'"
        "limbs_val h' mod p1305 = poly_spec (limbs_val r) (drop 16 data) ((acc + block_num (take 16 data)) * limbs_val r mod p1305)"
      using less.hyps [of "drop 16 data" h1] s(2) False by auto
    then show ?thesis using False s by (simp add: poly_loop.simps [of r data] poly_spec.simps [of _ data])
  qed
qed

lemma unat_and_less: "unat (m :: u32) < n \<Longrightarrow> unat (w AND m) < n"
  by (meson le_less_trans word_and_le1 word_le_nat_alt)

lemma poly_r_below: "limbs_below (2 ^ 26) (poly_r key)"
  by (simp add: poly_r_def unat_and_less)

lemma ucast_from_le: "8 * length bs \<le> 32 \<Longrightarrow> ucast (from_le bs :: u32) = (from_le bs :: 128 word)"
  by (rule bit_word_eqI) (auto simp: bit_ucast_iff bit_from_le)

lemma from_le_append: "from_le (xs @ ys) = from_le xs OR push_bit (8 * length xs) (from_le ys)"
  by (induction xs) (simp_all add: or.assoc add.commute)

lemma le_words_128:
  assumes "length a = 4" "length b = 4" "length c = 4"
  shows "(from_le a OR push_bit 32 (from_le b) OR push_bit 64 (from_le c) OR push_bit 96 (from_le d) :: 128 word) = from_le (a @ b @ c @ d)"
  using assms by (simp add: from_le_append)

lemma h_full_val:
  assumes "h0 < 2 ^ 26" "h1 < 2 ^ 26" "h2 < 2 ^ 26" "h3 < 2 ^ 26"
  shows "(of_nat h0 OR push_bit 26 (of_nat h1) OR push_bit 52 (of_nat h2) OR push_bit 78 (of_nat h3) OR push_bit 104 (of_nat h4) :: 128 word)
    = of_nat (limbs_val (Limbs h0 h1 h2 h3 h4))"
proof -
  have "(of_nat h0 OR push_bit 26 (of_nat h1) OR push_bit 52 (of_nat h2) OR push_bit 78 (of_nat h3) OR push_bit 104 (of_nat h4) :: 128 word)
      = of_nat h0 OR push_bit 26 (of_nat h1 OR push_bit 26 (of_nat h2 OR push_bit 26 (of_nat h3 OR push_bit 26 (of_nat h4))))"
    by (simp only: push_bit_or push_bit_push_bit) simp
  also have "\<dots> = of_nat h0 + push_bit 26 (of_nat h1 + push_bit 26 (of_nat h2 + push_bit 26 (of_nat h3 + push_bit 26 (of_nat h4))))"
    using assms by (simp only: or_push_bit_add)
  also have "\<dots> = of_nat (limbs_val (Limbs h0 h1 h2 h3 h4))"
    by (simp add: push_bit_eq_mult algebra_simps)
  finally show ?thesis .
qed

lemma poly_tag_val:
  assumes "length key = 32" and "limbs_below (2 ^ 26) h"
  shows "poly_tag key h = to_le 16 (of_nat (limbs_val h + le_nat (drop 16 key)) :: 128 word)"
proof -
  obtain h0 h1 h2 h3 h4 where h: "h = Limbs h0 h1 h2 h3 h4" by (cases h)
  have lim: "h0 < 2 ^ 26" "h1 < 2 ^ 26" "h2 < 2 ^ 26" "h3 < 2 ^ 26" using assms(2) by (simp_all add: h)
  have key: "take 4 (drop 16 key) @ take 4 (drop 20 key) @ take 4 (drop 24 key) @ take 4 (drop 28 key) = drop 16 key"
    using assms(1) append_take_drop_id [of 4 "drop 16 key"] append_take_drop_id [of 4 "drop 20 key"] append_take_drop_id [of 4 "drop 24 key"] by simp
  have u: "ucast (le32_at key i) = (from_le (take 4 (drop i key)) :: 128 word)" for i
    by (simp add: le32_at_def ucast_from_le)
  have s: "(ucast (le32_at key 16) OR push_bit 32 (ucast (le32_at key 20)) OR push_bit 64 (ucast (le32_at key 24))
            OR push_bit 96 (ucast (le32_at key 28)) :: 128 word) = of_nat (le_nat (drop 16 key))"
    unfolding u using le_words_128 [of "take 4 (drop 16 key)" "take 4 (drop 20 key)" "take 4 (drop 24 key)" "take 4 (drop 28 key)"]
    using assms(1) unfolding key by (simp only: from_le_nat length_drop length_take) (simp add: from_le_nat)
  show ?thesis unfolding h poly_tag.simps Let_def s h_full_val [OF lim] by simp
qed

lemma poly1305_mac_ok:
  assumes "length key = 32"
  shows "poly1305_mac key data = Ok (to_le 16 (of_nat (poly_spec (limbs_val (poly_r key)) data 0 + le_nat (drop 16 key)) :: 128 word))"
proof -
  obtain h where h: "poly_loop (poly_r key) data (Limbs 0 0 0 0 0) = Ok h" "limbs_ok h"
      "limbs_val h mod p1305 = poly_spec (limbs_val (poly_r key)) data 0"
    using poly_loop_ok [OF poly_r_below, of "Limbs 0 0 0 0 0"] by fastforce
  obtain h' k where c: "poly_carry h = Ok h'" "limbs_below (2 ^ 26) h'" "limbs_val h = limbs_val h' + p1305 * k"
    using poly_carry_ok [OF h(2)] by blast
  have "limbs_val (poly_select h') = poly_spec (limbs_val (poly_r key)) data 0"
    using poly_select_val [OF c(2)] h(3) c(3) by simp
  then show ?thesis
    using poly_tag_val [OF assms, of "poly_select h'"] poly_select_val [OF c(2)] by (simp add: poly1305_mac_def h(1) c(1))
qed

lemma to_le_0: "to_le n 0 = replicate n 0"
  by (induction n) simp_all

lemma poly1305_mac_returns:
  assumes "length key = 32" obtains tag where "poly1305_mac key data = Ok tag" and "length tag = 16"
  using poly1305_mac_ok [OF assms] by simp

text \<open>C33. Poly1305 as written: for every key of 32 bytes and every message the authenticator returns (no limb or
  accumulator overflows), and the tag is the value of the message polynomial at r modulo \<open>2\<^sup>130 - 5\<close>, plus s
  modulo \<open>2\<^sup>128\<close>, where a full block counts its bytes plus \<open>2\<^sup>129\<close>: the high bit, \<open>2\<^sup>128\<close> in RFC 8439, is added twice.\<close>

theorem poly1305_mac_value:
  assumes "length key = 32"
  shows "poly1305_mac key data = Ok (to_le 16 (of_nat (poly_spec (limbs_val (poly_r key)) data 0 + le_nat (drop 16 key)) :: 128 word))"
  by (rule poly1305_mac_ok [OF assms])

theorem poly1305_mac_value_witness:
  "poly1305_mac ([4, 0, 0, 0, 0, 0, 0, 0, 0, 0, 0, 0, 0, 0, 0, 0] @ replicate 16 0) (replicate 16 0)
     = Ok (10 # replicate 15 0)"
proof -
  let ?key = "[4, 0, 0, 0, 0, 0, 0, 0, 0, 0, 0, 0, 0, 0, 0, 0] @ replicate 16 0 :: u8 list"
  have "limbs_val (poly_r ?key) = 4" by (simp add: poly_r_def le32_at_def)
  moreover have "poly_spec 4 (replicate 16 0) 0 = 10"
    by (simp add: poly_spec.simps block_num_def p1305_def)
  moreover have "to_le (Suc 15) (10 :: 128 word) = 10 # replicate 15 0" unfolding to_le.simps by (simp add: to_le_0)
  ultimately show ?thesis using poly1305_mac_value [of ?key "replicate 16 0"] by simp
qed

text \<open>C32. Authenticated encryption: sealing never panics, the ciphertext has the length of the plaintext, opening
  the result gives the plaintext back, and opening it with any other tag is refused.\<close>

theorem aead_round_trip:
  "\<exists>ct tag. chacha20_poly1305_seal key nonce aad plaintext = Ok (ct, tag) \<and> length ct = length plaintext \<and> length tag = 16
     \<and> chacha20_poly1305_open key nonce aad ct tag = Ok (Some plaintext)
     \<and> (\<forall>tag'. length tag' = 16 \<and> tag' \<noteq> tag \<longrightarrow> chacha20_poly1305_open key nonce aad ct tag' = Ok None)"
proof -
  let ?key = "take 32 (chacha20_block key 0 nonce)" and ?ct = "chacha20_crypt key 1 nonce plaintext"
  have "length ?key = 32" by simp
  then obtain tag where "poly1305_mac ?key (construct_poly1305_data aad ?ct) = Ok tag" "length tag = 16"
    by (rule poly1305_mac_returns)
  moreover have "chacha20_crypt key 1 nonce ?ct = plaintext" "length ?ct = length plaintext"
    by (simp_all add: chacha20_crypt_def crypt_loop_twice)
  ultimately show ?thesis
    by (auto simp: chacha20_poly1305_seal_def chacha20_poly1305_open_def Let_def tag_diff_zero)
qed

theorem aead_round_trip_witness:
  "\<exists>ct tag. chacha20_poly1305_seal (replicate 32 1) (replicate 12 0) [] [7, 8] = Ok (ct, tag) \<and> length tag = 16
     \<and> chacha20_poly1305_open (replicate 32 1) (replicate 12 0) [] ct tag = Ok (Some [7, 8])
     \<and> (\<forall>tag'. length tag' = 16 \<and> tag' \<noteq> tag \<longrightarrow> chacha20_poly1305_open (replicate 32 1) (replicate 12 0) [] ct tag' = Ok None)"
  using aead_round_trip [of "replicate 32 1" "replicate 12 0" "[]" "[7, 8]"] by blast

end
