(* ===== verification/Buddy.thy ===== *)
theory Buddy
  imports Steps
begin

unbundle bit_operations_syntax

text \<open>
  The buddy allocator (kernel/src/memory/buddy.rs). The free blocks of each order form a linked list
  through the metadata array: \<open>free_lists\<close> holds the slot of the first block, and each slot the address
  of a block and the slot of the next. A walk along a list is a loop that may not end on a damaged
  array, so it is a partial function whose value is \<open>None\<close> when it does not return.

  Addresses and sizes are \<open>usize\<close>; additions that leave the type, and subtractions below zero, panic.
  The counters of the static \<open>BUDDY_STATS\<close> are fields of the same state and wrap around.
\<close>

section \<open>State\<close>

definition MAX_ORDER :: usize where "MAX_ORDER = 10"

definition MIN_BLOCK_SIZE :: usize where "MIN_BLOCK_SIZE = 4096"

record free_block =
  fb_addr :: usize
  fb_next :: "usize option"

record buddy_allocator =
  bu_free_lists :: "usize option list"
  bu_blocks :: "free_block option list"
  bu_next_slot :: usize
  bu_base :: usize
  bu_size :: usize
  bu_bitmap :: "u64 list"

record buddy = buddy_allocator +
  bs_allocations :: u64
  bs_deallocations :: u64
  bs_failures :: u64
  bs_merges :: u64
  bs_splits :: u64

definition buddy_new :: buddy where
  "buddy_new = \<lparr>bu_free_lists = replicate (MAX_ORDER + 1) None, bu_blocks = replicate 4096 None, bu_next_slot = 0,
     bu_base = 0, bu_size = 0, bu_bitmap = replicate 64 0,
     bs_allocations = 0, bs_deallocations = 0, bs_failures = 0, bs_merges = 0, bs_splits = 0\<rparr>"

section \<open>Orders and lists\<close>

text \<open>The loop of \<open>size_to_order\<close>: after \<open>order\<close> rounds the block size is \<open>MIN_BLOCK_SIZE\<close> doubled that often.\<close>

function order_loop :: "usize \<Rightarrow> usize \<Rightarrow> (unit, usize) result" where
  "order_loop order sz =
     (if MIN_BLOCK_SIZE * 2 ^ order < sz
      then if MIN_BLOCK_SIZE * 2 ^ order * 2 < usize_limit then order_loop (order + 1) sz else Panic
      else Ok order)"
  by pat_completeness auto
termination
  by (relation "measure (\<lambda>(order, sz). sz - MIN_BLOCK_SIZE * 2 ^ order)") (auto simp: MIN_BLOCK_SIZE_def intro!: diff_less_mono2)

declare order_loop.simps [simp del]

definition size_to_order :: "usize \<Rightarrow> (unit, usize) result" where
  "size_to_order sz = order_loop 0 sz"

definition order_to_size :: "usize \<Rightarrow> usize" where
  "order_to_size order = MIN_BLOCK_SIZE * 2 ^ order mod usize_limit"

definition find_free_block :: "usize \<Rightarrow> buddy \<Rightarrow> usize option" where
  "find_free_block min_order s = find (\<lambda>order. bu_free_lists s ! order \<noteq> None) [min_order ..< MAX_ORDER + 1]"

definition add_to_free_list :: "usize \<Rightarrow> usize \<Rightarrow> (buddy, unit, unit) st" where
  "add_to_free_list order addr s =
     (if bu_next_slot s \<ge> length (bu_blocks s) then (Ok (), s)
      else let slot = bu_next_slot s; s = s\<lparr>bu_next_slot := slot + 1\<rparr> in
        if order < length (bu_free_lists s)
        then (Ok (), s\<lparr>bu_blocks := (bu_blocks s)[slot := Some \<lparr>fb_addr = addr, fb_next = bu_free_lists s ! order\<rparr>],
                       bu_free_lists := (bu_free_lists s)[order := Some slot]\<rparr>)
        else (Panic, s))"

definition remove_from_free_list :: "usize \<Rightarrow> (buddy, unit, usize option) st" where
  "remove_from_free_list order s =
     (if order < length (bu_free_lists s) then
        (case bu_free_lists s ! order of
           None \<Rightarrow> (Ok None, s)
         | Some slot \<Rightarrow>
             if slot < length (bu_blocks s) then
               (case bu_blocks s ! slot of
                  None \<Rightarrow> (Ok None, s)
                | Some block \<Rightarrow>
                    (Ok (Some (fb_addr block)),
                     s\<lparr>bu_free_lists := (bu_free_lists s)[order := fb_next block], bu_blocks := (bu_blocks s)[slot := None]\<rparr>))
             else (Panic, s))
      else (Panic, s))"

text \<open>The walk that looks for an address.\<close>

partial_function (option) free_walk :: "free_block option list \<Rightarrow> usize \<Rightarrow> usize option \<Rightarrow> (unit, bool) result option" where
  "free_walk bl addr cur =
     (case cur of
        None \<Rightarrow> Some (Ok False)
      | Some slot \<Rightarrow>
          if slot < length bl then
            (case bl ! slot of
               None \<Rightarrow> Some (Ok False)
             | Some block \<Rightarrow> if fb_addr block = addr then Some (Ok True) else free_walk bl addr (fb_next block))
          else Some Panic)"

definition is_free_at_order :: "usize \<Rightarrow> usize \<Rightarrow> buddy \<Rightarrow> (unit, bool) result option" where
  "is_free_at_order addr order s =
     (if order < length (bu_free_lists s) then free_walk (bu_blocks s) addr (bu_free_lists s ! order) else Some Panic)"

text \<open>The walk that also remembers the slot before, and what the code does where it finds the address.\<close>

definition unlink :: "usize \<Rightarrow> usize option \<Rightarrow> usize \<Rightarrow> usize option \<Rightarrow> buddy \<Rightarrow> buddy" where
  "unlink order prev slot next s =
     (let s = (case prev of
                 None \<Rightarrow> s\<lparr>bu_free_lists := (bu_free_lists s)[order := next]\<rparr>
               | Some p \<Rightarrow>
                   (case bu_blocks s ! p of
                      None \<Rightarrow> s
                    | Some prev_block \<Rightarrow> s\<lparr>bu_blocks := (bu_blocks s)[p := Some (prev_block\<lparr>fb_next := next\<rparr>)]\<rparr>))
      in s\<lparr>bu_blocks := (bu_blocks s)[slot := None]\<rparr>)"

partial_function (option) remove_walk :: "usize \<Rightarrow> usize \<Rightarrow> usize option \<Rightarrow> usize option \<Rightarrow> buddy \<Rightarrow> ((unit, bool) result \<times> buddy) option" where
  "remove_walk order addr prev cur s =
     (case cur of
        None \<Rightarrow> Some (Ok False, s)
      | Some slot \<Rightarrow>
          if slot < length (bu_blocks s) then
            (case bu_blocks s ! slot of
               None \<Rightarrow> Some (Ok False, s)
             | Some block \<Rightarrow>
                 if fb_addr block = addr then Some (Ok True, unlink order prev slot (fb_next block) s)
                 else remove_walk order addr (Some slot) (fb_next block) s)
          else Some (Panic, s))"

definition remove_specific_from_free_list :: "usize \<Rightarrow> usize \<Rightarrow> buddy \<Rightarrow> ((unit, bool) result \<times> buddy) option" where
  "remove_specific_from_free_list order addr s =
     (if order < length (bu_free_lists s) then remove_walk order addr None (bu_free_lists s ! order) s else Some (Panic, s))"

definition set_allocated :: "usize \<Rightarrow> bool \<Rightarrow> (buddy, unit, unit) st" where
  "set_allocated addr allocated s =
     (if addr < bu_base s then (Panic, s)
      else let relative = (addr - bu_base s) div MIN_BLOCK_SIZE; word = relative div 64; b = push_bit (relative mod 64) 1 in
        if word < length (bu_bitmap s)
        then (Ok (), s\<lparr>bu_bitmap := (bu_bitmap s)[word := (if allocated then bu_bitmap s ! word OR b else bu_bitmap s ! word AND NOT b)]\<rparr>)
        else (Ok (), s))"

section \<open>Allocation\<close>

definition init :: "usize \<Rightarrow> usize \<Rightarrow> (buddy, unit, unit) st" where
  "init base sz =
     seq (modify (\<lambda>s. s\<lparr>bu_base := base, bu_size := sz\<rparr>))
       (bind (lift (size_to_order sz)) (\<lambda>order. add_to_free_list (min order MAX_ORDER) base))"

text \<open>\<open>while current_order > order\<close>, from \<open>current_order\<close> downwards.\<close>

primrec split_loop :: "usize \<Rightarrow> usize \<Rightarrow> usize \<Rightarrow> (buddy, unit, unit) st" where
  "split_loop addr order 0 = ret ()"
| "split_loop addr order (Suc current_order) =
     (if Suc current_order > order then
        if addr + order_to_size current_order < usize_limit then
          seq (add_to_free_list current_order (addr + order_to_size current_order))
            (seq (modify (\<lambda>s. s\<lparr>bs_splits := bs_splits s + 1\<rparr>)) (split_loop addr order current_order))
        else panic
      else ret ())"

definition allocate :: "usize \<Rightarrow> (buddy, unit, usize option) st" where
  "allocate sz =
     bind (lift (size_to_order (max sz MIN_BLOCK_SIZE))) (\<lambda>order.
     if order > MAX_ORDER then seq (modify (\<lambda>s. s\<lparr>bs_failures := bs_failures s + 1\<rparr>)) (ret None)
     else bind (gets (find_free_block order)) (\<lambda>found.
       case found of None \<Rightarrow> ret None
       | Some block_order \<Rightarrow> bind (remove_from_free_list block_order) (\<lambda>removed.
           case removed of None \<Rightarrow> ret None
           | Some addr \<Rightarrow>
               seq (split_loop addr order block_order) (seq (set_allocated addr True)
                 (seq (modify (\<lambda>s. s\<lparr>bs_allocations := bs_allocations s + 1\<rparr>)) (ret (Some addr)))))))"

section \<open>Deallocation\<close>

definition buddy_address :: "usize \<Rightarrow> usize \<Rightarrow> buddy \<Rightarrow> (unit, usize) result" where
  "buddy_address addr order s =
     (if addr < bu_base s then Panic
      else let buddy_relative = (addr - bu_base s) XOR order_to_size order in
        if bu_base s + buddy_relative < usize_limit then Ok (bu_base s + buddy_relative) else Panic)"

function merge_loop :: "usize \<Rightarrow> usize \<Rightarrow> buddy \<Rightarrow> ((unit, usize \<times> usize) result \<times> buddy) option" where
  "merge_loop order addr s =
     (if order < MAX_ORDER then
        (case buddy_address addr order s of
           Ok buddy_addr \<Rightarrow>
             (case is_free_at_order buddy_addr order s of
                None \<Rightarrow> None
              | Some (Ok True) \<Rightarrow>
                  (case remove_specific_from_free_list order buddy_addr s of
                     None \<Rightarrow> None
                   | Some (Ok True, s) \<Rightarrow> merge_loop (order + 1) (min addr buddy_addr) (s\<lparr>bs_merges := bs_merges s + 1\<rparr>)
                   | Some (Ok False, s) \<Rightarrow> Some (Ok (order, addr), s)
                   | Some (_, s) \<Rightarrow> Some (Panic, s))
              | Some (Ok False) \<Rightarrow> Some (Ok (order, addr), s)
              | Some _ \<Rightarrow> Some (Panic, s))
         | _ \<Rightarrow> Some (Panic, s))
      else Some (Ok (order, addr), s))"
  by pat_completeness auto
termination
  by (relation "measure (\<lambda>(order, addr, s). MAX_ORDER - order)") auto

declare merge_loop.simps [simp del]

definition deallocate :: "usize \<Rightarrow> usize \<Rightarrow> buddy \<Rightarrow> ((unit, unit) result \<times> buddy) option" where
  "deallocate addr sz s =
     (case size_to_order (max sz MIN_BLOCK_SIZE) of
        Ok order \<Rightarrow>
          (case set_allocated addr False s of
             (Ok _, s) \<Rightarrow>
               (case merge_loop order addr s of
                  None \<Rightarrow> None
                | Some (Ok (order, addr), s) \<Rightarrow>
                    Some (seq (add_to_free_list order addr) (modify (\<lambda>s. s\<lparr>bs_deallocations := bs_deallocations s + 1\<rparr>)) s)
                | Some (_, s) \<Rightarrow> Some (Panic, s))
           | (_, s) \<Rightarrow> Some (Panic, s))
      | _ \<Rightarrow> Some (Panic, s))"

section \<open>Statistics\<close>

partial_function (option) count_walk :: "free_block option list \<Rightarrow> usize option \<Rightarrow> usize \<Rightarrow> (unit, usize) result option" where
  "count_walk bl cur n =
     (case cur of
        None \<Rightarrow> Some (Ok n)
      | Some slot \<Rightarrow>
          if slot < length bl then
            (case bl ! slot of None \<Rightarrow> Some (Ok n) | Some block \<Rightarrow> count_walk bl (fb_next block) (n + 1))
          else Some Panic)"

record buddy_allocator_stats =
  ba_free_blocks :: "usize list"
  ba_total_size :: usize
  ba_free_size :: usize

fun count_lists :: "buddy \<Rightarrow> usize list \<Rightarrow> (unit, usize list) result option" where
  "count_lists s [] = Some (Ok [])"
| "count_lists s (order # orders) =
     (case count_walk (bu_blocks s) (bu_free_lists s ! order) 0 of
        None \<Rightarrow> None
      | Some (Ok n) \<Rightarrow> map_option (\<lambda>r. and_then r (\<lambda>ns. Ok (n # ns))) (count_lists s orders)
      | Some _ \<Rightarrow> Some Panic)"

definition buddy_stats :: "buddy \<Rightarrow> (unit, buddy_allocator_stats) result option" where
  "buddy_stats s =
     map_option (\<lambda>r. and_then r (\<lambda>free_blocks.
       let total_free = sum_list (map2 (\<lambda>n order. n * order_to_size order) free_blocks [0 ..< MAX_ORDER + 1]) in
       if total_free < usize_limit
       then Ok \<lparr>ba_free_blocks = free_blocks, ba_total_size = bu_size s, ba_free_size = total_free\<rparr> else Panic))
     (count_lists s [0 ..< MAX_ORDER + 1])"

section \<open>Sizes and orders\<close>

abbreviation blk :: "nat \<Rightarrow> nat" where "blk k \<equiv> 4096 * 2 ^ k"

lemma order_to_size_blk: "k \<le> 10 \<Longrightarrow> order_to_size k = blk k"
  using power_increasing [of k 10 "2 :: nat"] by (simp add: order_to_size_def MIN_BLOCK_SIZE_def usize_limit_def)

lemma order_loop_ok:
  "sz \<le> blk 51 \<Longrightarrow> k \<le> 51 \<Longrightarrow> \<exists>j. order_loop k sz = Ok j \<and> k \<le> j \<and> sz \<le> blk j"
proof (induction k sz rule: order_loop.induct)
  case (1 k sz)
  show ?case
  proof (cases "blk k < sz")
    case True
    then have "k < 51" using 1(2,3) by (cases "k = 51") auto
    then have "blk k * 2 < usize_limit"
      using power_strict_increasing [of "k + 13" 64 "2 :: nat"] by (simp add: usize_limit_def power_add)
    then obtain j where "order_loop (k + 1) sz = Ok j" "k + 1 \<le> j" "sz \<le> blk j"
      using 1 True \<open>k < 51\<close> by (auto simp: MIN_BLOCK_SIZE_def)
    then show ?thesis using True \<open>blk k * 2 < usize_limit\<close>
      by (subst order_loop.simps) (simp add: MIN_BLOCK_SIZE_def)
  qed (simp add: order_loop.simps MIN_BLOCK_SIZE_def)
qed

lemma order_loop_cases: "order_loop k sz = Panic \<or> (\<exists>j. order_loop k sz = Ok j \<and> sz \<le> blk j)"
proof (induction k sz rule: order_loop.induct)
  case (1 k sz)
  then show ?case by (subst (1 2) order_loop.simps) (auto simp: MIN_BLOCK_SIZE_def)
qed

definition order_of :: "usize \<Rightarrow> usize" where
  "order_of sz = (case size_to_order (max sz MIN_BLOCK_SIZE) of Ok k \<Rightarrow> k | _ \<Rightarrow> MAX_ORDER + 1)"

lemma size_to_order_cases:
  obtains (order) k where "size_to_order (max sz MIN_BLOCK_SIZE) = Ok k" "order_of sz = k" "sz \<le> blk k"
  | (large) "size_to_order (max sz MIN_BLOCK_SIZE) = Panic" "2 ^ 63 < sz" "MAX_ORDER < order_of sz"
proof (cases "size_to_order (max sz MIN_BLOCK_SIZE)")
  case (Ok k)
  then show ?thesis using order_loop_cases [of 0 "max sz MIN_BLOCK_SIZE"] order
    by (auto simp: size_to_order_def order_of_def)
next
  case (Err e)
  then show ?thesis using order_loop_cases [of 0 "max sz MIN_BLOCK_SIZE"] by (auto simp: size_to_order_def)
next
  case Panic
  then have "\<not> max sz MIN_BLOCK_SIZE \<le> blk 51"
    using order_loop_ok [of "max sz MIN_BLOCK_SIZE" 0] by (auto simp: size_to_order_def)
  then show ?thesis using Panic by (intro large) (auto simp: order_of_def MIN_BLOCK_SIZE_def max_def split: if_splits)
qed

section \<open>Lists of free blocks\<close>

fun chain :: "free_block option list \<Rightarrow> usize option \<Rightarrow> (usize \<times> usize) list \<Rightarrow> bool" where
  "chain bl None xs \<longleftrightarrow> xs = []"
| "chain bl (Some slot) [] \<longleftrightarrow> False"
| "chain bl (Some slot) ((sl, a) # xs) \<longleftrightarrow>
     slot = sl \<and> slot < length bl \<and> (\<exists>nx. bl ! slot = Some \<lparr>fb_addr = a, fb_next = nx\<rparr> \<and> chain bl nx xs)"

lemma chain_Nil [simp]: "chain bl cur [] \<longleftrightarrow> cur = None"
  by (cases cur) auto

lemma chain_Cons:
  "chain bl cur ((sl, a) # xs) \<longleftrightarrow> cur = Some sl \<and> sl < length bl \<and> (\<exists>nx. bl ! sl = Some \<lparr>fb_addr = a, fb_next = nx\<rparr> \<and> chain bl nx xs)"
  by (cases cur) auto

lemma chain_upd: "slot \<notin> fst ` set xs \<Longrightarrow> chain (bl[slot := v]) cur xs = chain bl cur xs"
proof (induction xs arbitrary: cur)
  case (Cons x xs)
  then show ?case by (cases x) (auto simp: chain_Cons)
qed simp

lemma free_walk_Some:
  "free_walk bl addr (Some slot) =
     (if slot < length bl then
        (case bl ! slot of None \<Rightarrow> Some (Ok False)
         | Some block \<Rightarrow> if fb_addr block = addr then Some (Ok True) else free_walk bl addr (fb_next block))
      else Some Panic)"
  by (subst free_walk.simps) simp

lemma remove_walk_Some:
  "remove_walk order addr prev (Some slot) s =
     (if slot < length (bu_blocks s) then
        (case bu_blocks s ! slot of None \<Rightarrow> Some (Ok False, s)
         | Some block \<Rightarrow>
             if fb_addr block = addr then Some (Ok True, unlink order prev slot (fb_next block) s)
             else remove_walk order addr (Some slot) (fb_next block) s)
      else Some (Panic, s))"
  by (subst remove_walk.simps) simp

lemma free_walk_chain: "chain bl cur xs \<Longrightarrow> free_walk bl addr cur = Some (Ok (addr \<in> snd ` set xs))"
proof (induction xs arbitrary: cur)
  case Nil
  then show ?case by (simp add: free_walk.simps)
next
  case (Cons x xs)
  then show ?case by (cases x) (auto simp: chain_Cons free_walk_Some)
qed

lemma remove_walk_found:
  assumes "chain (bu_blocks s) cur (ys @ (sl, addr) # zs)" and "addr \<notin> snd ` set ys"
  shows "\<exists>nx. bu_blocks s ! sl = Some \<lparr>fb_addr = addr, fb_next = nx\<rparr> \<and> sl < length (bu_blocks s) \<and> chain (bu_blocks s) nx zs
    \<and> remove_walk order addr prev cur s = Some (Ok True, unlink order (if ys = [] then prev else Some (fst (last ys))) sl nx s)"
  using assms
proof (induction ys arbitrary: cur prev)
  case Nil
  then show ?case by (auto simp: chain_Cons remove_walk_Some)
next
  case (Cons y ys)
  obtain p a where y: "y = (p, a)" by (cases y)
  obtain nx where "cur = Some p" "p < length (bu_blocks s)" "bu_blocks s ! p = Some \<lparr>fb_addr = a, fb_next = nx\<rparr>"
      "chain (bu_blocks s) nx (ys @ (sl, addr) # zs)" using Cons.prems(1) by (auto simp: y chain_Cons)
  then show ?case using Cons.IH [of nx "Some p"] Cons.prems(2)
    by (auto simp: y remove_walk_Some)
qed

text \<open>Relinking past a slot.\<close>

lemma chain_unlink:
  assumes "chain bl cur (ys @ [(p, b)] @ (sl, a) # zs)" and "distinct (map fst (ys @ [(p, b)] @ (sl, a) # zs))"
    and "bl ! sl = Some \<lparr>fb_addr = a, fb_next = nx\<rparr>"
  shows "\<exists>pn. bl ! p = Some \<lparr>fb_addr = b, fb_next = pn\<rparr> \<and> p < length bl \<and> chain ((bl[p := Some \<lparr>fb_addr = b, fb_next = nx\<rparr>])[sl := None]) cur (ys @ [(p, b)] @ zs)"
  using assms
proof (induction ys arbitrary: cur)
  case Nil
  then show ?case by (auto simp: chain_Cons chain_upd nth_list_update)
next
  case (Cons y ys)
  obtain q c where y: "y = (q, c)" by (cases y)
  show ?case using Cons.IH Cons.prems by (auto simp: y chain_Cons nth_list_update)
qed

text \<open>
  The state represents a family of lists: for each order the slots and addresses of its free blocks.
\<close>

definition shape :: "(nat \<Rightarrow> (usize \<times> usize) list) \<Rightarrow> buddy \<Rightarrow> bool" where
  "shape F s \<longleftrightarrow> length (bu_free_lists s) = 11 \<and> length (bu_blocks s) = 4096 \<and> bu_next_slot s \<le> 4096
     \<and> (\<forall>k < 11. chain (bu_blocks s) (bu_free_lists s ! k) (F k) \<and> distinct (map fst (F k)))
     \<and> (\<forall>k < 11. \<forall>sl \<in> fst ` set (F k). sl < bu_next_slot s)
     \<and> (\<forall>j < 11. \<forall>k < 11. j \<noteq> k \<longrightarrow> fst ` set (F j) \<inter> fst ` set (F k) = {})"

lemma shape_cong:
  "bu_free_lists s' = bu_free_lists s \<Longrightarrow> bu_blocks s' = bu_blocks s \<Longrightarrow> bu_next_slot s' = bu_next_slot s \<Longrightarrow> shape F s' = shape F s"
  by (simp add: shape_def)

lemma shape_len: "shape F s \<Longrightarrow> length (bu_free_lists s) = 11 \<and> length (bu_blocks s) = 4096 \<and> bu_next_slot s \<le> 4096"
  by (simp add: shape_def)

lemma shape_chain: "shape F s \<Longrightarrow> k < 11 \<Longrightarrow> chain (bu_blocks s) (bu_free_lists s ! k) (F k)"
  by (simp add: shape_def)

lemma shape_distinct: "shape F s \<Longrightarrow> k < 11 \<Longrightarrow> distinct (map fst (F k))"
  by (simp add: shape_def)

lemma shape_slots: "shape F s \<Longrightarrow> k < 11 \<Longrightarrow> sl \<in> fst ` set (F k) \<Longrightarrow> sl < bu_next_slot s"
  unfolding shape_def by blast

lemma shape_apart: "shape F s \<Longrightarrow> j < 11 \<Longrightarrow> k < 11 \<Longrightarrow> j \<noteq> k \<Longrightarrow> sl \<in> fst ` set (F k) \<Longrightarrow> sl \<notin> fst ` set (F j)"
  unfolding shape_def by blast

lemma shape_empty: "shape F s \<Longrightarrow> k < 11 \<Longrightarrow> bu_free_lists s ! k = None \<longleftrightarrow> F k = []"
  by (cases "F k") (auto simp: shape_def chain_Cons dest!: spec [of _ k])

lemma shape_add:
  assumes "shape F s" and "k < 11" and "bu_next_slot s < 4096"
  shows "shape (F(k := (bu_next_slot s, a) # F k))
      (s\<lparr>bu_next_slot := bu_next_slot s + 1,
         bu_blocks := (bu_blocks s)[bu_next_slot s := Some \<lparr>fb_addr = a, fb_next = bu_free_lists s ! k\<rparr>],
         bu_free_lists := (bu_free_lists s)[k := Some (bu_next_slot s)]\<rparr>)"
proof -
  have new: "bu_next_slot s \<notin> fst ` set (F j)" if "j < 11" for j using assms(1) that by (force simp: shape_def)
  have "chain ((bu_blocks s)[bu_next_slot s := Some \<lparr>fb_addr = a, fb_next = bu_free_lists s ! k\<rparr>]) (bu_free_lists s ! j) (F j)" if "j < 11" for j
    using assms(1) that new [OF that] by (simp add: chain_upd shape_def)
  then show ?thesis using assms new
    by (auto simp: shape_def chain_Cons nth_list_update less_Suc_eq)
qed

lemma shape_drop:
  assumes "shape F s" and "k < 11" and F: "F k = ys @ (sl, a) # zs"
    and "length fl = 11" and "length bl = 4096" and "chain bl (fl ! k) (ys @ zs)"
    and "\<And>j. j < 11 \<Longrightarrow> j \<noteq> k \<Longrightarrow> chain bl (fl ! j) (F j)"
  shows "shape (F(k := ys @ zs)) (s\<lparr>bu_free_lists := fl, bu_blocks := bl\<rparr>)"
proof -
  note d = shape_distinct [OF assms(1,2)] shape_slots [OF assms(1,2)]
  have sub: "set (ys @ zs) \<subseteq> set (F k)" by (auto simp: F)
  have "distinct (map fst (ys @ zs))" using d(1) by (auto simp: F)
  moreover have "fst ` set (ys @ zs) \<inter> fst ` set (F j) = {}" if "j < 11" "j \<noteq> k" for j
    using shape_apart [OF assms(1) that(1) assms(2) that(2)] sub by blast
  moreover have "\<forall>sl \<in> fst ` set (ys @ zs). sl < bu_next_slot s" using d(2) sub by blast
  ultimately show ?thesis using assms shape_apart [OF assms(1)] unfolding shape_def
    by (auto simp del: set_append map_append)
qed

lemma chain_other:
  assumes "shape F s" "k < 11" "j < 11" "j \<noteq> k" "sl \<in> fst ` set (F k)"
  shows "chain ((bu_blocks s)[sl := v]) (bu_free_lists s ! j) (F j)"
  using shape_apart [OF assms(1,3,2,4,5)] shape_chain [OF assms(1,3)] by (simp add: chain_upd)

lemma remove_from_free_list_ok:
  assumes "shape F s" and k: "k < 11" and F: "F k = (sl, a) # zs"
  shows "\<exists>s'. remove_from_free_list k s = (Ok (Some a), s') \<and> shape (F(k := zs)) s'
     \<and> bu_next_slot s' = bu_next_slot s \<and> bu_base s' = bu_base s"
proof -
  have len: "length (bu_free_lists s) = 11" "length (bu_blocks s) = 4096" using assms(1) by (simp_all add: shape_def)
  have "chain (bu_blocks s) (bu_free_lists s ! k) ((sl, a) # zs)" using shape_chain [OF assms(1) k] F by simp
  then obtain nx where c: "bu_free_lists s ! k = Some sl" "sl < length (bu_blocks s)"
      "bu_blocks s ! sl = Some \<lparr>fb_addr = a, fb_next = nx\<rparr>" "chain (bu_blocks s) nx zs"
    by (auto simp: chain_Cons)
  have "sl \<notin> fst ` set zs" using shape_distinct [OF assms(1) k] by (simp add: F)
  then have "shape (F(k := [] @ zs)) (s\<lparr>bu_free_lists := (bu_free_lists s)[k := nx], bu_blocks := (bu_blocks s)[sl := None]\<rparr>)"
    using c k len F by (intro shape_drop [OF assms(1)]) (simp_all add: chain_upd chain_other [OF assms(1) k])
  then show ?thesis using k len c by (simp add: remove_from_free_list_def)
qed

lemma remove_specific_ok:
  assumes "shape F s" and k: "k < 11" and "a \<in> snd ` set (F k)"
  shows "\<exists>s' sl ys zs. remove_specific_from_free_list k a s = Some (Ok True, s') \<and> F k = ys @ (sl, a) # zs
     \<and> shape (F(k := ys @ zs)) s' \<and> bu_next_slot s' = bu_next_slot s \<and> bu_base s' = bu_base s"
proof -
  have len: "length (bu_free_lists s) = 11" "length (bu_blocks s) = 4096" using assms(1) by (simp_all add: shape_def)
  have "\<exists>x \<in> set (F k). snd x = a" using assms(3) by auto
  then obtain ys x zs where x: "F k = ys @ x # zs" "snd x = a" "\<forall>y \<in> set ys. snd y \<noteq> a" by (rule split_list_first_propE)
  then obtain sl where F: "F k = ys @ (sl, a) # zs" by (cases x) auto
  have ch: "chain (bu_blocks s) (bu_free_lists s ! k) (ys @ (sl, a) # zs)" and d: "distinct (map fst (ys @ (sl, a) # zs))"
    using shape_chain [OF assms(1) k] shape_distinct [OF assms(1) k] F by simp_all
  obtain nx where w: "bu_blocks s ! sl = Some \<lparr>fb_addr = a, fb_next = nx\<rparr>" "sl < length (bu_blocks s)" "chain (bu_blocks s) nx zs"
      "remove_walk k a None (bu_free_lists s ! k) s = Some (Ok True, unlink k (if ys = [] then None else Some (fst (last ys))) sl nx s)"
    using remove_walk_found [OF ch] x(3) by fastforce
  let ?u = "unlink k (if ys = [] then None else Some (fst (last ys))) sl nx s"
  have shp: "shape (F(k := ys @ zs)) ?u"
  proof (cases ys rule: rev_cases)
    case Nil
    then have "shape (F(k := [] @ zs)) (s\<lparr>bu_free_lists := (bu_free_lists s)[k := nx], bu_blocks := (bu_blocks s)[sl := None]\<rparr>)"
      using w k len F d by (intro shape_drop [OF assms(1)]) (simp_all add: chain_upd chain_other [OF assms(1) k])
    then show ?thesis using Nil by (simp add: unlink_def)
  next
    case (snoc us u)
    obtain p b where u: "u = (p, b)" by (cases u)
    let ?bl = "(bu_blocks s)[p := Some \<lparr>fb_addr = b, fb_next = nx\<rparr>, sl := None]"
    obtain pn where p: "bu_blocks s ! p = Some \<lparr>fb_addr = b, fb_next = pn\<rparr>" and c: "chain ?bl (bu_free_lists s ! k) (ys @ zs)"
      using chain_unlink [of "bu_blocks s" "bu_free_lists s ! k" us p b sl a zs nx] ch d w(1) by (auto simp: snoc u)
    have o: "chain ?bl (bu_free_lists s ! j) (F j)" if "j < 11" "j \<noteq> k" for j
    proof -
      have "p \<notin> fst ` set (F j)" "sl \<notin> fst ` set (F j)" "chain (bu_blocks s) (bu_free_lists s ! j) (F j)"
        using shape_apart [OF assms(1) that(1) k that(2)] shape_chain [OF assms(1) that(1)] F by (simp_all add: snoc u)
      then show ?thesis by (simp add: chain_upd)
    qed
    have "shape (F(k := ys @ zs)) (s\<lparr>bu_free_lists := bu_free_lists s, bu_blocks := ?bl\<rparr>)"
      using len c o by (intro shape_drop [OF assms(1) k F]) simp_all
    then show ?thesis using p by (simp add: unlink_def snoc u)
  qed
  have fields: "bu_next_slot ?u = bu_next_slot s \<and> bu_base ?u = bu_base s"
    by (auto simp: unlink_def split: option.splits)
  have "remove_specific_from_free_list k a s = Some (Ok True, ?u)"
    using w(4) k len by (simp only: remove_specific_from_free_list_def if_True)
  with F shp fields show ?thesis by blast
qed

section \<open>Coverage\<close>

text \<open>
  How many free blocks cover an address. Blocks are apart when no address is covered twice, and lie in the
  region when no other address is covered; splitting and merging blocks keep the count.
\<close>

definition covers :: "nat \<Rightarrow> usize \<Rightarrow> usize \<Rightarrow> nat" where
  "covers k a x = (if a \<le> x \<and> x < a + blk k then 1 else 0)"

definition cov :: "(nat \<Rightarrow> (usize \<times> usize) list) \<Rightarrow> usize \<Rightarrow> nat" where
  "cov F x = (\<Sum>k < 11. \<Sum>(sl, a) \<leftarrow> F k. covers k a x)"

definition aligned :: "usize \<Rightarrow> nat \<Rightarrow> usize \<Rightarrow> bool" where
  "aligned base k a \<longleftrightarrow> base \<le> a \<and> blk k dvd a - base"

definition all_aligned :: "usize \<Rightarrow> (nat \<Rightarrow> (usize \<times> usize) list) \<Rightarrow> bool" where
  "all_aligned base F \<longleftrightarrow> (\<forall>k < 11. \<forall>a \<in> snd ` set (F k). aligned base k a)"

lemma sum_fun_upd:
  fixes g :: "nat \<Rightarrow> 'a \<Rightarrow> nat"
  assumes "k < n" shows "(\<Sum>i < n. g i ((F(k := y)) i)) + g k (F k) = (\<Sum>i < n. g i (F i)) + g k y"
proof -
  have "(\<Sum>i < n. g i (G i)) = g k (G k) + (\<Sum>i \<in> {..<n} - {k}. g i (G i))" for G
    using assms by (simp add: sum.remove)
  moreover have "(\<Sum>i \<in> {..<n} - {k}. g i ((F(k := y)) i)) = (\<Sum>i \<in> {..<n} - {k}. g i (F i))"
    by (rule sum.cong) auto
  ultimately show ?thesis by simp
qed

lemma cov_upd: "k < 11 \<Longrightarrow> cov (F(k := ys)) x + (\<Sum>(sl, a) \<leftarrow> F k. covers k a x) = cov F x + (\<Sum>(sl, a) \<leftarrow> ys. covers k a x)"
  unfolding cov_def using sum_fun_upd [of k 11 "\<lambda>k ys. \<Sum>(sl, a) \<leftarrow> ys. covers k a x"] by simp

lemma cov_add: "k < 11 \<Longrightarrow> cov (F(k := (sl, a) # F k)) x = cov F x + covers k a x"
  using cov_upd [of k F "(sl, a) # F k" x] by simp

lemma cov_drop: "k < 11 \<Longrightarrow> F k = ys @ (sl, a) # zs \<Longrightarrow> cov (F(k := ys @ zs)) x + covers k a x = cov F x"
  using cov_upd [of k F "ys @ zs" x] by simp

lemma covers_split: "covers (Suc k) a x = covers k a x + covers k (a + blk k) x"
  by (auto simp: covers_def)

lemma xor_pow:
  fixes r :: nat
  assumes "2 ^ n dvd r" shows "r XOR 2 ^ n = (if 2 ^ Suc n dvd r then r + 2 ^ n else r - 2 ^ n)"
proof -
  obtain q where q: "r = push_bit n q" using assms by (metis dvd_def push_bit_eq_mult mult.commute)
  have "r XOR 2 ^ n = push_bit n (q XOR 1)" by (simp add: q push_bit_xor push_bit_of_1)
  moreover have "2 ^ Suc n dvd r \<longleftrightarrow> even q" by (simp add: q push_bit_eq_mult)
  ultimately show ?thesis by (auto simp: q push_bit_eq_mult xor_Suc_0_eq algebra_simps)
qed

lemma buddy_address_ok:
  assumes "bu_base s = base" and "aligned base k a" and "k < 10" and "a + blk k < usize_limit"
  shows "\<exists>b. buddy_address a k s = Ok b \<and> aligned base k b \<and> aligned base (Suc k) (min a b)
     \<and> (\<forall>x. covers (Suc k) (min a b) x = covers k a x + covers k b x)"
proof -
  define r where "r = a - base"
  define B where "B = blk k"
  have B: "0 < B" "blk (Suc k) = 2 * B" "order_to_size k = B" using assms(3) by (simp_all add: B_def order_to_size_blk)
  have a: "a = base + r" and d: "B dvd r" using assms(2) by (auto simp: aligned_def r_def B_def)
  have pow: "B = 2 ^ (12 + k)" by (simp add: power_add B_def)
  have x: "r XOR B = (if 2 * B dvd r then r + B else r - B)"
    using xor_pow [of "12 + k" r] d unfolding power_Suc pow [symmetric] by simp
  have cov: "covers (Suc k) c x = covers k c x + covers k (c + B) x" for c x
    unfolding B_def by (rule covers_split)
  have al: "aligned base k c \<longleftrightarrow> base \<le> c \<and> B dvd c - base" "aligned base (Suc k) c \<longleftrightarrow> base \<le> c \<and> 2 * B dvd c - base" for c
    unfolding aligned_def B(2) B_def by (rule refl)+
  have lim: "a + B < usize_limit" using assms(4) by (simp add: B_def)
  show ?thesis
  proof (cases "2 * B dvd r")
    case True
    then have b: "buddy_address a k s = Ok (a + B)"
      using assms(1) x lim by (simp add: buddy_address_def B(3) a)
    have "aligned base k (a + B)" "aligned base (Suc k) a" "min a (a + B) = a"
      using d True by (simp_all add: al a)
    then show ?thesis unfolding b using cov [of a] by auto
  next
    case False
    then have "r \<noteq> 0" by (intro notI) simp
    then have le: "B \<le> r" using d by (simp add: dvd_imp_le)
    then have b: "buddy_address a k s = Ok (a - B)"
      using assms(1) x False lim by (simp add: buddy_address_def B(3) a)
    obtain q where q: "r = B * q" using d by (rule dvdE)
    have "odd q" using False by (auto simp: q)
    then obtain h where "q = 2 * h + 1" by (rule oddE)
    then have "r - B = 2 * B * h" by (simp add: q)
    then have "2 * B dvd r - B" by simp
    then have "aligned base k (a - B)" "aligned base (Suc k) (a - B)" "min a (a - B) = a - B" "a - B + B = a"
      using d le by (simp_all add: al a)
    then show ?thesis unfolding b using cov [of "a - B"] by auto
  qed
qed

section \<open>The operations keep the coverage\<close>

definition good :: "usize \<Rightarrow> (nat \<Rightarrow> (usize \<times> usize) list) \<Rightarrow> buddy \<Rightarrow> bool" where
  "good base F s \<longleftrightarrow> shape F s \<and> all_aligned base F \<and> bu_base s = base"

text \<open>The coverage \<open>c\<close> is at most \<open>t\<close>, and equal to it as long as a metadata slot is left.\<close>

definition near :: "buddy \<Rightarrow> (usize \<Rightarrow> nat) \<Rightarrow> (usize \<Rightarrow> nat) \<Rightarrow> bool" where
  "near s c t \<longleftrightarrow> (\<forall>x. c x \<le> t x \<and> (bu_next_slot s < 4096 \<longrightarrow> c x = t x))"

lemma good_cong:
  "bu_free_lists s' = bu_free_lists s \<Longrightarrow> bu_blocks s' = bu_blocks s \<Longrightarrow> bu_next_slot s' = bu_next_slot s \<Longrightarrow> bu_base s' = bu_base s
     \<Longrightarrow> good base F s' = good base F s"
  using shape_cong [of s' s F] by (simp add: good_def)

lemma add_ok:
  assumes "good base F s" and "k < 11" and "aligned base k a"
  shows "\<exists>s' F'. add_to_free_list k a s = (Ok (), s') \<and> good base F' s' \<and> bu_next_slot s \<le> bu_next_slot s'
     \<and> near s' (cov F') (\<lambda>x. cov F x + covers k a x)"
proof (cases "bu_next_slot s < 4096")
  case True
  let ?F = "F(k := (bu_next_slot s, a) # F k)"
  define s' where "s' = s\<lparr>bu_next_slot := bu_next_slot s + 1,
         bu_blocks := (bu_blocks s)[bu_next_slot s := Some \<lparr>fb_addr = a, fb_next = bu_free_lists s ! k\<rparr>],
         bu_free_lists := (bu_free_lists s)[k := Some (bu_next_slot s)]\<rparr>"
  have sh: "shape F s" "all_aligned base F" "bu_base s = base" using assms(1) by (simp_all add: good_def)
  have "all_aligned base ?F" using sh(2) assms(3) by (simp add: all_aligned_def)
  moreover have "shape ?F s'" unfolding s'_def by (rule shape_add [OF sh(1) assms(2) True])
  moreover have "bu_base s' = base" "bu_next_slot s \<le> bu_next_slot s'" using sh(3) by (simp_all add: s'_def)
  moreover have "add_to_free_list k a s = (Ok (), s')"
    using True assms(2) shape_len [OF sh(1)] by (simp add: add_to_free_list_def Let_def s'_def)
  moreover have "near s' (cov ?F) (\<lambda>x. cov F x + covers k a x)"
    unfolding near_def cov_add [OF assms(2)] by simp
  ultimately show ?thesis unfolding good_def by blast
next
  case False
  then have "add_to_free_list k a s = (Ok (), s)" "near s (cov F) (\<lambda>x. cov F x + covers k a x)"
    using assms(1) shape_len [of F s] by (auto simp: good_def add_to_free_list_def near_def)
  then show ?thesis using assms(1) by blast
qed

lemma aligned_half: "aligned base (Suc k) a \<Longrightarrow> aligned base k a \<and> aligned base k (a + blk k)"
proof -
  assume h: "aligned base (Suc k) a"
  then obtain d where a: "a = base + d" and d: "blk (Suc k) dvd d"
    unfolding aligned_def by (metis le_add_diff_inverse)
  have "blk k dvd blk (Suc k)" by simp
  then have "blk k dvd d" using d by (rule dvd_trans)
  then show ?thesis by (simp add: aligned_def a)
qed

lemma aligned_le: "aligned base j a \<Longrightarrow> k \<le> j \<Longrightarrow> aligned base k a"
  using aligned_half by (induction j arbitrary: k) (auto simp: le_Suc_eq)

lemma near_trans:
  assumes "near s1 c1 (\<lambda>x. c x + d x)" and "near s2 c2 (\<lambda>x. c1 x + e x)" and "bu_next_slot s1 \<le> bu_next_slot s2"
  shows "near s2 c2 (\<lambda>x. c x + d x + e x)"
proof -
  have "c2 x \<le> c x + d x + e x \<and> (bu_next_slot s2 < 4096 \<longrightarrow> c2 x = c x + d x + e x)" for x
  proof -
    have "c1 x \<le> c x + d x" "c2 x \<le> c1 x + e x" "bu_next_slot s1 < 4096 \<Longrightarrow> c1 x = c x + d x" "bu_next_slot s2 < 4096 \<Longrightarrow> c2 x = c1 x + e x"
      using assms(1,2) by (simp_all add: near_def)
    then show ?thesis using assms(3) by linarith
  qed
  then show ?thesis by (simp add: near_def)
qed

lemma split_ok:
  assumes "good base F s" and "aligned base j a" and "k \<le> j" and "j \<le> 10" and "a + blk j \<le> usize_limit"
  shows "\<exists>s' F'. split_loop a k j s = (Ok (), s') \<and> good base F' s' \<and> bu_next_slot s \<le> bu_next_slot s'
     \<and> near s' (\<lambda>x. cov F' x + covers k a x) (\<lambda>x. cov F x + covers j a x)"
  using assms
proof (induction j arbitrary: F s)
  case 0
  then show ?case by (auto simp: near_def)
next
  case (Suc j)
  show ?case
  proof (cases "k = Suc j")
    case True
    then show ?thesis using Suc.prems by (auto simp: near_def)
  next
    case False
    then have k: "k \<le> j" using Suc.prems(3) by simp
    obtain s1 F1 where 1: "add_to_free_list j (a + blk j) s = (Ok (), s1)" "good base F1 s1" "bu_next_slot s \<le> bu_next_slot s1"
        "near s1 (cov F1) (\<lambda>x. cov F x + covers j (a + blk j) x)"
      using add_ok [OF Suc.prems(1), of j "a + blk j"] Suc.prems(2,4) aligned_half by auto
    let ?s2 = "s1\<lparr>bs_splits := bs_splits s1 + 1\<rparr>"
    have "good base F1 ?s2" using 1(2) by (simp add: good_cong [of ?s2 s1])
    then obtain s' F' where 2: "split_loop a k j ?s2 = (Ok (), s')" "good base F' s'" "bu_next_slot s1 \<le> bu_next_slot s'"
        "near s' (\<lambda>x. cov F' x + covers k a x) (\<lambda>x. cov F1 x + covers j a x)"
      using Suc.IH [of F1 ?s2] Suc.prems(2,4,5) k aligned_half by auto
    have "blk (Suc j) = blk j + blk j" "0 < blk j" by simp_all
    then have lim: "a + blk j < usize_limit" using Suc.prems(5) by linarith
    have "near s' (\<lambda>x. cov F' x + covers k a x) (\<lambda>x. cov F x + covers (Suc j) a x)"
      using near_trans [OF 1(4) 2(4,3)] unfolding near_def covers_split by (simp add: ac_simps)
    then show ?thesis using 1 2 lim k Suc.prems(4) by (auto simp: seq_def bind_def order_to_size_blk)
  qed
qed

lemma covers_last: "covers k a (a + blk k - 1) = 1" "covers k a a = 1"
proof -
  obtain n where n: "blk k = Suc n" using gr0_conv_Suc [of "blk k"] by auto
  show "covers k a (a + blk k - 1) = 1" "covers k a a = 1" unfolding covers_def n by simp_all
qed

lemma in_region: "covers k a (a + blk k - 1) \<le> covers m base (a + blk k - 1) \<Longrightarrow> a + blk k \<le> base + blk m"
  unfolding covers_last by (simp add: covers_def split: if_splits)

lemma all_aligned_drop: "all_aligned base F \<Longrightarrow> F k = ys @ (sl, a) # zs \<Longrightarrow> all_aligned base (F(k := ys @ zs))"
proof -
  assume h: "all_aligned base F" "F k = ys @ (sl, a) # zs"
  have "snd ` set ((F(k := ys @ zs)) i) \<subseteq> snd ` set (F i)" for i using h(2) by (cases "i = k") auto
  then show ?thesis using h(1) unfolding all_aligned_def by blast
qed

lemma merge_ok:
  assumes "good base F s" and "aligned base k a" and "k \<le> 10" and "base + blk m < usize_limit"
    and "\<And>x. cov F x + covers k a x \<le> covers m base x"
  shows "\<exists>s' F' k' a'. merge_loop k a s = Some (Ok (k', a'), s') \<and> good base F' s' \<and> k' \<le> 10 \<and> aligned base k' a'
     \<and> bu_next_slot s' = bu_next_slot s \<and> (\<forall>x. cov F' x + covers k' a' x = cov F x + covers k a x)"
  using assms
proof (induction "10 - k" arbitrary: F s k a)
  case 0
  then show ?case by (subst merge_loop.simps) (auto simp: MAX_ORDER_def)
next
  case (Suc n)
  have k: "k < 10" using Suc.hyps(2) by simp
  have sh: "shape F s" "all_aligned base F" "bu_base s = base" using Suc.prems(1) by (simp_all add: good_def)
  have "a + blk k \<le> base + blk m" by (rule in_region) (use Suc.prems(5) [of "a + blk k - 1"] in simp)
  then obtain b where b: "buddy_address a k s = Ok b" "aligned base (Suc k) (min a b)"
      "\<And>x. covers (Suc k) (min a b) x = covers k a x + covers k b x"
    using buddy_address_ok [OF sh(3) Suc.prems(2) k] Suc.prems(4) by fastforce
  have free: "is_free_at_order b k s = Some (Ok (b \<in> snd ` set (F k)))"
    using free_walk_chain [OF shape_chain [OF sh(1)], of k b] shape_len [OF sh(1)] k by (simp add: is_free_at_order_def)
  show ?case
  proof (cases "b \<in> snd ` set (F k)")
    case True
    obtain s1 sl ys zs where 1: "remove_specific_from_free_list k b s = Some (Ok True, s1)" "F k = ys @ (sl, b) # zs"
        "shape (F(k := ys @ zs)) s1" "bu_next_slot s1 = bu_next_slot s" "bu_base s1 = bu_base s"
      using remove_specific_ok [OF sh(1) _ True] k by auto
    let ?F = "F(k := ys @ zs)" and ?s = "s1\<lparr>bs_merges := bs_merges s1 + 1\<rparr>"
    have g: "good base ?F ?s"
      using 1(3,5) sh(3) all_aligned_drop [OF sh(2) 1(2)] shape_cong [of ?s s1 ?F] by (simp add: good_def)
    have c: "cov ?F x + covers (Suc k) (min a b) x = cov F x + covers k a x" for x
      using cov_drop [of k F ys sl b zs x] 1(2) k b(3) by simp
    have "\<exists>s' F' k' a'. merge_loop (Suc k) (min a b) ?s = Some (Ok (k', a'), s') \<and> good base F' s' \<and> k' \<le> 10 \<and> aligned base k' a'
        \<and> bu_next_slot s' = bu_next_slot ?s \<and> (\<forall>x. cov F' x + covers k' a' x = cov ?F x + covers (Suc k) (min a b) x)"
      using Suc.hyps(2) k Suc.prems(5) by (intro Suc.hyps(1) [OF _ g b(2) _ Suc.prems(4)]) (simp_all add: c)
    moreover have "merge_loop k a s = merge_loop (Suc k) (min a b) ?s"
      using k b(1) free True 1(1) by (subst merge_loop.simps) (simp add: MAX_ORDER_def)
    ultimately show ?thesis using 1(4) by (simp add: c)
  next
    case False
    then have "merge_loop k a s = Some (Ok (k, a), s)"
      using k b(1) free by (subst merge_loop.simps) (simp add: MAX_ORDER_def)
    then show ?thesis using Suc.prems(1-3) by blast
  qed
qed

lemma find_free:
  assumes "shape F s" shows "find_free_block k s = None \<longleftrightarrow> (\<forall>j. k \<le> j \<and> j < 11 \<longrightarrow> F j = [])"
    and "find_free_block k s = Some j \<Longrightarrow> k \<le> j \<and> j < 11 \<and> F j \<noteq> []"
proof -
  show "find_free_block k s = None \<longleftrightarrow> (\<forall>j. k \<le> j \<and> j < 11 \<longrightarrow> F j = [])"
    using shape_empty [OF assms] by (auto simp: find_free_block_def find_None_iff MAX_ORDER_def)
  assume "find_free_block k s = Some j"
  then have "k \<le> j" "j < 11" "bu_free_lists s ! j \<noteq> None"
    by (auto simp: find_free_block_def find_Some_iff MAX_ORDER_def)
  then show "k \<le> j \<and> j < 11 \<and> F j \<noteq> []" using shape_empty [OF assms, of j] by auto
qed

lemma set_allocated_ok:
  assumes "good base F s" and "base \<le> a"
  shows "\<exists>s'. set_allocated a v s = (Ok (), s') \<and> good base F s' \<and> bu_next_slot s' = bu_next_slot s"
proof -
  have "\<exists>bm. set_allocated a v s = (Ok (), s\<lparr>bu_bitmap := bm\<rparr>)"
    using assms by (auto simp: set_allocated_def Let_def good_def intro: exI [of _ "bu_bitmap s"])
  then show ?thesis using assms(1) good_cong [of "s\<lparr>bu_bitmap := _\<rparr>" s base F] by auto
qed

lemma allocate_ok:
  assumes g: "good base F s" and reg: "base + blk m < usize_limit" and cov: "\<And>x. cov F x \<le> covers m base x" and sz: "size_to_order (max sz MIN_BLOCK_SIZE) \<noteq> Panic"
  shows "(\<exists>s'. allocate sz s = (Ok None, s') \<and> good base F s' \<and> bu_next_slot s' = bu_next_slot s
        \<and> (\<forall>j. order_of sz \<le> j \<and> j < 11 \<longrightarrow> F j = []))
    \<or> (\<exists>s' a F'. allocate sz s = (Ok (Some a), s') \<and> good base F' s' \<and> bu_next_slot s \<le> bu_next_slot s'
        \<and> order_of sz \<le> 10 \<and> aligned base (order_of sz) a
        \<and> near s' (\<lambda>x. cov F' x + covers (order_of sz) a x) (cov F))"
proof (cases sz rule: size_to_order_cases)
  case (order k)
  have sh: "shape F s" "all_aligned base F" "bu_base s = base" using g by (simp_all add: good_def)
  show ?thesis
  proof (cases "k \<le> 10 \<and> find_free_block k s \<noteq> None")
    case False
    have "good base F (s\<lparr>bs_failures := v\<rparr>)" for v using g good_cong [of "s\<lparr>bs_failures := v\<rparr>" s base F] by simp
    then have "\<exists>s'. allocate sz s = (Ok None, s') \<and> good base F s' \<and> bu_next_slot s' = bu_next_slot s"
      using False order(1) g by (auto simp: allocate_def seq_def bind_def MAX_ORDER_def)
    moreover have "\<forall>j. order_of sz \<le> j \<and> j < 11 \<longrightarrow> F j = []"
      using False find_free(1) [OF sh(1), of k] order(2) by auto
    ultimately show ?thesis by blast
  next
    case True
    then obtain j where j: "find_free_block k s = Some j" by auto
    then have kj: "k \<le> j" "j < 11" "F j \<noteq> []" using find_free(2) [OF sh(1)] by blast+
    then obtain sl a zs where F: "F j = [] @ (sl, a) # zs" by (cases "F j") auto
    obtain s1 where 1: "remove_from_free_list j s = (Ok (Some a), s1)" "shape (F(j := zs)) s1" "bu_next_slot s1 = bu_next_slot s" "bu_base s1 = bu_base s"
      using remove_from_free_list_ok [OF sh(1) kj(2)] F by auto
    have al: "aligned base j a" using sh(2) kj(2) F by (auto simp: all_aligned_def)
    have c: "cov (F(j := zs)) x + covers j a x = cov F x" for x using cov_drop [of j F "[]" sl a zs x] kj(2) F by simp
    have "a + blk j \<le> base + blk m" by (rule in_region) (use cov [of "a + blk j - 1"] c [of "a + blk j - 1"] in simp)
    moreover have g1: "good base (F(j := zs)) s1" using 1 sh(3) all_aligned_drop [of base F j "[]" sl a zs] sh(2) F by (simp add: good_def)
    ultimately obtain s2 F2 where 2: "split_loop a k j s1 = (Ok (), s2)" "good base F2 s2" "bu_next_slot s1 \<le> bu_next_slot s2"
        "near s2 (\<lambda>x. cov F2 x + covers k a x) (\<lambda>x. cov (F(j := zs)) x + covers j a x)"
      using split_ok [OF g1 al kj(1)] kj(2) reg by auto
    obtain s3 where 3: "set_allocated a True s2 = (Ok (), s3)" "good base F2 s3" "bu_next_slot s3 = bu_next_slot s2"
      using set_allocated_ok [OF 2(2), of a] al by (auto simp: aligned_def)
    let ?s = "s3\<lparr>bs_allocations := bs_allocations s3 + 1\<rparr>"
    have "allocate sz s = (Ok (Some a), ?s)"
      using order(1) True j 1(1) 2(1) 3(1) by (simp add: allocate_def seq_def bind_def MAX_ORDER_def)
    moreover have "good base F2 ?s" using 3(2) good_cong [of ?s s3 base F2] by simp
    moreover have "near ?s (\<lambda>x. cov F2 x + covers k a x) (cov F)" using 2(4) 3(3) by (simp add: near_def c)
    moreover have "aligned base k a" by (rule aligned_le [OF al kj(1)])
    ultimately show ?thesis using 1(3) 2(3) 3(3) True order(2) by auto
  qed
qed (use sz in simp)

lemma deallocate_ok:
  assumes g: "good base F s" and al: "aligned base (order_of sz) a" and k: "order_of sz \<le> 10" and reg: "base + blk m < usize_limit"
    and cov: "\<And>x. cov F x + covers (order_of sz) a x \<le> covers m base x"
  shows "\<exists>s' F'. deallocate a sz s = Some (Ok (), s') \<and> good base F' s' \<and> bu_next_slot s \<le> bu_next_slot s'
    \<and> near s' (cov F') (\<lambda>x. cov F x + covers (order_of sz) a x)"
proof (cases sz rule: size_to_order_cases)
  case (order k)
  obtain s1 where 1: "set_allocated a False s = (Ok (), s1)" "good base F s1" "bu_next_slot s1 = bu_next_slot s"
    using set_allocated_ok [OF g, of a] al by (auto simp: aligned_def)
  obtain s2 F2 k' a' where 2: "merge_loop k a s1 = Some (Ok (k', a'), s2)" "good base F2 s2" "k' \<le> 10" "aligned base k' a'"
      "bu_next_slot s2 = bu_next_slot s1" "\<And>x. cov F2 x + covers k' a' x = cov F x + covers k a x"
    using merge_ok [OF 1(2) _ _ reg, of k a] al k cov order(2) by auto
  obtain s3 F3 where 3: "add_to_free_list k' a' s2 = (Ok (), s3)" "good base F3 s3" "bu_next_slot s2 \<le> bu_next_slot s3"
      "near s3 (cov F3) (\<lambda>x. cov F2 x + covers k' a' x)"
    using add_ok [OF 2(2) _ 2(4)] 2(3) by auto
  let ?s = "s3\<lparr>bs_deallocations := bs_deallocations s3 + 1\<rparr>"
  have "deallocate a sz s = Some (Ok (), ?s)"
    using order(1) 1(1) 2(1) 3(1) by (simp add: deallocate_def seq_def bind_def)
  moreover have "good base F3 ?s" using 3(2) good_cong [of ?s s3 base F3] by simp
  moreover have "near ?s (cov F3) (\<lambda>x. cov F x + covers k a x)" using 3(4) by (simp add: near_def 2(6))
  ultimately show ?thesis using 1(3) 2(5) 3(3) order(2) by auto
qed (use k in \<open>simp add: MAX_ORDER_def\<close>)

section \<open>A client\<close>

text \<open>
  A client allocates and gives back what it holds: it keeps the address and the requested size of each of its
  blocks. \<open>None\<close> as an answer is a call that does not return.
\<close>

datatype buddy_op = BuddyAlloc usize | BuddyFree nat

type_synonym client = "(usize \<times> usize) list"

fun buddy_step :: "buddy_op \<Rightarrow> buddy \<times> client \<Rightarrow> (unit, usize option) result option \<times> (buddy \<times> client)" where
  "buddy_step (BuddyAlloc sz) (s, live) =
     (case allocate sz s of
        (Ok (Some a), s') \<Rightarrow> (Some (Ok (Some a)), (s', (a, sz) # live))
      | (r, s') \<Rightarrow> (Some r, (s', live)))"
| "buddy_step (BuddyFree i) (s, live) =
     (if i < length live then
        (case deallocate (fst (live ! i)) (snd (live ! i)) s of
           None \<Rightarrow> (None, (s, live))
         | Some (r, s') \<Rightarrow> (Some (and_then r (\<lambda>_. Ok None)), (s', take i live @ drop (Suc i) live)))
      else (Some (Ok None), (s, live)))"

definition cov_live :: "client \<Rightarrow> usize \<Rightarrow> nat" where
  "cov_live live x = (\<Sum>(a, sz) \<leftarrow> live. covers (order_of sz) a x)"

definition buddy_inv :: "usize \<Rightarrow> nat \<Rightarrow> buddy \<times> client \<Rightarrow> bool" where
  "buddy_inv base m st \<longleftrightarrow> (case st of (s, live) \<Rightarrow>
     base + blk m < usize_limit
     \<and> (\<forall>(a, sz) \<in> set live. order_of sz \<le> 10 \<and> aligned base (order_of sz) a)
     \<and> (\<exists>F. good base F s \<and> near s (\<lambda>x. cov F x + cov_live live x) (covers m base)))"

lemma cov_live_remove:
  "i < length live \<Longrightarrow> cov_live live x = cov_live (take i live @ drop (Suc i) live) x + covers (order_of (snd (live ! i))) (fst (live ! i)) x"
  by (subst (1) id_take_nth_drop) (auto simp: cov_live_def split: prod.split)

lemma near_trans_eq:
  assumes "near s c1 t" and "near s' c2 c" and "bu_next_slot s \<le> bu_next_slot s'" and "\<And>x. c1 x = c x + d x"
  shows "near s' (\<lambda>x. c2 x + d x) t"
proof -
  have "c2 x + d x \<le> t x \<and> (bu_next_slot s' < 4096 \<longrightarrow> c2 x + d x = t x)" for x
  proof -
    have "c x + d x \<le> t x" "c2 x \<le> c x" "bu_next_slot s < 4096 \<Longrightarrow> c x + d x = t x" "bu_next_slot s' < 4096 \<Longrightarrow> c2 x = c x"
      using assms(1,2) unfolding assms(4) [symmetric] by (simp_all add: near_def)
    then show ?thesis using assms(3) by linarith
  qed
  then show ?thesis by (simp add: near_def)
qed

lemma alloc_step:
  assumes "buddy_inv base m (s, live)"
  shows "buddy_inv base m (snd (buddy_step (BuddyAlloc sz) (s, live)))
    \<and> (sz \<le> 2 ^ 63 \<longrightarrow> (\<exists>r. fst (buddy_step (BuddyAlloc sz) (s, live)) = Some (Ok r)))"
proof (cases "size_to_order (max sz MIN_BLOCK_SIZE) = Panic")
  case False
  obtain F where i: "base + blk m < usize_limit" "good base F s" "near s (\<lambda>x. cov F x + cov_live live x) (covers m base)"
      "\<forall>(a, sz) \<in> set live. order_of sz \<le> 10 \<and> aligned base (order_of sz) a"
    using assms by (auto simp: buddy_inv_def)
  have "cov F x \<le> covers m base x" for x using i(3) by (auto simp: near_def intro: order_trans [OF le_add1])
  from allocate_ok [OF i(2,1) this False] show ?thesis
  proof (elim disjE exE conjE)
    fix s' assume "allocate sz s = (Ok None, s')" "good base F s'" "bu_next_slot s' = bu_next_slot s"
    then show ?thesis using i by (auto simp: buddy_inv_def near_def)
  next
    fix s' a F' assume a: "allocate sz s = (Ok (Some a), s')" "good base F' s'" "bu_next_slot s \<le> bu_next_slot s'"
        "order_of sz \<le> 10" "aligned base (order_of sz) a" "near s' (\<lambda>x. cov F' x + covers (order_of sz) a x) (cov F)"
    have "near s' (\<lambda>x. cov F' x + covers (order_of sz) a x + cov_live live x) (covers m base)"
      by (rule near_trans_eq [OF i(3) a(6,3)]) simp
    then have "near s' (\<lambda>x. cov F' x + cov_live ((a, sz) # live) x) (covers m base)"
      by (simp add: cov_live_def add.assoc)
    then show ?thesis using a i by (auto simp: buddy_inv_def)
  qed
next
  case True
  then have "allocate sz s = (Panic, s)" by (simp add: allocate_def bind_def)
  moreover have "\<not> sz \<le> 2 ^ 63" using True by (cases sz rule: size_to_order_cases) auto
  ultimately show ?thesis using assms by simp
qed

lemma free_step:
  assumes "buddy_inv base m (s, live)"
  shows "buddy_inv base m (snd (buddy_step (BuddyFree i) (s, live))) \<and> fst (buddy_step (BuddyFree i) (s, live)) = Some (Ok None)"
proof (cases "i < length live")
  case True
  let ?a = "fst (live ! i)" and ?sz = "snd (live ! i)" and ?live = "take i live @ drop (Suc i) live"
  obtain F where j: "base + blk m < usize_limit" "good base F s" "near s (\<lambda>x. cov F x + cov_live live x) (covers m base)"
      "\<forall>(a, sz) \<in> set live. order_of sz \<le> 10 \<and> aligned base (order_of sz) a"
    using assms by (auto simp: buddy_inv_def)
  have k: "order_of ?sz \<le> 10" "aligned base (order_of ?sz) ?a" using bspec [OF j(4) nth_mem [OF True]] by (simp_all add: case_prod_unfold)
  have "cov F x + covers (order_of ?sz) ?a x \<le> covers m base x" for x
    using j(3) cov_live_remove [OF True, of x] by (auto simp: near_def dest!: spec [of _ x])
  then obtain s' F' where d: "deallocate ?a ?sz s = Some (Ok (), s')" "good base F' s'" "bu_next_slot s \<le> bu_next_slot s'"
      "near s' (cov F') (\<lambda>x. cov F x + covers (order_of ?sz) ?a x)"
    using deallocate_ok [OF j(2) k(2,1) j(1)] by blast
  have "near s' (\<lambda>x. cov F' x + cov_live ?live x) (covers m base)"
    by (rule near_trans_eq [OF j(3) d(4,3)]) (simp add: cov_live_remove [OF True])
  moreover have "set ?live \<subseteq> set live" by (auto dest: in_set_takeD in_set_dropD)
  ultimately have "buddy_inv base m (s', ?live)" using j(1,4) d(2) by (auto simp: buddy_inv_def simp del: set_append)
  then show ?thesis using True d(1) by simp
qed (use assms in simp)

interpretation bu: op_invariant buddy_step "buddy_inv base m"
proof
  fix st op assume "buddy_inv base m st"
  then show "buddy_inv base m (snd (buddy_step op st))"
    using alloc_step free_step by (cases st; cases op) auto
qed

lemma order_loop_blk:
  assumes "k \<le> m" and "m \<le> 10" shows "order_loop k (blk m) = Ok m"
  using assms
proof (induction rule: inc_induct)
  case base
  then show ?case by (simp add: order_loop.simps MIN_BLOCK_SIZE_def)
next
  case (step k)
  then have "blk k < blk m" by simp
  moreover have "blk k * 2 < usize_limit"
    using power_increasing [of k 10 "2 :: nat"] step by (simp add: usize_limit_def)
  ultimately show ?case using step by (subst order_loop.simps) (simp add: MIN_BLOCK_SIZE_def)
qed

lemma init_ok:
  assumes "m \<le> 10" and "base + blk m < usize_limit"
  shows "\<exists>s. init base (blk m) buddy_new = (Ok (), s) \<and> buddy_inv base m (s, [])"
proof -
  let ?s = "buddy_new\<lparr>bu_base := base, bu_size := blk m\<rparr>"
  have "good base (\<lambda>_. []) ?s" by (simp add: good_def shape_def all_aligned_def buddy_new_def MAX_ORDER_def)
  then obtain s F where a: "add_to_free_list m base ?s = (Ok (), s)" "good base F s" "near s (cov F) (\<lambda>x. cov (\<lambda>_. []) x + covers m base x)"
    using add_ok [of base "\<lambda>_. []" ?s m base] assms(1) by (auto simp: aligned_def)
  have "near s (\<lambda>x. cov F x + cov_live [] x) (covers m base)" using a(3) by (simp add: near_def cov_live_def cov_def)
  then have "buddy_inv base m (s, [])" using a(2) assms(2) by (auto simp: buddy_inv_def)
  moreover have "init base (blk m) buddy_new = (Ok (), s)"
    using a(1) assms(1) by (simp add: init_def seq_def bind_def size_to_order_def order_loop_blk MAX_ORDER_def min_def)
  ultimately show ?thesis by blast
qed

lemma client_inv:
  assumes "m \<le> 10" and "base + blk m < usize_limit"
  shows "buddy_inv base m (snd (run buddy_step ops (snd (init base (blk m) buddy_new), [])))"
  using init_ok [OF assms] bu.inv_run by fastforce

text \<open>What the invariant says about the blocks of the client.\<close>

lemma order_of_enough: "order_of sz \<le> 10 \<Longrightarrow> sz \<le> blk (order_of sz)"
  by (cases sz rule: size_to_order_cases) (auto simp: MAX_ORDER_def)

lemma live_covers:
  assumes "buddy_inv base m (s, live)" and "i < length live" and "fst (live ! i) \<le> x"
    and "x = fst (live ! i) \<or> x < fst (live ! i) + snd (live ! i)"
  shows "covers (order_of (snd (live ! i))) (fst (live ! i)) x = 1"
proof -
  have "order_of (snd (live ! i)) \<le> 10" using assms(1,2) by (auto simp: buddy_inv_def case_prod_unfold)
  then show ?thesis using order_of_enough assms(3,4) by (fastforce simp: covers_def)
qed

lemma cov_live_le: "i < length live \<Longrightarrow> covers (order_of (snd (live ! i))) (fst (live ! i)) x \<le> cov_live live x"
  using cov_live_remove [of i live x] by simp

lemma cov_live_two:
  assumes "i < length live" "j < length live" "i < j"
  shows "covers (order_of (snd (live ! i))) (fst (live ! i)) x + covers (order_of (snd (live ! j))) (fst (live ! j)) x \<le> cov_live live x"
proof -
  let ?l = "take i live @ drop (Suc i) live"
  have "?l ! (j - 1) = live ! j" "j - 1 < length ?l" using assms by (auto simp: nth_append)
  then show ?thesis using cov_live_remove [OF assms(1), of x] cov_live_le [of "j - 1" ?l x] by simp
qed

lemma cov_live_region: "buddy_inv base m (s, live) \<Longrightarrow> cov_live live x \<le> covers m base x"
  by (auto simp: buddy_inv_def near_def intro: order_trans [OF le_add2])

lemma live_region:
  assumes "buddy_inv base m (s, live)" and "i < length live"
  shows "base \<le> fst (live ! i) \<and> fst (live ! i) + snd (live ! i) \<le> base + blk m"
proof -
  let ?k = "order_of (snd (live ! i))" and ?a = "fst (live ! i)"
  have k: "?k \<le> 10" "base \<le> ?a" using assms by (auto simp: buddy_inv_def aligned_def case_prod_unfold)
  have "covers ?k ?a (?a + blk ?k - 1) \<le> covers m base (?a + blk ?k - 1)"
    by (rule order_trans [OF cov_live_le [OF assms(2)] cov_live_region [OF assms(1)]])
  then have "?a + blk ?k \<le> base + blk m" by (rule in_region)
  then show ?thesis using order_of_enough [OF k(1)] k(2) by simp
qed

lemma live_apart:
  assumes inv: "buddy_inv base m (s, live)" and i: "i < length live" and j: "j < length live" and "i < j"
  shows "fst (live ! i) + snd (live ! i) \<le> fst (live ! j) \<or> fst (live ! j) + snd (live ! j) \<le> fst (live ! i)"
proof (rule ccontr)
  let ?x = "max (fst (live ! i)) (fst (live ! j))"
  assume "\<not> ?thesis"
  then have "covers (order_of (snd (live ! i))) (fst (live ! i)) ?x = 1" "covers (order_of (snd (live ! j))) (fst (live ! j)) ?x = 1"
    using live_covers [OF inv i, of ?x] live_covers [OF inv j, of ?x] by (auto simp: max_def)
  then have "2 \<le> cov_live live ?x" using cov_live_two [OF i j assms(4), of ?x] by simp
  also have "\<dots> \<le> 1" using cov_live_region [OF inv, of ?x] by (simp add: covers_def split: if_splits)
  finally show False by simp
qed

text \<open>C37. Memory safety of the buddy allocator: after every sequence of allocations and releases of held blocks,
  any two blocks a client holds are apart, and each lies inside the region the allocator was given.\<close>

theorem buddy_blocks_apart:
  assumes "m \<le> 10" and "base + 4096 * 2 ^ m < usize_limit"
    and "snd (run buddy_step ops (snd (init base (4096 * 2 ^ m) buddy_new), [])) = (s, live)"
  shows "(\<forall>i < length live. base \<le> fst (live ! i) \<and> fst (live ! i) + snd (live ! i) \<le> base + 4096 * 2 ^ m)
    \<and> (\<forall>i < length live. \<forall>j < length live. i \<noteq> j \<longrightarrow>
         fst (live ! i) + snd (live ! i) \<le> fst (live ! j) \<or> fst (live ! j) + snd (live ! j) \<le> fst (live ! i))"
proof -
  have inv: "buddy_inv base m (s, live)" using client_inv [OF assms(1,2), of ops] by (simp only: assms(3))
  have "fst (live ! i) + snd (live ! i) \<le> fst (live ! j) \<or> fst (live ! j) + snd (live ! j) \<le> fst (live ! i)"
    if "i < length live" "j < length live" "i \<noteq> j" for i j
    using live_apart [OF inv that(1,2)] live_apart [OF inv that(2,1)] that(3) by linarith
  then show ?thesis using live_region [OF inv] by blast
qed

theorem buddy_blocks_apart_witness:
  "\<exists>s live. snd (run buddy_step [BuddyAlloc 100, BuddyAlloc 5000, BuddyFree 0, BuddyAlloc 0] (snd (init 1048576 (4096 * 2 ^ 3) buddy_new), [])) = (s, live)
    \<and> (\<forall>i < length live. \<forall>j < length live. i \<noteq> j \<longrightarrow>
         fst (live ! i) + snd (live ! i) \<le> fst (live ! j) \<or> fst (live ! j) + snd (live ! j) \<le> fst (live ! i))"
proof -
  obtain s live where r: "snd (run buddy_step [BuddyAlloc 100, BuddyAlloc 5000, BuddyFree 0, BuddyAlloc 0] (snd (init 1048576 (4096 * 2 ^ 3) buddy_new), [])) = (s, live)"
    by (cases "snd (run buddy_step [BuddyAlloc 100, BuddyAlloc 5000, BuddyFree 0, BuddyAlloc 0] (snd (init 1048576 (4096 * 2 ^ 3) buddy_new), []))")
  show ?thesis using buddy_blocks_apart [OF _ _ r] r by (auto simp: usize_limit_def)
qed

section \<open>Accounting\<close>

lemma count_walk_chain: "chain bl cur xs \<Longrightarrow> count_walk bl cur n = Some (Ok (n + length xs))"
proof (induction xs arbitrary: cur n)
  case Nil
  then show ?case by (simp add: count_walk.simps)
next
  case (Cons x xs)
  obtain sl a where x: "x = (sl, a)" by (cases x)
  then obtain nx where c: "cur = Some sl" "sl < length bl" "bl ! sl = Some \<lparr>fb_addr = a, fb_next = nx\<rparr>" "chain bl nx xs"
    using Cons.prems by (auto simp: chain_Cons)
  then show ?case using Cons.IH [OF c(4), of "n + 1"] unfolding c(1) by (subst count_walk.simps) simp
qed

lemma count_lists_ok:
  "shape F s \<Longrightarrow> \<forall>k \<in> set ks. k < 11 \<Longrightarrow> count_lists s ks = Some (Ok (map (\<lambda>k. length (F k)) ks))"
  by (induction ks) (simp_all add: count_walk_chain [OF shape_chain])

text \<open>The size of a block is the number of addresses it covers.\<close>

lemma sum_covers:
  assumes "finite R" and "{a ..< a + blk k} \<subseteq> R" shows "(\<Sum>x \<in> R. covers k a x) = blk k"
proof -
  have "(\<Sum>x \<in> R. covers k a x) = card {x \<in> R. a \<le> x \<and> x < a + blk k}"
    unfolding covers_def using assms(1) by (simp add: sum.If_cases Int_def)
  also have "{x \<in> R. a \<le> x \<and> x < a + blk k} = {a ..< a + blk k}" using assms(2) by auto
  finally show ?thesis by simp
qed

lemma cov_block: "k < 11 \<Longrightarrow> (sl, a) \<in> set (F k) \<Longrightarrow> covers k a x \<le> cov F x"
proof -
  assume h: "k < 11" "(sl, a) \<in> set (F k)"
  then obtain ys zs where "F k = ys @ (sl, a) # zs" by (blast dest: split_list)
  then show ?thesis using cov_drop [of k F ys sl a zs x] h(1) by linarith
qed

definition free_bytes :: "(nat \<Rightarrow> (usize \<times> usize) list) \<Rightarrow> nat" where
  "free_bytes F = (\<Sum>k < 11. length (F k) * blk k)"

definition live_bytes :: "client \<Rightarrow> nat" where
  "live_bytes live = (\<Sum>(a, sz) \<leftarrow> live. blk (order_of sz))"

lemma covered_range:
  assumes "\<And>x. covers k a x \<le> covers m base x" shows "{a ..< a + blk k} \<subseteq> {base ..< base + blk m}"
proof
  fix x assume "x \<in> {a ..< a + blk k}"
  then have "covers k a x = 1" by (simp add: covers_def)
  then have "covers m base x \<noteq> 0" using assms [of x] by linarith
  then show "x \<in> {base ..< base + blk m}" unfolding covers_def by (metis atLeastLessThan_iff)
qed

lemma sum_sum_list: "(\<Sum>x \<in> R. \<Sum>y \<leftarrow> ys. f y x) = (\<Sum>y \<leftarrow> ys. \<Sum>x \<in> R. f y x)" for f :: "_ \<Rightarrow> _ \<Rightarrow> nat"
  by (induction ys) (simp_all add: sum.distrib)

lemma sum_list_const: "(\<And>y. y \<in> set ys \<Longrightarrow> g y = c) \<Longrightarrow> (\<Sum>y \<leftarrow> ys. g y) = length ys * (c :: nat)"
  by (induction ys) simp_all

lemma sum_cov:
  assumes "\<And>x. cov F x \<le> covers m base x" shows "(\<Sum>x \<in> {base ..< base + blk m}. cov F x) = free_bytes F"
proof -
  have b: "(\<Sum>x \<in> {base ..< base + blk m}. covers k a x) = blk k" if "k < 11" "(sl, a) \<in> set (F k)" for k sl a
    using covered_range [of k a m base] order_trans [OF cov_block [of k sl a F, OF that] assms] by (intro sum_covers) auto
  have "(\<Sum>x \<in> {base ..< base + blk m}. \<Sum>(sl, a) \<leftarrow> F k. covers k a x) = length (F k) * blk k" if "k < 11" for k
    unfolding case_prod_unfold sum_sum_list by (rule sum_list_const) (use b [OF that] in auto)
  then show ?thesis unfolding cov_def free_bytes_def by (subst sum.swap) simp
qed

lemma sum_cov_live:
  assumes "\<And>x. cov_live live x \<le> covers m base x" shows "(\<Sum>x \<in> {base ..< base + blk m}. cov_live live x) = live_bytes live"
proof -
  have b: "(\<Sum>x \<in> {base ..< base + blk m}. covers (order_of (snd y)) (fst y) x) = blk (order_of (snd y))" if y: "y \<in> set live" for y
  proof -
    obtain i where i: "i < length live" "y = live ! i" using y by (metis in_set_conv_nth)
    have "covers (order_of (snd y)) (fst y) x \<le> covers m base x" for x
      using cov_live_le [OF i(1), of x] assms [of x] unfolding i(2) by linarith
    from covered_range [OF this] show ?thesis by (rule sum_covers [rotated]) simp
  qed
  have "(\<Sum>x \<in> {base ..< base + blk m}. cov_live live x) = (\<Sum>y \<leftarrow> live. \<Sum>x \<in> {base ..< base + blk m}. covers (order_of (snd y)) (fst y) x)"
    unfolding cov_live_def case_prod_unfold by (rule sum_sum_list)
  also have "\<dots> = (\<Sum>y \<leftarrow> live. blk (order_of (snd y)))" by (rule arg_cong [of _ _ sum_list], rule map_cong [OF refl], erule b)
  finally show ?thesis by (simp add: live_bytes_def case_prod_unfold)
qed

lemma bytes_conserved:
  assumes "good base F s" and "near s (\<lambda>x. cov F x + cov_live live x) (covers m base)"
  shows "free_bytes F + live_bytes live \<le> blk m \<and> (bu_next_slot s < 4096 \<longrightarrow> free_bytes F + live_bytes live = blk m)"
proof -
  let ?R = "{base ..< base + blk m}"
  have le: "cov F x + cov_live live x \<le> covers m base x" for x using assms(2) by (simp add: near_def)
  have "free_bytes F + live_bytes live = (\<Sum>x \<in> ?R. cov F x + cov_live live x)"
    unfolding sum.distrib sum_cov [OF add_leD1, OF le] sum_cov_live [OF add_leD2, OF le] ..
  moreover have "(\<Sum>x \<in> ?R. covers m base x) = blk m" by (rule sum_covers) simp_all
  moreover have "(\<Sum>x \<in> ?R. cov F x + cov_live live x) \<le> (\<Sum>x \<in> ?R. covers m base x)" by (rule sum_mono) (rule le)
  moreover have "(\<Sum>x \<in> ?R. cov F x + cov_live live x) = (\<Sum>x \<in> ?R. covers m base x)" if "bu_next_slot s < 4096"
    using assms(2) that by (intro sum.cong) (simp_all add: near_def)
  ultimately show ?thesis by simp
qed

lemma free_bytes_sum: "sum_list (map2 (\<lambda>n order. n * order_to_size order) (map (\<lambda>k. length (F k)) [0 ..< MAX_ORDER + 1]) [0 ..< MAX_ORDER + 1]) = free_bytes F"
proof -
  have "sum_list (map2 (\<lambda>n order. n * order_to_size order) (map (\<lambda>k. length (F k)) ks) ks) = (\<Sum>k \<leftarrow> ks. length (F k) * order_to_size k)" for ks
    by (induction ks) simp_all
  moreover have "(\<Sum>k \<leftarrow> [0 ..< 11]. length (F k) * order_to_size k) = (\<Sum>k < 11. length (F k) * order_to_size k)"
    by (simp add: interv_sum_list_conv_sum_set_nat atLeast0LessThan)
  moreover have "(\<Sum>k < 11. length (F k) * order_to_size k) = free_bytes F"
    unfolding free_bytes_def by (rule sum.cong) (simp_all add: order_to_size_blk)
  ultimately show ?thesis by (simp add: MAX_ORDER_def)
qed

lemma buddy_stats_ok:
  assumes "shape F s" and "free_bytes F < usize_limit"
  shows "\<exists>st. buddy_stats s = Some (Ok st) \<and> ba_free_size st = free_bytes F"
  using count_lists_ok [OF assms(1), of "[0 ..< MAX_ORDER + 1]"] assms(2) free_bytes_sum [of F]
  by (simp add: buddy_stats_def MAX_ORDER_def Let_def del: upt_Suc)

lemma outs_ok:
  assumes "buddy_inv base m st" and "\<forall>sz. BuddyAlloc sz \<in> set ops \<longrightarrow> sz \<le> 2 ^ 63" and "out \<in> set (fst (run buddy_step ops st))"
  shows "\<exists>r. out = Some (Ok r)"
  using assms
proof (induction ops arbitrary: st)
  case (Cons op ops)
  obtain s live where st: "st = (s, live)" by (cases st)
  have "\<exists>r. fst (buddy_step op st) = Some (Ok r)"
    using alloc_step [of base m s live] free_step [of base m s live] Cons.prems(1,2) unfolding st by (cases op) auto
  moreover have "buddy_inv base m (snd (buddy_step op st))" by (rule bu.inv_step [OF Cons.prems(1)])
  ultimately show ?case using Cons.IH [of "snd (buddy_step op st)"] Cons.prems(2,3) by (auto simp: run_Cons simp del: run.simps)
qed simp



section \<open>Metadata slots\<close>

text \<open>A region of one page, allocated and released over and over: each release takes a new metadata slot.\<close>

definition no_block :: "nat \<Rightarrow> (usize \<times> usize) list" where "no_block = (\<lambda>_. [])"

definition page :: "usize \<Rightarrow> usize \<Rightarrow> nat \<Rightarrow> (usize \<times> usize) list" where "page slot base = no_block(0 := [(slot, base)])"

abbreviation page_cycle :: "buddy_op list" where "page_cycle \<equiv> [BuddyAlloc 4096, BuddyFree 0]"

lemma order_page: "size_to_order (max 4096 MIN_BLOCK_SIZE) = Ok 0"
  using order_loop_blk [of 0 0] by (simp add: size_to_order_def MIN_BLOCK_SIZE_def)

lemma set_allocated_shape:
  assumes "shape F s" and "bu_base s \<le> a"
  shows "\<exists>s'. set_allocated a v s = (Ok (), s') \<and> shape F s' \<and> bu_next_slot s' = bu_next_slot s \<and> bu_base s' = bu_base s"
proof -
  have "\<exists>bm. set_allocated a v s = (Ok (), s\<lparr>bu_bitmap := bm\<rparr>)"
    using assms(2) by (auto simp: set_allocated_def Let_def intro: exI [of _ "bu_bitmap s"])
  then show ?thesis using assms(1) shape_cong [of "s\<lparr>bu_bitmap := _\<rparr>" s F] by auto
qed

lemma page_alloc:
  assumes "shape (page n base) s" and "bu_base s = base"
  shows "\<exists>s'. allocate 4096 s = (Ok (Some base), s') \<and> shape no_block s' \<and> bu_base s' = base \<and> bu_next_slot s' = bu_next_slot s"
proof -
  have f: "find_free_block 0 s = Some 0"
    using shape_empty [OF assms(1), of 0] by (simp add: find_free_block_def MAX_ORDER_def upt_rec page_def)
  obtain s1 where 1: "remove_from_free_list 0 s = (Ok (Some base), s1)" "shape no_block s1" "bu_next_slot s1 = bu_next_slot s" "bu_base s1 = bu_base s"
    using remove_from_free_list_ok [OF assms(1), of 0 n base "[]"] by (auto simp: page_def no_block_def fun_upd_idem)
  obtain s2 where 2: "set_allocated base True s1 = (Ok (), s2)" "shape no_block s2" "bu_next_slot s2 = bu_next_slot s1" "bu_base s2 = bu_base s1"
    using set_allocated_shape [OF 1(2), of base] assms(2) 1(4) by auto
  let ?s = "s2\<lparr>bs_allocations := bs_allocations s2 + 1\<rparr>"
  have "allocate 4096 s = (Ok (Some base), ?s)"
    using f 1(1) 2(1) by (simp add: allocate_def order_page seq_def bind_def)
  then show ?thesis using 1 2 assms(2) shape_cong [of ?s s2 no_block] by auto
qed

lemma page_free:
  assumes "shape no_block s" and "bu_base s = base" and "base + 4096 < usize_limit"
  shows "\<exists>s'. deallocate base 4096 s = Some (Ok (), s') \<and> bu_base s' = base
     \<and> (if bu_next_slot s < 4096 then shape (page (bu_next_slot s) base) s' \<and> bu_next_slot s' = bu_next_slot s + 1
         else shape no_block s' \<and> bu_next_slot s' = bu_next_slot s)"
proof -
  obtain s1 where 1: "set_allocated base False s = (Ok (), s1)" "shape no_block s1" "bu_next_slot s1 = bu_next_slot s" "bu_base s1 = bu_base s"
    using set_allocated_shape [OF assms(1), of base] assms(2) by auto
  obtain b where b: "buddy_address base 0 s1 = Ok b"
    using buddy_address_ok [of s1 base 0 base] assms(2,3) 1(4) by (auto simp: aligned_def)
  have "is_free_at_order b 0 s1 = Some (Ok False)"
    using free_walk_chain [OF shape_chain [OF 1(2)], of 0 b] shape_len [OF 1(2)] by (simp add: is_free_at_order_def no_block_def)
  then have m: "merge_loop 0 base s1 = Some (Ok (0, base), s1)"
    using b by (subst merge_loop.simps) (simp add: MAX_ORDER_def)
  have d: "deallocate base 4096 s = Some (seq (add_to_free_list 0 base) (modify (\<lambda>s. s\<lparr>bs_deallocations := bs_deallocations s + 1\<rparr>)) s1)"
    using 1(1) m by (simp add: deallocate_def order_page)
  show ?thesis
  proof (cases "bu_next_slot s < 4096")
    case True
    define s2 where "s2 = s1\<lparr>bu_next_slot := bu_next_slot s1 + 1,
         bu_blocks := (bu_blocks s1)[bu_next_slot s1 := Some \<lparr>fb_addr = base, fb_next = bu_free_lists s1 ! 0\<rparr>],
         bu_free_lists := (bu_free_lists s1)[0 := Some (bu_next_slot s1)]\<rparr>"
    let ?s = "s2\<lparr>bs_deallocations := bs_deallocations s2 + 1\<rparr>"
    have "no_block 0 = []" by (simp add: no_block_def)
    then have "shape (page (bu_next_slot s) base) s2"
      using shape_add [OF 1(2), of 0 base] True 1(3) unfolding s2_def page_def by simp
    then have "shape (page (bu_next_slot s) base) ?s" using shape_cong [of ?s s2] by simp
    moreover have "add_to_free_list 0 base s1 = (Ok (), s2)"
      using True 1(3) shape_len [OF 1(2)] by (auto simp: add_to_free_list_def s2_def Let_def)
    moreover have "bu_base ?s = base" "bu_next_slot ?s = bu_next_slot s + 1" using 1(3,4) assms(2) by (simp_all add: s2_def)
    ultimately show ?thesis unfolding d using True by (auto simp: seq_def bind_def)
  next
    case False
    let ?s = "s1\<lparr>bs_deallocations := bs_deallocations s1 + 1\<rparr>"
    have "add_to_free_list 0 base s1 = (Ok (), s1)" using False 1(3) shape_len [OF 1(2)] by (simp add: add_to_free_list_def)
    moreover have "shape no_block ?s" using 1(2) shape_cong [of ?s s1] by simp
    ultimately show ?thesis unfolding d using False 1(3,4) assms(2) by (auto simp: seq_def bind_def)
  qed
qed

lemma page_cycle_run:
  assumes "shape (page n base) s" and "bu_base s = base" and "base + 4096 < usize_limit"
  shows "\<exists>outs s'. run buddy_step page_cycle (s, []) = (outs, (s', [])) \<and> bu_base s' = base
     \<and> (if bu_next_slot s < 4096 then shape (page (bu_next_slot s) base) s' \<and> bu_next_slot s' = bu_next_slot s + 1
         else shape no_block s' \<and> bu_next_slot s' = bu_next_slot s)"
proof -
  obtain s1 where 1: "allocate 4096 s = (Ok (Some base), s1)" "shape no_block s1" "bu_base s1 = base" "bu_next_slot s1 = bu_next_slot s"
    using page_alloc [OF assms(1,2)] by auto
  obtain s2 where 2: "deallocate base 4096 s1 = Some (Ok (), s2)" "bu_base s2 = base"
      "if bu_next_slot s < 4096 then shape (page (bu_next_slot s) base) s2 \<and> bu_next_slot s2 = bu_next_slot s + 1
         else shape no_block s2 \<and> bu_next_slot s2 = bu_next_slot s"
    using page_free [OF 1(2,3) assms(3)] unfolding 1(4) by blast
  have "run buddy_step page_cycle (s, []) = ([Some (Ok (Some base)), Some (Ok None)], (s2, []))"
    using 1(1) 2(1) by simp
  with 2(2,3) show ?thesis by blast
qed

lemma page_cycles:
  assumes "base + 4096 < usize_limit" and "shape (page 0 base) s" and "bu_base s = base" and "bu_next_slot s = 1" and "n < 4096"
  shows "\<exists>outs s'. run buddy_step (concat (replicate n page_cycle)) (s, []) = (outs, (s', [])) \<and> bu_base s' = base
     \<and> shape (page n base) s' \<and> bu_next_slot s' = n + 1"
  using assms(5)
proof (induction n)
  case 0
  then show ?case using assms by simp
next
  case (Suc n)
  then obtain outs s1 where 1: "run buddy_step (concat (replicate n page_cycle)) (s, []) = (outs, (s1, []))" "bu_base s1 = base"
      "shape (page n base) s1" "bu_next_slot s1 = n + 1" by auto
  obtain outs' s2 where 2: "run buddy_step page_cycle (s1, []) = (outs', (s2, []))" "bu_base s2 = base"
      "shape (page (Suc n) base) s2" "bu_next_slot s2 = Suc (Suc n)"
    using page_cycle_run [OF 1(3,2) assms(1)] 1(4) Suc.prems by auto
  have "concat (replicate (Suc n) page_cycle) = concat (replicate n page_cycle) @ page_cycle"
    by (simp add: replicate_append_same [symmetric] del: replicate_append_same)
  then show ?case using 1(1) 2 by (simp add: run_append)
qed

text \<open>C39. Metadata slots are never given back: with a region of a single page, after that page was allocated and
  released 4096 times nothing is held by anyone, and yet the next allocation fails, because the last release found no
  slot and dropped the page.\<close>

theorem buddy_slots_run_out:
  assumes "base + 4096 < usize_limit"
  shows "\<exists>outs s. run buddy_step (concat (replicate 4096 [BuddyAlloc 4096, BuddyFree 0]) @ [BuddyAlloc 4096]) (snd (init base 4096 buddy_new), [])
     = (outs @ [Some (Ok None)], (s, []))"
proof -
  let ?s = "buddy_new\<lparr>bu_base := base, bu_size := 4096\<rparr>"
  have "shape no_block ?s" by (simp add: shape_def buddy_new_def no_block_def MAX_ORDER_def)
  moreover have "no_block 0 = []" by (simp add: no_block_def)
  ultimately obtain s0 where s0: "init base 4096 buddy_new = (Ok (), s0)" "shape (page 0 base) s0" "bu_base s0 = base" "bu_next_slot s0 = 1"
    using shape_add [of no_block ?s 0 base] order_page
    by (auto simp: init_def seq_def bind_def add_to_free_list_def MIN_BLOCK_SIZE_def page_def buddy_new_def MAX_ORDER_def)
  obtain outs s1 where 1: "run buddy_step (concat (replicate 4095 page_cycle)) (s0, []) = (outs, (s1, []))" "bu_base s1 = base"
      "shape (page 4095 base) s1" "bu_next_slot s1 = 4096"
    using page_cycles [OF assms s0(2,3,4), of 4095] by auto
  obtain outs' s2 where 2: "run buddy_step page_cycle (s1, []) = (outs', (s2, []))" "shape no_block s2"
    using page_cycle_run [OF 1(3,2) assms] 1(4) by auto
  have "find_free_block 0 s2 = None" using find_free(1) [OF 2(2)] by (simp add: no_block_def)
  then have 3: "allocate 4096 s2 = (Ok None, s2)" by (simp add: allocate_def order_page bind_def)
  have n: "(4096 :: nat) = Suc 4095" by simp
  have "concat (replicate 4096 page_cycle) = concat (replicate 4095 page_cycle) @ page_cycle"
    unfolding n by (simp only: replicate_append_same [symmetric] replicate_Suc concat_append concat.simps append_Nil2)
  moreover have "run buddy_step (concat (replicate 4095 page_cycle) @ page_cycle) (s0, []) = (outs @ outs', (s2, []))"
    unfolding run_append 1(1) snd_conv fst_conv 2(1) ..
  ultimately have "run buddy_step (concat (replicate 4096 page_cycle) @ [BuddyAlloc 4096]) (s0, []) = ((outs @ outs') @ [Some (Ok None)], (s2, []))"
    unfolding run_append [of _ _ "[_]"] using 3 by simp
  then show ?thesis unfolding s0(1) snd_conv by blast
qed

theorem buddy_slots_run_out_witness:
  "\<exists>outs s. run buddy_step (concat (replicate 4096 [BuddyAlloc 4096, BuddyFree 0]) @ [BuddyAlloc 4096]) (snd (init 1048576 4096 buddy_new), [])
     = (outs @ [Some (Ok None)], (s, []))"
  by (rule buddy_slots_run_out) (simp add: usize_limit_def)

end
