(* ===== verification/Elf.thy ===== *)
theory Elf
  imports Prelude
begin

unbundle bit_operations_syntax

text \<open>
  The ELF64 loader (kernel/src/loader/elf.rs): from the bytes of a file to the description of the program
  to load. The headers are read from their packed little-endian layout; \<open>usize\<close> and \<open>u64\<close> quantities that
  the code adds are natural numbers with the overflow written out. The properties say what a parsed program
  guarantees to the code that maps its segments, and exactly when parsing panics.
\<close>

section \<open>Headers\<close>

record elf_header =
  e_ident :: "u8 list"
  e_type :: u16
  e_machine :: u16
  e_version :: u32
  e_entry :: u64
  e_phoff :: u64
  e_shoff :: u64
  e_flags :: u32
  e_ehsize :: u16
  e_phentsize :: u16
  e_phnum :: u16
  e_shentsize :: u16
  e_shnum :: u16
  e_shstrndx :: u16

record program_header =
  p_type :: u32
  p_flags :: u32
  p_offset :: u64
  p_vaddr :: u64
  p_paddr :: u64
  p_filesz :: u64
  p_memsz :: u64
  p_align :: u64

record load_segment =
  ls_vaddr :: u64
  ls_mem_size :: u64
  ls_file_offset :: u64
  ls_file_size :: u64
  ls_flags :: u32
  ls_align :: u64

record loaded_program =
  lp_entry_point :: u64
  lp_base_address :: u64
  lp_phdr_vaddr :: "u64 option"
  lp_phdr_count :: u16
  lp_segments :: "load_segment list"
  lp_min_vaddr :: u64
  lp_max_vaddr :: u64
  lp_total_size :: u64
  lp_is_pie :: bool
  lp_interpreter :: "string option"

datatype elf_error =
    TooSmall | InvalidMagic | InvalidClass | InvalidEncoding | InvalidVersion | InvalidType | InvalidMachine
  | InvalidPhoff | InvalidPhentsize | InvalidPhnum | SegmentOutOfBounds | InvalidAlignment | OverlappingSegments
  | NoLoadableSegments | InvalidMemSize | InvalidInterpreter

text \<open>\<open>is_readable\<close>, \<open>is_writable\<close>, \<open>is_executable\<close> test the bits 4, 2 and 1 of the flags.\<close>

abbreviation is_readable :: "load_segment \<Rightarrow> bool" where
  "is_readable s \<equiv> ls_flags s AND 4 \<noteq> 0"

abbreviation is_writable :: "load_segment \<Rightarrow> bool" where
  "is_writable s \<equiv> ls_flags s AND 2 \<noteq> 0"

abbreviation is_executable :: "load_segment \<Rightarrow> bool" where
  "is_executable s \<equiv> ls_flags s AND 1 \<noteq> 0"

text \<open>\<open>read_unaligned\<close> of the packed structs: each field at its offset, little endian.\<close>

definition le_at :: "u8 list \<Rightarrow> usize \<Rightarrow> nat \<Rightarrow> 'a::len word" where
  "le_at binary off n = from_le (take n (drop off binary))"

definition read_elf_header :: "u8 list \<Rightarrow> elf_header" where
  "read_elf_header b = \<lparr>e_ident = take 16 b, e_type = le_at b 16 2, e_machine = le_at b 18 2, e_version = le_at b 20 4,
     e_entry = le_at b 24 8, e_phoff = le_at b 32 8, e_shoff = le_at b 40 8, e_flags = le_at b 48 4, e_ehsize = le_at b 52 2,
     e_phentsize = le_at b 54 2, e_phnum = le_at b 56 2, e_shentsize = le_at b 58 2, e_shnum = le_at b 60 2, e_shstrndx = le_at b 62 2\<rparr>"

definition read_program_header :: "u8 list \<Rightarrow> usize \<Rightarrow> program_header" where
  "read_program_header b off = \<lparr>p_type = le_at b off 4, p_flags = le_at b (off + 4) 4, p_offset = le_at b (off + 8) 8,
     p_vaddr = le_at b (off + 16) 8, p_paddr = le_at b (off + 24) 8, p_filesz = le_at b (off + 32) 8,
     p_memsz = le_at b (off + 40) 8, p_align = le_at b (off + 48) 8\<rparr>"

section \<open>Parsing\<close>

definition elf_parse_header :: "u8 list \<Rightarrow> (elf_error, elf_header) result" where
  "elf_parse_header binary = (if length binary < 64 then Err TooSmall else Ok (read_elf_header binary))"

definition validate_header :: "elf_header \<Rightarrow> (elf_error, unit) result" where
  "validate_header h =
     (if take 4 (e_ident h) \<noteq> [0x7F, 0x45, 0x4C, 0x46] then Err InvalidMagic
      else if e_ident h ! 4 \<noteq> 2 then Err InvalidClass
      else if e_ident h ! 5 \<noteq> 1 then Err InvalidEncoding
      else if e_ident h ! 6 \<noteq> 1 then Err InvalidVersion
      else if e_type h \<noteq> 2 \<and> e_type h \<noteq> 3 then Err InvalidType
      else if e_machine h \<noteq> 62 then Err InvalidMachine
      else if e_phentsize h \<noteq> 56 then Err InvalidPhentsize
      else Ok ())"

definition validate_segment :: "program_header \<Rightarrow> usize \<Rightarrow> (elf_error, unit) result" where
  "validate_segment ph file_size =
     (if p_memsz ph < p_filesz ph then Err InvalidMemSize
      else if unat (p_offset ph) + unat (p_filesz ph) \<ge> 2 ^ 64 then Err SegmentOutOfBounds
      else if unat (p_offset ph) + unat (p_filesz ph) > file_size then Err SegmentOutOfBounds
      else if p_align ph > 1 \<and> count_ones (p_align ph) \<noteq> 1 then Err InvalidAlignment
      else Ok ())"

definition ph_offset :: "elf_header \<Rightarrow> nat \<Rightarrow> usize" where
  "ph_offset h i = unat (e_phoff h) + i * unat (e_phentsize h)"

definition segment_of :: "program_header \<Rightarrow> load_segment" where
  "segment_of ph = \<lparr>ls_vaddr = p_vaddr ph, ls_mem_size = p_memsz ph, ls_file_offset = p_offset ph, ls_file_size = p_filesz ph,
     ls_flags = p_flags ph, ls_align = p_align ph\<rparr>"

text \<open>The loop over the table, from entry \<open>i\<close> on; \<open>PT_LOAD\<close> is 1.\<close>

fun load_entries :: "u8 list \<Rightarrow> elf_header \<Rightarrow> nat list \<Rightarrow> (elf_error, load_segment list) result" where
  "load_entries binary h [] = Ok []"
| "load_entries binary h (i # is') =
     (let ph = read_program_header binary (ph_offset h i) in
      if p_type ph \<noteq> 1 then load_entries binary h is'
      else and_then (validate_segment ph (length binary)) (\<lambda>_.
        and_then (load_entries binary h is') (\<lambda>segs. Ok (segment_of ph # segs))))"

text \<open>The overlap check of neighbours in the sorted list.\<close>

fun check_overlap :: "load_segment list \<Rightarrow> (elf_error, unit) result" where
  "check_overlap (a # b # segs) =
     (if unat (ls_vaddr a) + unat (ls_mem_size a) \<ge> 2 ^ 64 then Panic
      else if unat (ls_vaddr b) < unat (ls_vaddr a) + unat (ls_mem_size a) then Err OverlappingSegments
      else check_overlap (b # segs))"
| "check_overlap segs = Ok ()"

definition parse_program_headers :: "u8 list \<Rightarrow> elf_header \<Rightarrow> (elf_error, load_segment list) result" where
  "parse_program_headers binary h =
     (let phnum = unat (e_phnum h); table = phnum * unat (e_phentsize h) in
      if table \<ge> usize_limit then Err InvalidPhnum
      else if unat (e_phoff h) + table \<ge> usize_limit then Err InvalidPhoff
      else if unat (e_phoff h) + table > length binary then Err InvalidPhoff
      else and_then (load_entries binary h [0 ..< phnum]) (\<lambda>segs.
        let segs = sort_key ls_vaddr segs in and_then (check_overlap segs) (\<lambda>_. Ok segs)))"

text \<open>\<open>PT_PHDR\<close> is 6.\<close>

definition find_phdr_vaddr :: "u8 list \<Rightarrow> elf_header \<Rightarrow> u64 option" where
  "find_phdr_vaddr binary h =
     map_option (\<lambda>i. p_vaddr (read_program_header binary (ph_offset h i)))
       (find (\<lambda>i. p_type (read_program_header binary (ph_offset h i)) = 6) [0 ..< unat (e_phnum h)])"

text \<open>\<open>PT_INTERP\<close> is 3.\<close>

definition interpreter_path :: "u8 list \<Rightarrow> program_header \<Rightarrow> (elf_error, string option) result" where
  "interpreter_path binary ph =
     (let offset = unat (p_offset ph); size' = unat (p_filesz ph) in
      if offset + size' \<ge> usize_limit then Panic
      else if offset + size' > length binary then Err InvalidInterpreter
      else let path_bytes = get_slice binary offset size'; path = takeWhile (\<lambda>b. b \<noteq> 0) path_bytes in
        if length path = 0 \<or> length path > 255 then Err InvalidInterpreter
        else if utf8_valid path then Ok (Some (string_of_bytes path)) else Err InvalidInterpreter)"

definition find_interpreter :: "u8 list \<Rightarrow> elf_header \<Rightarrow> (elf_error, string option) result" where
  "find_interpreter binary h =
     (case find (\<lambda>i. p_type (read_program_header binary (ph_offset h i)) = 3) [0 ..< unat (e_phnum h)] of
        None \<Rightarrow> Ok None
      | Some i \<Rightarrow> interpreter_path binary (read_program_header binary (ph_offset h i)))"

definition segment_end :: "load_segment \<Rightarrow> nat" where
  "segment_end s = unat (ls_vaddr s) + unat (ls_mem_size s)"

definition elf_parse :: "u8 list \<Rightarrow> (elf_error, loaded_program) result" where
  "elf_parse binary =
     (if length binary < 64 then Err TooSmall
      else and_then (elf_parse_header binary) (\<lambda>h. and_then (validate_header h) (\<lambda>_.
        and_then (parse_program_headers binary h) (\<lambda>segments.
        if segments = [] then Err NoLoadableSegments
        else if \<exists>s \<in> set segments. segment_end s \<ge> 2 ^ 64 then Panic
        else let min_vaddr = Min (set (map ls_vaddr segments)); max_vaddr = Max (set (map segment_end segments)) in
          and_then (find_interpreter binary h) (\<lambda>interpreter.
          Ok \<lparr>lp_entry_point = e_entry h, lp_base_address = 0, lp_phdr_vaddr = find_phdr_vaddr binary h,
              lp_phdr_count = e_phnum h, lp_segments = segments, lp_min_vaddr = min_vaddr, lp_max_vaddr = of_nat max_vaddr,
              lp_total_size = of_nat max_vaddr - min_vaddr, lp_is_pie = (e_type h = 3), lp_interpreter = interpreter\<rparr>)))))"

definition get_segment_data :: "u8 list \<Rightarrow> load_segment \<Rightarrow> (unit, u8 list) result" where
  "get_segment_data binary s =
     (let start = unat (ls_file_offset s); stop = start + unat (ls_file_size s) in
      if stop \<ge> usize_limit \<or> stop > length binary then Panic else Ok (get_slice binary start (unat (ls_file_size s))))"

section \<open>What a parsed program guarantees\<close>

lemma validate_segment_Ok:
  "validate_segment ph n = Ok () \<longleftrightarrow> p_filesz ph \<le> p_memsz ph \<and> unat (p_offset ph) + unat (p_filesz ph) \<le> n
     \<and> unat (p_offset ph) + unat (p_filesz ph) < 2 ^ 64 \<and> (p_align ph > 1 \<longrightarrow> count_ones (p_align ph) = 1)"
  by (auto simp: validate_segment_def not_less not_le)

lemma load_entries_Ok:
  assumes "load_entries binary h is' = Ok segs" and "s \<in> set segs"
  shows "\<exists>i \<in> set is'. let ph = read_program_header binary (ph_offset h i) in p_type ph = 1 \<and> s = segment_of ph \<and> validate_segment ph (length binary) = Ok ()"
  using assms by (induction is' arbitrary: segs) (auto simp: Let_def split: if_splits)

lemma check_overlap_sorted:
  assumes "check_overlap segs = Ok ()" and "sorted (map ls_vaddr segs)" and "i < j" and "j < length segs"
  shows "segment_end (segs ! i) \<le> unat (ls_vaddr (segs ! j))"
  using assms
proof (induction segs arbitrary: i j rule: check_overlap.induct)
  case (1 a b segs)
  obtain k where j: "j = Suc k" using 1(4) by (cases j) auto
  have ab: "segment_end a \<le> unat (ls_vaddr b)" "check_overlap (b # segs) = Ok ()"
    using 1(2) by (auto simp: segment_end_def split: if_splits)
  show ?case
  proof (cases i)
    case 0
    have "ls_vaddr b \<le> ls_vaddr ((b # segs) ! k)"
      using 1(3,5) j by (cases k) (auto simp: word_le_nat_alt)
    then show ?thesis using ab(1) by (simp add: 0 j word_le_nat_alt)
  next
    case (Suc i')
    then show ?thesis using 1 ab(2) j by (auto split: if_splits)
  qed
qed auto

lemma get_segment_data_ok:
  "unat (ls_file_offset s) + unat (ls_file_size s) \<le> length binary \<Longrightarrow> unat (ls_file_offset s) + unat (ls_file_size s) < 2 ^ 64 \<Longrightarrow>
   get_segment_data binary s = Ok (get_slice binary (unat (ls_file_offset s)) (unat (ls_file_size s)))"
  by (simp add: get_segment_data_def usize_limit_def)

lemma elf_parse_Ok:
  assumes "elf_parse binary = Ok p"
  obtains h segs where "parse_program_headers binary h = Ok segs" "lp_segments p = segs" "segs \<noteq> []"
    "\<forall>s \<in> set segs. segment_end s < 2 ^ 64" "lp_min_vaddr p = Min (set (map ls_vaddr segs))" "unat (lp_max_vaddr p) = Max (set (map segment_end segs))"
proof -
  from assms obtain h segs where *: "parse_program_headers binary h = Ok segs" "segs \<noteq> []" "\<forall>s \<in> set segs. segment_end s < 2 ^ 64"
      "lp_segments p = segs" "lp_min_vaddr p = Min (set (map ls_vaddr segs))" "lp_max_vaddr p = of_nat (Max (set (map segment_end segs)))"
    by (auto simp: elf_parse_def Let_def not_le split: if_splits)
  have "Max (set (map segment_end segs)) < 2 ^ 64" using *(2,3) by (subst Max_less_iff) auto
  then have "unat (lp_max_vaddr p) = Max (set (map segment_end segs))" unfolding *(6) by (intro unat_of_nat_small) simp
  then show thesis using * that by blast
qed


definition minimal_elf :: "u8 list" where
  "minimal_elf =
    [0x7f, 0x45, 0x4c, 0x46, 2, 1, 1, 0, 0, 0, 0, 0, 0, 0, 0, 0, 2, 0, 0x3e, 0, 1, 0, 0, 0,
     0, 0, 0x40, 0, 0, 0, 0, 0, 0x40, 0, 0, 0, 0, 0, 0, 0, 0, 0, 0, 0, 0, 0, 0, 0,
     0, 0, 0, 0, 0x40, 0, 0x38, 0, 1, 0, 0, 0, 0, 0, 0, 0, 1, 0, 0, 0, 5, 0, 0, 0,
     0, 0, 0, 0, 0, 0, 0, 0, 0, 0, 0x40, 0, 0, 0, 0, 0, 0, 0, 0x40, 0, 0, 0, 0, 0,
     0x78, 0, 0, 0, 0, 0, 0, 0, 0x78, 0, 0, 0, 0, 0, 0, 0, 0, 0x10, 0, 0, 0, 0, 0, 0]"

lemma minimal_elf_header:
  "read_elf_header minimal_elf = \<lparr>e_ident = take 16 minimal_elf, e_type = 2, e_machine = 62, e_version = 1,
     e_entry = 0x400000, e_phoff = 64, e_shoff = 0, e_flags = 0, e_ehsize = 64,
     e_phentsize = 56, e_phnum = 1, e_shentsize = 0, e_shnum = 0, e_shstrndx = 0\<rparr>"
  by (simp add: read_elf_header_def le_at_def minimal_elf_def)

lemma minimal_elf_program_header:
  "read_program_header minimal_elf 64 = \<lparr>p_type = 1, p_flags = 5, p_offset = 0,
     p_vaddr = 0x400000, p_paddr = 0x400000, p_filesz = 120, p_memsz = 120, p_align = 0x1000\<rparr>"
  by (simp add: read_program_header_def le_at_def minimal_elf_def)

lemma count_ones_4096: "count_ones (0x1000 :: u64) = 1"
proof -
  have w: "(0x1000 :: u64) = 2 ^ 12" by simp
  have "bit (2 ^ 12 :: u64) i \<longleftrightarrow> i = 12" for i unfolding bit_exp_iff by auto
  then have "{i. bit (2 ^ 12 :: u64) i} = {12}" by blast
  then show ?thesis unfolding w count_ones_card by (simp only: is_singletonI card_1_singleton_iff) simp
qed


section \<open>Panics\<close>

lemma load_entries_no_panic: "load_entries binary h is' \<noteq> Panic"
proof (induction is')
  case (Cons i is')
  have "validate_segment ph n \<noteq> Panic" for ph n by (simp add: validate_segment_def)
  then show ?case using Cons
    by (cases "validate_segment (read_program_header binary (ph_offset h i)) (length binary)"; cases "load_entries binary h is'")
      (auto simp: Let_def)
qed simp

lemma check_overlap_panic: "check_overlap segs = Panic \<Longrightarrow> \<exists>s \<in> set segs. segment_end s \<ge> 2 ^ 64"
  by (induction segs rule: check_overlap.induct) (auto simp: segment_end_def split: if_splits)

text \<open>A segment whose memory range runs past the address space, or an interpreter entry whose file range does.\<close>

definition wraps :: "program_header \<Rightarrow> bool" where
  "wraps ph \<longleftrightarrow> p_type ph = 1 \<and> unat (p_vaddr ph) + unat (p_memsz ph) \<ge> 2 ^ 64
     \<or> p_type ph = 3 \<and> unat (p_offset ph) + unat (p_filesz ph) \<ge> 2 ^ 64"

lemma segment_wraps:
  assumes "load_entries binary h [0 ..< n] = Ok segs" and "s \<in> set segs" and "segment_end s \<ge> 2 ^ 64"
  shows "\<exists>i < n. wraps (read_program_header binary (ph_offset h i))"
  using load_entries_Ok [OF assms(1,2)] assms(3) by (auto simp: Let_def wraps_def segment_end_def segment_of_def)

lemma headers_panic:
  assumes "parse_program_headers binary h = Panic"
  shows "\<exists>i < unat (e_phnum h). wraps (read_program_header binary (ph_offset h i))"
proof (cases "load_entries binary h [0 ..< unat (e_phnum h)]")
  case (Ok segs)
  then have "check_overlap (sort_key ls_vaddr segs) = Panic"
    using assms by (cases "check_overlap (sort_key ls_vaddr segs)") (auto simp: parse_program_headers_def Let_def split: if_splits)
  then show ?thesis using check_overlap_panic segment_wraps [OF Ok] by fastforce
qed (use assms load_entries_no_panic in \<open>auto simp: parse_program_headers_def Let_def split: if_splits\<close>)

lemma interpreter_panic:
  assumes "find_interpreter binary h = Panic"
  shows "\<exists>i < unat (e_phnum h). wraps (read_program_header binary (ph_offset h i))"
proof -
  obtain i where i: "find (\<lambda>i. p_type (read_program_header binary (ph_offset h i)) = 3) [0 ..< unat (e_phnum h)] = Some i"
      "interpreter_path binary (read_program_header binary (ph_offset h i)) = Panic"
    using assms by (auto simp: find_interpreter_def split: option.splits)
  then have "i < unat (e_phnum h)" "p_type (read_program_header binary (ph_offset h i)) = 3"
    by (auto simp: find_Some_iff)
  moreover have "unat (p_offset (read_program_header binary (ph_offset h i))) + unat (p_filesz (read_program_header binary (ph_offset h i))) \<ge> 2 ^ 64"
    using i(2) by (auto simp: interpreter_path_def Let_def usize_limit_def split: if_splits)
  ultimately show ?thesis by (auto simp: wraps_def)
qed

text \<open>Panics of the loader: parsing a file panics only when some entry of its table wraps around the address
  space, a loadable segment with its memory range or an interpreter entry with its file range; the file of the
  witness does, although every other field of it is valid. Every other malformed file is reported as an error.\<close>

theorem elf_panics_on_wrap:
  assumes "elf_parse binary = Panic"
  shows "\<exists>i < unat (e_phnum (read_elf_header binary)). wraps (read_program_header binary (ph_offset (read_elf_header binary) i))"
proof -
  let ?h = "read_elf_header binary"
  have p: "elf_parse_header binary \<noteq> Panic" "validate_header h \<noteq> Panic" for h by (simp_all add: elf_parse_header_def validate_header_def)
  consider "parse_program_headers binary ?h = Panic" | "find_interpreter binary ?h = Panic"
    | segs where "parse_program_headers binary ?h = Ok segs" "\<exists>s \<in> set segs. segment_end s \<ge> 2 ^ 64"
  proof -
    have "elf_parse_header binary = Ok ?h" using assms by (auto simp: elf_parse_def elf_parse_header_def split: if_splits)
    moreover have "validate_header ?h = Ok ()"
      using assms calculation p(2) [of ?h] by (cases "validate_header ?h") (auto simp: elf_parse_def split: if_splits)
    ultimately show thesis using assms that
      by (cases "parse_program_headers binary ?h"; cases "find_interpreter binary ?h") (auto simp: elf_parse_def Let_def split: if_splits)
  qed
  then show ?thesis
  proof cases
    case 3
    then obtain es where "load_entries binary ?h [0 ..< unat (e_phnum ?h)] = Ok es" "segs = sort_key ls_vaddr es"
      by (auto simp: parse_program_headers_def Let_def split: if_splits)
    then show ?thesis using 3(2) segment_wraps by fastforce
  qed (use headers_panic interpreter_panic in blast)+
qed

definition wrapping_elf :: "u8 list" where
  "wrapping_elf =
    [0x7f, 0x45, 0x4c, 0x46, 2, 1, 1, 0, 0, 0, 0, 0, 0, 0, 0, 0, 2, 0, 0x3e, 0, 1, 0, 0, 0,
     0, 0, 0x40, 0, 0, 0, 0, 0, 0x40, 0, 0, 0, 0, 0, 0, 0, 0, 0, 0, 0, 0, 0, 0, 0,
     0, 0, 0, 0, 0x40, 0, 0x38, 0, 1, 0, 0, 0, 0, 0, 0, 0, 1, 0, 0, 0, 5, 0, 0, 0,
     0, 0, 0, 0, 0, 0, 0, 0, 0, 0xf0, 0xff, 0xff, 0xff, 0xff, 0xff, 0xff, 0, 0xf0, 0xff, 0xff, 0xff, 0xff, 0xff, 0xff,
     0x78, 0, 0, 0, 0, 0, 0, 0, 0, 0x20, 0, 0, 0, 0, 0, 0, 0, 0x10, 0, 0, 0, 0, 0, 0]"

lemma wrapping_elf_header:
  "read_elf_header wrapping_elf = \<lparr>e_ident = take 16 wrapping_elf, e_type = 2, e_machine = 62, e_version = 1,
     e_entry = 0x400000, e_phoff = 64, e_shoff = 0, e_flags = 0, e_ehsize = 64,
     e_phentsize = 56, e_phnum = 1, e_shentsize = 0, e_shnum = 0, e_shstrndx = 0\<rparr>"
  by (simp add: read_elf_header_def le_at_def wrapping_elf_def)

lemma wrapping_elf_program_header:
  "read_program_header wrapping_elf 64 = \<lparr>p_type = 1, p_flags = 5, p_offset = 0,
     p_vaddr = 0xFFFFFFFFFFFFF000, p_paddr = 0xFFFFFFFFFFFFF000, p_filesz = 120, p_memsz = 0x2000, p_align = 0x1000\<rparr>"
  by (simp add: read_program_header_def le_at_def wrapping_elf_def)

lemma wrapping_elf_panics: "elf_parse wrapping_elf = Panic"
proof -
  have len: "length wrapping_elf = 120" by (simp add: wrapping_elf_def)
  have id: "take 4 (take 16 wrapping_elf) = [0x7F, 0x45, 0x4C, 0x46]" "take 16 wrapping_elf ! 4 = 2" "take 16 wrapping_elf ! 5 = 1" "take 16 wrapping_elf ! 6 = 1"
    by (simp_all add: wrapping_elf_def)
  have valid: "elf_parse_header wrapping_elf = Ok (read_elf_header wrapping_elf)" "validate_header (read_elf_header wrapping_elf) = Ok ()"
    using len id by (simp_all add: elf_parse_header_def validate_header_def wrapping_elf_header)
  have "validate_segment (read_program_header wrapping_elf 64) 120 = Ok ()"
    by (simp add: validate_segment_def wrapping_elf_program_header count_ones_4096)
  then have "parse_program_headers wrapping_elf (read_elf_header wrapping_elf) = Ok [segment_of (read_program_header wrapping_elf 64)]"
    using len by (simp add: parse_program_headers_def wrapping_elf_header ph_offset_def usize_limit_def) (simp add: wrapping_elf_program_header)
  then show ?thesis
    using len valid by (simp add: elf_parse_def segment_end_def segment_of_def) (simp add: wrapping_elf_program_header)
qed

theorem elf_panics_on_wrap_witness:
  "elf_parse wrapping_elf = Panic
   \<and> (\<exists>i < unat (e_phnum (read_elf_header wrapping_elf)). wraps (read_program_header wrapping_elf (ph_offset (read_elf_header wrapping_elf) i)))"
  using wrapping_elf_panics elf_panics_on_wrap [OF wrapping_elf_panics] by blast

end
