(* ===== verification/Memfs.thy ===== *)
theory Memfs
  imports Steps "HOL-Library.List_Lexorder" "HOL-Library.Char_ord"
begin

unbundle bit_operations_syntax

text \<open>
  The in-memory file system (kernel/src/terminal/fs.rs): inodes by number, directories as
  ordered maps from names to inode numbers, and the operations on them.

  A \<open>BTreeMap\<close> whose order shows is a list of pairs in the order of the keys; the map of the
  inodes, which is never iterated over by the operations here, is a partial function. The
  contents of the virtual files under /proc depend on counters of other parts of the kernel,
  which are an argument.
\<close>

section \<open>Ordered maps\<close>

fun bt_insert :: "'k::linorder \<Rightarrow> 'v \<Rightarrow> ('k \<times> 'v) list \<Rightarrow> ('k \<times> 'v) list" where
  "bt_insert k v [] = [(k, v)]"
| "bt_insert k v ((x, y) # e) =
     (if x = k then (k, v) # e else if k < x then (k, v) # (x, y) # e else (x, y) # bt_insert k v e)"

definition bt_remove :: "'k \<Rightarrow> ('k \<times> 'v) list \<Rightarrow> ('k \<times> 'v) list" where
  "bt_remove k e = filter (\<lambda>(x, _). x \<noteq> k) e"

lemma map_of_bt_insert [simp]: "map_of (bt_insert k v e) = (map_of e)(k \<mapsto> v)"
  by (induction k v e rule: bt_insert.induct) (auto simp: fun_eq_iff)

lemma map_of_bt_remove [simp]: "map_of (bt_remove k e) = (map_of e)(k := None)"
  by (induction e) (auto simp: bt_remove_def fun_eq_iff)

section \<open>Inodes\<close>

type_synonym ino = u64
type_synonym file_mode = u16

abbreviation DIR_755 :: file_mode where "DIR_755 \<equiv> 0x41ED"
abbreviation FILE_644 :: file_mode where "FILE_644 \<equiv> 0x81A4"
abbreviation PROC_444 :: file_mode where "PROC_444 \<equiv> 0x8124"

abbreviation is_dir :: "file_mode \<Rightarrow> bool" where "is_dir m \<equiv> m AND 0xF000 = 0x4000"
abbreviation is_file :: "file_mode \<Rightarrow> bool" where "is_file m \<equiv> m AND 0xF000 = 0x8000"
abbreviation is_symlink :: "file_mode \<Rightarrow> bool" where "is_symlink m \<equiv> m AND 0xF000 = 0xA000"

datatype proc_file_kind = CpuInfo | MemInfo | Uptime | Version | Mounts | Cmdline | Loadavg

datatype inode_content =
    Directory "(string \<times> ino) list" | File "u8 list" | Symlink string | ProcFile proc_file_kind

record inode =
  in_ino :: ino
  in_mode :: file_mode
  in_uid :: u32
  in_gid :: u32
  in_size :: u64
  in_created :: u64
  in_modified :: u64
  in_nlink :: u32
  in_content :: inode_content

record mem_fs =
  mf_inodes :: "ino \<rightharpoonup> inode"
  mf_next_ino :: ino
  mf_boot_ticks :: u64

datatype fs_error =
    FsNotFound | FsAlreadyExists | FsNotADirectory | FsIsADirectory | FsDirectoryNotEmpty
  | FsInvalidName | FsReadOnly | FsInvalidOperation | FsPermissionDenied

abbreviation ROOT_INO :: ino where "ROOT_INO \<equiv> 1"

definition new_inode :: "ino \<Rightarrow> file_mode \<Rightarrow> u64 \<Rightarrow> u32 \<Rightarrow> inode_content \<Rightarrow> inode" where
  "new_inode i mode sz nlink content = \<lparr>in_ino = i, in_mode = mode, in_uid = 0, in_gid = 0, in_size = sz,
     in_created = 0, in_modified = 0, in_nlink = nlink, in_content = content\<rparr>"

definition new_directory :: "ino \<Rightarrow> ino \<Rightarrow> inode" where
  "new_directory i parent = new_inode i DIR_755 0 2
     (Directory (bt_insert ''..'' parent (bt_insert ''.'' i [])))"

definition memfs_new :: mem_fs where
  "memfs_new = \<lparr>mf_inodes = [ROOT_INO \<mapsto> new_directory ROOT_INO ROOT_INO], mf_next_ino = 2, mf_boot_ticks = 0\<rparr>"

text \<open>\<open>self.next_ino += 1\<close> panics when the counter overflows.\<close>

definition alloc_ino :: "(mem_fs, fs_error, ino) st" where
  "alloc_ino s = (if mf_next_ino s = - 1 then (Panic, s)
     else (Ok (mf_next_ino s), s\<lparr>mf_next_ino := mf_next_ino s + 1\<rparr>))"

section \<open>Navigation\<close>

text \<open>\<open>str::split\<close>: the empty string has one component, the empty one.\<close>

fun split_on :: "char \<Rightarrow> string \<Rightarrow> string list" where
  "split_on c [] = [[]]"
| "split_on c (x # xs) =
     (if x = c then [] # split_on c xs
      else case split_on c xs of [] \<Rightarrow> [[x]] | w # ws \<Rightarrow> (x # w) # ws)"

abbreviation slash :: char where "slash \<equiv> CHR ''/''"

definition fs_lookup :: "mem_fs \<Rightarrow> ino \<Rightarrow> string \<Rightarrow> ino option" where
  "fs_lookup s dir_ino name = (case mf_inodes s dir_ino of
     None \<Rightarrow> None
   | Some dir \<Rightarrow> (case in_content dir of Directory entries \<Rightarrow> map_of entries name | _ \<Rightarrow> None))"

fun resolve_from :: "mem_fs \<Rightarrow> string list \<Rightarrow> ino \<Rightarrow> ino option" where
  "resolve_from s [] i = Some i"
| "resolve_from s (component # rest) i =
     (if component = [] then resolve_from s rest i
      else case fs_lookup s i component of None \<Rightarrow> None | Some j \<Rightarrow> resolve_from s rest j)"

definition fs_resolve :: "mem_fs \<Rightarrow> string \<Rightarrow> ino option" where
  "fs_resolve s path =
     (if path = [] \<or> path = [slash] then Some ROOT_INO
      else resolve_from s (split_on slash (dropWhile (\<lambda>c. c = slash) path)) ROOT_INO)"

definition trim_end :: "string \<Rightarrow> string" where
  "trim_end path = rev (dropWhile (\<lambda>c. c = slash) (rev path))"

text \<open>The position of the last separator splits a path into what is before and after it.\<close>

definition rsplit :: "string \<Rightarrow> (string \<times> string) option" where
  "rsplit path = (if slash \<in> set path
     then Some (rev (tl (dropWhile (\<lambda>c. c \<noteq> slash) (rev path))), rev (takeWhile (\<lambda>c. c \<noteq> slash) (rev path)))
     else None)"

abbreviation resolve_parent :: "mem_fs \<Rightarrow> string \<Rightarrow> (ino \<times> string) option" where
  "resolve_parent s path \<equiv>
     (let path = trim_end path in
      if path = [] \<or> path = [slash] then None
      else case rsplit path of
        None \<Rightarrow> None
      | Some (before, name) \<Rightarrow>
          if name = [] then None
          else map_option (\<lambda>p. (p, name)) (fs_resolve s (if before = [] then [slash] else before)))"

section \<open>Directory operations\<close>

definition readdir_all :: "mem_fs \<Rightarrow> ino \<Rightarrow> (string \<times> ino) list option" where
  "readdir_all s i = (case mf_inodes s i of
     None \<Rightarrow> None
   | Some dir \<Rightarrow> (case in_content dir of Directory entries \<Rightarrow> Some entries | _ \<Rightarrow> None))"

abbreviation readdir :: "mem_fs \<Rightarrow> ino \<Rightarrow> (string \<times> ino) list option" where
  "readdir s i \<equiv> map_option (filter (\<lambda>(n, _). n \<noteq> ''.'' \<and> n \<noteq> ''..'')) (readdir_all s i)"

definition bad_name :: "string \<Rightarrow> bool" where
  "bad_name name \<longleftrightarrow> slash \<in> set name \<or> name = ''.'' \<or> name = ''..''"

definition put_inode :: "ino \<Rightarrow> inode \<Rightarrow> mem_fs \<Rightarrow> mem_fs" where
  "put_inode i n s = s\<lparr>mf_inodes := (mf_inodes s)(i \<mapsto> n)\<rparr>"

text \<open>\<open>if let Some(p) = self.inodes.get_mut(..) { if let Directory(e) = p.content { .. } }\<close>\<close>

definition edit_dir :: "ino \<Rightarrow> ((string \<times> ino) list \<Rightarrow> (string \<times> ino) list) \<Rightarrow> mem_fs \<Rightarrow> mem_fs" where
  "edit_dir i f s = (case mf_inodes s i of
     None \<Rightarrow> s
   | Some p \<Rightarrow> (case in_content p of
        Directory e \<Rightarrow> put_inode i (p\<lparr>in_content := Directory (f e)\<rparr>) s | _ \<Rightarrow> s))"

definition bump_nlink :: "ino \<Rightarrow> (mem_fs, fs_error, unit) st" where
  "bump_nlink i s = (case mf_inodes s i of
     None \<Rightarrow> (Ok (), s)
   | Some p \<Rightarrow> if in_nlink p = - 1 then (Panic, s) else (Ok (), put_inode i (p\<lparr>in_nlink := in_nlink p + 1\<rparr>) s))"

text \<open>The entries of a directory that must exist.\<close>

definition dir_entries :: "ino \<Rightarrow> (mem_fs, fs_error, (string \<times> ino) list) st" where
  "dir_entries i s = (case mf_inodes s i of
     None \<Rightarrow> (Err FsNotFound, s)
   | Some p \<Rightarrow> (case in_content p of Directory e \<Rightarrow> (Ok e, s) | _ \<Rightarrow> (Err FsNotADirectory, s)))"

definition mkdir :: "ino \<Rightarrow> string \<Rightarrow> (mem_fs, fs_error, ino) st" where
  "mkdir parent name =
     (if bad_name name then throw FsInvalidName
      else bind (dir_entries parent) (\<lambda>e.
        if map_of e name \<noteq> None then throw FsAlreadyExists
        else bind alloc_ino (\<lambda>child_ino.
          seq (modify (put_inode child_ino (new_directory child_ino parent)))
          (seq (modify (edit_dir parent (bt_insert name child_ino)))
          (seq (bump_nlink parent) (ret child_ino))))))"

definition file_node :: "ino \<Rightarrow> u8 list \<Rightarrow> inode" where
  "file_node i data = new_inode i FILE_644 (of_nat (length data)) 1 (File data)"

definition create_file :: "ino \<Rightarrow> string \<Rightarrow> u8 list \<Rightarrow> (mem_fs, fs_error, ino) st" where
  "create_file parent name data =
     (if bad_name name then throw FsInvalidName
      else bind (dir_entries parent) (\<lambda>e.
        case map_of e name of
          Some existing \<Rightarrow> bind (gets (\<lambda>s. mf_inodes s existing)) (\<lambda>n.
            case n of
              Some node \<Rightarrow>
                if is_file (in_mode node)
                then seq (modify (put_inode existing (node\<lparr>in_content := File data, in_size := of_nat (length data)\<rparr>)))
                       (ret existing)
                else throw FsAlreadyExists
            | None \<Rightarrow> throw FsAlreadyExists)
        | None \<Rightarrow> bind alloc_ino (\<lambda>child_ino.
            seq (modify (put_inode child_ino (file_node child_ino data)))
            (seq (modify (edit_dir parent (bt_insert name child_ino))) (ret child_ino)))))"

definition create_proc_file :: "ino \<Rightarrow> string \<Rightarrow> proc_file_kind \<Rightarrow> (mem_fs, fs_error, unit) st" where
  "create_proc_file parent name kind = bind alloc_ino (\<lambda>i.
     seq (modify (put_inode i (new_inode i PROC_444 0 1 (ProcFile kind))))
       (modify (edit_dir parent (bt_insert name i))))"

section \<open>File contents\<close>

abbreviation NL :: char where "NL \<equiv> CHR 0x0A"
abbreviation TAB :: char where "TAB \<equiv> CHR 0x09"

definition bytes_of :: "string \<Rightarrow> u8 list" where
  "bytes_of s = map (\<lambda>c. of_nat (of_char c)) s"

definition file_text :: "string list \<Rightarrow> u8 list" where
  "file_text ls = bytes_of (concat (map (\<lambda>l. l @ [NL]) ls))"

text \<open>The counters that the virtual files show: heap statistics and timer ticks.\<close>

record proc_env =
  pe_total :: usize
  pe_free :: usize
  pe_used :: usize
  pe_ticks :: u64

definition pad_left :: "nat \<Rightarrow> char \<Rightarrow> string \<Rightarrow> string" where
  "pad_left n c s = replicate (n - length s) c @ s"

definition mem_line :: "string \<Rightarrow> usize \<Rightarrow> string" where
  "mem_line label n = label @ pad_left 8 (CHR '' '') (show_nat n) @ '' kB''"

definition generate_proc :: "proc_env \<Rightarrow> proc_file_kind \<Rightarrow> u8 list" where
  "generate_proc env kind = (case kind of
     CpuInfo \<Rightarrow> file_text
       [''processor'' @ [TAB] @ '': 0'', ''vendor_id'' @ [TAB] @ '': GenuineIntel'',
        ''model name'' @ [TAB] @ '': KPIO Virtual CPU'', ''cpu MHz'' @ [TAB, TAB] @ '': 2000.000'',
        ''cache size'' @ [TAB] @ '': 4096 KB'', ''flags'' @ [TAB, TAB] @ '': fpu sse sse2 sse3 ssse3 sse4_1 sse4_2'']
   | MemInfo \<Rightarrow> file_text
       [mem_line ''MemTotal:       '' (pe_total env div 1024), mem_line ''MemFree:        '' (pe_free env div 1024),
        mem_line ''MemAvailable:   '' (pe_free env div 1024), mem_line ''MemUsed:        '' (pe_used env div 1024),
        ''Buffers:               0 kB'', ''Cached:                0 kB'',
        ''SwapTotal:             0 kB'', ''SwapFree:              0 kB'']
   | Uptime \<Rightarrow> file_text
       [show_nat (unat (pe_ticks env) div 100) @ ''.'' @ pad_left 2 (CHR ''0'') (show_nat (unat (pe_ticks env) mod 100)) @ '' 0.00'']
   | Version \<Rightarrow> file_text [''KPIO version 1.0.0 (root@kpio) (rustc 1.82-nightly) #1 SMP PREEMPT_DYNAMIC'']
   | Mounts \<Rightarrow> file_text [''ramfs / ramfs rw,relatime 0 0'', ''proc /proc proc rw,nosuid,nodev 0 0'']
   | Cmdline \<Rightarrow> file_text [''BOOT_IMAGE=/boot/kpio root=/dev/ram0'']
   | Loadavg \<Rightarrow> file_text [''0.00 0.00 0.00 1/32 42''])"

definition read_file :: "proc_env \<Rightarrow> mem_fs \<Rightarrow> ino \<Rightarrow> (fs_error, u8 list) result" where
  "read_file env s i = and_then (ok_or FsNotFound (mf_inodes s i)) (\<lambda>node.
     case in_content node of
       File data \<Rightarrow> Ok data
     | ProcFile kind \<Rightarrow> Ok (generate_proc env kind)
     | Directory _ \<Rightarrow> Err FsIsADirectory
     | Symlink _ \<Rightarrow> Err FsInvalidOperation)"

definition write_file :: "ino \<Rightarrow> u8 list \<Rightarrow> (mem_fs, fs_error, unit) st" where
  "write_file i data s = (case mf_inodes s i of
     None \<Rightarrow> (Err FsNotFound, s)
   | Some node \<Rightarrow> (case in_content node of
       File _ \<Rightarrow> (Ok (), put_inode i (node\<lparr>in_content := File data, in_size := of_nat (length data)\<rparr>) s)
     | ProcFile _ \<Rightarrow> (Err FsReadOnly, s)
     | Directory _ \<Rightarrow> (Err FsIsADirectory, s)
     | Symlink _ \<Rightarrow> (Err FsInvalidOperation, s)))"

definition append_file :: "ino \<Rightarrow> u8 list \<Rightarrow> (mem_fs, fs_error, unit) st" where
  "append_file i data s = (case mf_inodes s i of
     None \<Rightarrow> (Err FsNotFound, s)
   | Some node \<Rightarrow> (case in_content node of
       File buf \<Rightarrow> (Ok (), put_inode i (node\<lparr>in_content := File (buf @ data), in_size := of_nat (length (buf @ data))\<rparr>) s)
     | _ \<Rightarrow> (Err FsInvalidOperation, s)))"

section \<open>Removing and moving\<close>

text \<open>A directory with only its two standard entries may go.\<close>

definition nonempty_dir :: "mem_fs \<Rightarrow> ino \<Rightarrow> bool" where
  "nonempty_dir s i = (case mf_inodes s i of
     Some child \<Rightarrow> (case in_content child of Directory e \<Rightarrow> length e > 2 | _ \<Rightarrow> False) | None \<Rightarrow> False)"

definition drop_link :: "ino \<Rightarrow> mem_fs \<Rightarrow> mem_fs" where
  "drop_link i s = (case mf_inodes s i of
     None \<Rightarrow> s
   | Some child \<Rightarrow>
       let nlink = (if in_nlink child = 0 then 0 else in_nlink child - 1) in
       if nlink = 0 then s\<lparr>mf_inodes := (mf_inodes s)(i := None)\<rparr>
       else put_inode i (child\<lparr>in_nlink := nlink\<rparr>) s)"

definition remove_entry :: "ino \<Rightarrow> string \<Rightarrow> (mem_fs, fs_error, unit) st" where
  "remove_entry parent name =
     (if name = ''.'' \<or> name = ''..'' then throw FsInvalidName
      else bind (dir_entries parent) (\<lambda>e.
        bind (lift (ok_or FsNotFound (map_of e name))) (\<lambda>child_ino.
        bind (gets (\<lambda>s. nonempty_dir s child_ino)) (\<lambda>busy.
        if busy then throw FsDirectoryNotEmpty
        else modify (\<lambda>s. drop_link child_ino (edit_dir parent (bt_remove name) s))))))"

text \<open>\<open>let _ = self.remove(..)\<close>: the outcome is ignored.\<close>

definition ignore :: "('s, 'e, 'a) st \<Rightarrow> ('s, 'e, unit) st" where
  "ignore m s = (case m s of (Panic, s') \<Rightarrow> (Panic, s') | (_, s') \<Rightarrow> (Ok (), s'))"

definition rename :: "ino \<Rightarrow> string \<Rightarrow> ino \<Rightarrow> string \<Rightarrow> (mem_fs, fs_error, unit) st" where
  "rename src_parent src_name dst_parent dst_name =
     bind (dir_entries src_parent) (\<lambda>e.
     bind (lift (ok_or FsNotFound (map_of e src_name))) (\<lambda>i.
       seq (modify (edit_dir src_parent (bt_remove src_name)))
      (seq (ignore (remove_entry dst_parent dst_name))
      (seq (modify (edit_dir dst_parent (bt_insert dst_name i)))
           (modify (edit_dir i (bt_insert ''..'' dst_parent)))))))"

definition copy_file :: "proc_env \<Rightarrow> ino \<Rightarrow> ino \<Rightarrow> string \<Rightarrow> (mem_fs, fs_error, ino) st" where
  "copy_file env src_ino dst_parent dst_name =
     bind (gets (\<lambda>s. read_file env s src_ino)) (\<lambda>r.
     bind (lift r) (\<lambda>data. create_file dst_parent dst_name data))"

section \<open>The initial file system\<close>

text \<open>\<open>self.boot_ticks += 1\<close>, and \<open>unwrap\<close>.\<close>

definition fs_tick :: "(mem_fs, fs_error, unit) st" where
  "fs_tick s = (if mf_boot_ticks s = - 1 then (Panic, s) else (Ok (), s\<lparr>mf_boot_ticks := mf_boot_ticks s + 1\<rparr>))"

definition unwrap :: "('s, 'e, 'a) st \<Rightarrow> ('s, 'e, 'a) st" where
  "unwrap m s = (case m s of (Err _, s') \<Rightarrow> (Panic, s') | x \<Rightarrow> x)"

definition populate_defaults :: "(mem_fs, fs_error, unit) st" where
  "populate_defaults = (let root = ROOT_INO in
     bind (unwrap (mkdir root ''home'')) (\<lambda>home.
     bind (unwrap (mkdir root ''etc'')) (\<lambda>etc.
     bind (unwrap (mkdir root ''usr'')) (\<lambda>usr.
     bind (unwrap (mkdir root ''var'')) (\<lambda>var.
     bind (unwrap (mkdir root ''tmp'')) (\<lambda>_.
     bind (unwrap (mkdir root ''bin'')) (\<lambda>_.
     bind (unwrap (mkdir root ''dev'')) (\<lambda>dev.
     bind (unwrap (mkdir root ''proc'')) (\<lambda>proc_dir.
     bind (unwrap (mkdir root ''sbin'')) (\<lambda>_.
     bind (unwrap (mkdir root ''opt'')) (\<lambda>_.
     bind (unwrap (mkdir root ''boot'')) (\<lambda>boot.
     bind (unwrap (mkdir home ''root'')) (\<lambda>home_root.
     bind (unwrap (mkdir home_root ''Documents'')) (\<lambda>docs.
     bind (unwrap (mkdir home_root ''Downloads'')) (\<lambda>_.
     bind (unwrap (mkdir home_root ''Pictures'')) (\<lambda>_.
     bind (unwrap (mkdir home_root ''Music'')) (\<lambda>_.
     bind (unwrap (mkdir home_root ''Videos'')) (\<lambda>_.
     bind (unwrap (mkdir home_root ''Desktop'')) (\<lambda>dsk.
     bind (unwrap (create_file docs ''readme.txt'' (file_text [
        ''Welcome to KPIO OS!'',
        ''This is a sample text file.'']))) (\<lambda>_.
     bind (unwrap (create_file docs ''notes.txt'' (file_text [
        ''TODO:'',
        ''- Implement more syscalls'',
        ''- Add network drivers'',
        ''- Build browser engine'']))) (\<lambda>_.
     bind (unwrap (create_file dsk ''hello.sh'' (file_text [
        ''#!/bin/sh'',
        ''echo '' @ [CHR 0x22] @ ''Hello from KPIO!'' @ [CHR 0x22]]))) (\<lambda>_.
     bind (unwrap (create_file home_root ''.bashrc'' (file_text [
        ''# KPIO Shell Configuration'',
        ''export PS1='' @ [CHR 0x27] @ [CHR 0x5C] @ ''u@'' @ [CHR 0x5C] @ ''h:'' @ [CHR 0x5C] @ ''w$ '' @ [CHR 0x27],
        ''alias ll='' @ [CHR 0x27] @ ''ls -la'' @ [CHR 0x27],
        ''alias la='' @ [CHR 0x27] @ ''ls -a'' @ [CHR 0x27]]))) (\<lambda>_.
     bind (unwrap (create_file home_root ''.profile'' (file_text [
        ''# KPIO Profile'',
        ''export PATH=/usr/bin:/bin:/sbin'',
        ''export LANG=en_US.UTF-8'']))) (\<lambda>_.
     bind (unwrap (create_file etc ''passwd'' (file_text [
        ''root:x:0:0:root:/home/root:/bin/sh'',
        ''nobody:x:65534:65534:nobody:/nonexistent:/usr/sbin/nologin'']))) (\<lambda>_.
     bind (unwrap (create_file etc ''hostname'' (file_text [''kpio'']))) (\<lambda>_.
     bind (unwrap (create_file etc ''hosts'' (file_text [
        ''127.0.0.1'' @ [TAB] @ ''localhost'',
        ''::1'' @ [TAB] @ [TAB] @ ''localhost'',
        ''127.0.1.1'' @ [TAB] @ ''kpio'']))) (\<lambda>_.
     bind (unwrap (create_file etc ''os-release'' (file_text [
        ''NAME='' @ [CHR 0x22] @ ''KPIO OS'' @ [CHR 0x22],
        ''VERSION='' @ [CHR 0x22] @ ''1.0.0'' @ [CHR 0x22],
        ''ID=kpio'',
        ''PRETTY_NAME='' @ [CHR 0x22] @ ''KPIO OS 1.0.0'' @ [CHR 0x22]]))) (\<lambda>_.
     bind (unwrap (create_file etc ''fstab'' (file_text [
        ''# /etc/fstab: static file system information'',
        ''ramfs'' @ [TAB] @ ''/'' @ [TAB] @ ''ramfs'' @ [TAB] @ ''defaults'' @ [TAB] @ ''0 0'']))) (\<lambda>_.
     bind (unwrap (mkdir etc ''config'')) (\<lambda>etc_conf.
     bind (unwrap (create_file etc_conf ''kernel.conf'' (file_text [
        ''# Kernel configuration'',
        ''loglevel=3'']))) (\<lambda>_.
     bind (unwrap (mkdir usr ''bin'')) (\<lambda>_.
     bind (unwrap (mkdir usr ''lib'')) (\<lambda>_.
     bind (unwrap (mkdir usr ''share'')) (\<lambda>_.
     bind (unwrap (mkdir usr ''local'')) (\<lambda>_.
     bind (unwrap (mkdir var ''log'')) (\<lambda>var_log.
     bind (unwrap (mkdir var ''cache'')) (\<lambda>_.
     bind (unwrap (mkdir var ''run'')) (\<lambda>_.
     bind (unwrap (create_file var_log ''syslog'' (file_text [
        ''[    0.000] KPIO kernel booting'',
        ''[    0.010] GDT initialized'',
        ''[    0.020] IDT initialized'',
        ''[    0.050] Memory management ready'',
        ''[    0.100] Scheduler started'']))) (\<lambda>_.
     bind (unwrap (create_file var_log ''dmesg'' (file_text [
        ''[    0.000] KPIO 1.0.0 x86_64'',
        ''[    0.001] ACPI: RSDP search'',
        ''[    0.010] PCI: Enumerating bus'',
        ''[    0.050] VirtIO: Block device detected'']))) (\<lambda>_.
     seq (create_proc_file proc_dir ''cpuinfo'' CpuInfo) (
     seq (create_proc_file proc_dir ''meminfo'' MemInfo) (
     seq (create_proc_file proc_dir ''uptime'' Uptime) (
     seq (create_proc_file proc_dir ''version'' Version) (
     seq (create_proc_file proc_dir ''mounts'' Mounts) (
     seq (create_proc_file proc_dir ''cmdline'' Cmdline) (
     seq (create_proc_file proc_dir ''loadavg'' Loadavg) (
     bind (unwrap (create_file dev ''null'' [])) (\<lambda>_.
     bind (unwrap (create_file dev ''zero'' [])) (\<lambda>_.
     bind (unwrap (create_file dev ''random'' [])) (\<lambda>_.
     bind (unwrap (create_file dev ''console'' [])) (\<lambda>_.
     bind (unwrap (create_file dev ''tty0'' [])) (\<lambda>_.
     bind (unwrap (create_file boot ''kpio-kernel'' (file_text [
        ''[binary: KPIO kernel image]'']))) (\<lambda>_.
     ret ())))))))))))))))))))))))))))))))))))))))))))))))))))))"

definition fs_init :: "(fs_error, unit) result \<times> mem_fs" where
  "fs_init = populate_defaults memfs_new"

section \<open>Well-formed file systems\<close>

definition dot :: "string \<Rightarrow> bool" where
  "dot n \<longleftrightarrow> n = ''.'' \<or> n = ''..''"

text \<open>An ordinary entry of some directory leads to the inode.\<close>

definition referenced :: "mem_fs \<Rightarrow> ino \<Rightarrow> bool" where
  "referenced s j \<longleftrightarrow> (\<exists>d n. \<not> dot n \<and> fs_lookup s d n = Some j)"

definition node_ok :: "ino \<Rightarrow> ino \<Rightarrow> inode \<Rightarrow> bool" where
  "node_ok next i p \<longleftrightarrow> in_ino p = i \<and> i < next \<and> (case in_content p of
     Directory e \<Rightarrow> is_dir (in_mode p) \<and> in_nlink p \<noteq> 0 \<and> sorted_wrt (<) (map fst e)
   | File data \<Rightarrow> is_file (in_mode p) \<and> in_nlink p = 1 \<and> in_size p = of_nat (length data)
   | ProcFile _ \<Rightarrow> is_file (in_mode p) \<and> in_nlink p = 1
   | Symlink _ \<Rightarrow> False)"

text \<open>
  The root is a directory; the metadata of every inode fits its contents; every entry of a
  directory leads to an inode, \<open>.\<close> to the directory itself and \<open>..\<close> to some directory; no two
  ordinary entries lead to the same inode, and a directory with an entry has at least two links.
\<close>

definition fs_wf :: "mem_fs \<Rightarrow> bool" where
  "fs_wf s \<longleftrightarrow> readdir_all s ROOT_INO \<noteq> None
   \<and> (\<forall>i p. mf_inodes s i = Some p \<longrightarrow> node_ok (mf_next_ino s) i p)
   \<and> (\<forall>d n j. fs_lookup s d n = Some j \<longrightarrow> mf_inodes s j \<noteq> None)
   \<and> (\<forall>d e. readdir_all s d = Some e \<longrightarrow> map_of e ''.'' = Some d \<and> (\<exists>p. map_of e ''..'' = Some p \<and> readdir_all s p \<noteq> None))
   \<and> (\<forall>d d' n n' j. fs_lookup s d n = Some j \<longrightarrow> fs_lookup s d' n' = Some j \<longrightarrow> \<not> dot n \<longrightarrow> \<not> dot n' \<longrightarrow> d = d' \<and> n = n')
   \<and> (\<forall>i p e. mf_inodes s i = Some p \<longrightarrow> in_content p = Directory e \<longrightarrow> referenced s i \<longrightarrow> 1 < in_nlink p)"

lemma fs_wfI:
  assumes "readdir_all s ROOT_INO \<noteq> None"
    and "\<And>i p. mf_inodes s i = Some p \<Longrightarrow> node_ok (mf_next_ino s) i p"
    and "\<And>d n j. fs_lookup s d n = Some j \<Longrightarrow> mf_inodes s j \<noteq> None"
    and "\<And>d e. readdir_all s d = Some e \<Longrightarrow> map_of e ''.'' = Some d \<and> (\<exists>p. map_of e ''..'' = Some p \<and> readdir_all s p \<noteq> None)"
    and "\<And>d d' n n' j. fs_lookup s d n = Some j \<Longrightarrow> fs_lookup s d' n' = Some j \<Longrightarrow> \<not> dot n \<Longrightarrow> \<not> dot n' \<Longrightarrow> d = d' \<and> n = n'"
    and "\<And>i p e. mf_inodes s i = Some p \<Longrightarrow> in_content p = Directory e \<Longrightarrow> referenced s i \<Longrightarrow> 1 < in_nlink p"
  shows "fs_wf s"
  using assms unfolding fs_wf_def by blast

lemma wf_root: "fs_wf s \<Longrightarrow> readdir_all s ROOT_INO \<noteq> None"
  unfolding fs_wf_def by (elim conjE)

lemma wf_node: "fs_wf s \<Longrightarrow> mf_inodes s i = Some p \<Longrightarrow> node_ok (mf_next_ino s) i p"
  by (simp only: fs_wf_def)

lemma wf_entry: "fs_wf s \<Longrightarrow> fs_lookup s d n = Some j \<Longrightarrow> mf_inodes s j \<noteq> None"
  unfolding fs_wf_def by (elim conjE) (erule allE [of _ d], erule allE [of _ n], erule allE [of _ j], erule (1) mp)

lemma wf_dots: "fs_wf s \<Longrightarrow> readdir_all s d = Some e \<Longrightarrow>
    map_of e ''.'' = Some d \<and> (\<exists>p. map_of e ''..'' = Some p \<and> readdir_all s p \<noteq> None)"
  by (simp only: fs_wf_def)

lemma wf_unique: "fs_wf s \<Longrightarrow> fs_lookup s d n = Some j \<Longrightarrow> fs_lookup s d' n' = Some j \<Longrightarrow> \<not> dot n \<Longrightarrow> \<not> dot n' \<Longrightarrow>
    d = d' \<and> n = n'"
  unfolding fs_wf_def by (elim conjE) meson

lemma wf_links: "fs_wf s \<Longrightarrow> mf_inodes s i = Some p \<Longrightarrow> in_content p = Directory e \<Longrightarrow> referenced s i \<Longrightarrow> 1 < in_nlink p"
  unfolding fs_wf_def by (elim conjE) meson

lemma dot_simps [simp]: "dot ''.''" "dot ''..''"
  by (simp_all add: dot_def)

lemma lookup_readdir: "fs_lookup s d n = (case readdir_all s d of None \<Rightarrow> None | Some e \<Rightarrow> map_of e n)"
  by (simp add: fs_lookup_def readdir_all_def split: option.split inode_content.split)

subsection \<open>How the primitives change directories\<close>

definition entries_of :: "inode_content \<Rightarrow> (string \<times> ino) list option" where
  "entries_of c = (case c of Directory e \<Rightarrow> Some e | _ \<Rightarrow> None)"

lemma entries_of_simps [simp]:
  "entries_of (Directory e) = Some e" "entries_of (File d) = None" "entries_of (ProcFile k) = None" "entries_of (Symlink l) = None"
  by (simp_all add: entries_of_def)

lemma entries_of_Some [simp]: "entries_of c = Some e \<longleftrightarrow> c = Directory e"
  by (cases c) auto

lemma readdir_entries: "readdir_all s d = (case mf_inodes s d of None \<Rightarrow> None | Some p \<Rightarrow> entries_of (in_content p))"
  by (simp add: readdir_all_def entries_of_def split: option.split inode_content.split)

lemma put_inode_simps [simp]:
  "mf_inodes (put_inode i p s) = (mf_inodes s)(i \<mapsto> p)" "mf_next_ino (put_inode i p s) = mf_next_ino s"
  by (simp_all add: put_inode_def)

lemma readdir_put [simp]:
  "readdir_all (put_inode i p s) d = (if d = i then entries_of (in_content p) else readdir_all s d)"
  by (simp add: readdir_entries)

lemma readdir_next [simp]: "readdir_all (s\<lparr>mf_next_ino := k\<rparr>) d = readdir_all s d"
  by (simp add: readdir_entries)

lemma edit_dir_cases:
  obtains (none) "readdir_all s i = None" "edit_dir i f s = s"
  | (dir) p e where "mf_inodes s i = Some p" "in_content p = Directory e" "readdir_all s i = Some e"
      "edit_dir i f s = put_inode i (p\<lparr>in_content := Directory (f e)\<rparr>) s"
proof (cases "mf_inodes s i")
  case None
  then show ?thesis using none by (simp add: edit_dir_def readdir_all_def)
next
  case (Some p)
  then show ?thesis using none dir by (cases "in_content p") (simp_all add: edit_dir_def readdir_all_def)
qed

lemma readdir_edit: "readdir_all (edit_dir i f s) d = (if d = i then map_option f (readdir_all s i) else readdir_all s d)"
  by (cases rule: edit_dir_cases [of s i f]) simp_all

lemma edit_dir_next [simp]: "mf_next_ino (edit_dir i f s) = mf_next_ino s"
  by (cases rule: edit_dir_cases [of s i f]) simp_all

lemma edit_dir_dom: "mf_inodes (edit_dir i f s) j = None \<longleftrightarrow> mf_inodes s j = None"
  by (cases rule: edit_dir_cases [of s i f]) auto

lemma edit_dir_node:
  assumes "mf_inodes (edit_dir i f s) j = Some q"
  obtains p where "mf_inodes s j = Some p" "in_nlink q = in_nlink p" "in_mode q = in_mode p" "in_ino q = in_ino p" "in_size q = in_size p"
    "in_content q = in_content p \<or> j = i \<and> (\<exists>e. in_content p = Directory e \<and> in_content q = Directory (f e))"
  using assms by (cases rule: edit_dir_cases [of s i f]) (auto split: if_splits)

lemma sorted_bt_insert: "sorted_wrt (<) (map fst e) \<Longrightarrow> sorted_wrt (<) (map fst (bt_insert k v e))"
proof -
  have "fst ` set (bt_insert k v e) = insert k (fst ` set e)" for e
    by (induction k v e rule: bt_insert.induct) auto
  then show "sorted_wrt (<) (map fst e) \<Longrightarrow> sorted_wrt (<) (map fst (bt_insert k v e))"
    by (induction k v e rule: bt_insert.induct) (auto simp: not_less)
qed

lemma sorted_bt_remove: "sorted_wrt (<) (map fst e) \<Longrightarrow> sorted_wrt (<) (map fst (bt_remove k e))"
  by (induction e) (auto simp: bt_remove_def)

lemma node_ok_edit:
  assumes "fs_wf s" and "mf_inodes (edit_dir i f s) j = Some q"
    and "\<And>e. sorted_wrt (<) (map fst e) \<Longrightarrow> sorted_wrt (<) (map fst (f e))"
  shows "node_ok (mf_next_ino s) j q"
  using assms(2)
proof (rule edit_dir_node)
  fix p assume "mf_inodes s j = Some p" "in_nlink q = in_nlink p" "in_mode q = in_mode p" "in_ino q = in_ino p" "in_size q = in_size p"
    "in_content q = in_content p \<or> j = i \<and> (\<exists>e. in_content p = Directory e \<and> in_content q = Directory (f e))"
  moreover from this(1) have "node_ok (mf_next_ino s) j p" by (rule wf_node [OF assms(1)])
  ultimately show ?thesis
    unfolding node_ok_def by (elim disjE conjE exE) (simp_all add: assms(3) split: inode_content.splits)
qed

subsection \<open>The primitives keep file systems well-formed\<close>

lemma lookup_insert:
  "fs_lookup (edit_dir d (bt_insert n c) s) d' n' =
     (if d' = d \<and> n' = n \<and> readdir_all s d \<noteq> None then Some c else fs_lookup s d' n')"
  by (auto simp: lookup_readdir readdir_edit split: option.split)

lemma lookup_remove:
  "fs_lookup (edit_dir d (bt_remove n) s) d' n' = (if d' = d \<and> n' = n then None else fs_lookup s d' n')"
  by (auto simp: lookup_readdir readdir_edit split: option.split)

lemma dirs_insert: "readdir_all (edit_dir d f s) d' = None \<longleftrightarrow> readdir_all s d' = None"
  by (simp add: readdir_edit)

lemma dir_inode: "readdir_all s d = Some e \<longleftrightarrow> (\<exists>p. mf_inodes s d = Some p \<and> in_content p = Directory e)"
  by (auto simp: readdir_all_def split: option.splits inode_content.splits)

lemma wf_edit:
  assumes wf: "fs_wf s" and sorted: "\<And>e. sorted_wrt (<) (map fst e) \<Longrightarrow> sorted_wrt (<) (map fst (f e))"
    and dots: "\<And>e p. map_of e ''.'' = Some d \<Longrightarrow> map_of e ''..'' = Some p \<Longrightarrow> readdir_all s p \<noteq> None \<Longrightarrow>
      map_of (f e) ''.'' = Some d \<and> (\<exists>p. map_of (f e) ''..'' = Some p \<and> readdir_all s p \<noteq> None)"
    and targets: "\<And>d' n j. fs_lookup (edit_dir d f s) d' n = Some j \<Longrightarrow> mf_inodes s j \<noteq> None"
    and unique: "\<And>d' d'' n n' j. fs_lookup (edit_dir d f s) d' n = Some j \<Longrightarrow> fs_lookup (edit_dir d f s) d'' n' = Some j \<Longrightarrow>
      \<not> dot n \<Longrightarrow> \<not> dot n' \<Longrightarrow> d' = d'' \<and> n = n'"
    and links: "\<And>i p e. mf_inodes s i = Some p \<Longrightarrow> in_content p = Directory e \<Longrightarrow> referenced (edit_dir d f s) i \<Longrightarrow> 1 < in_nlink p"
  shows "fs_wf (edit_dir d f s)"
proof (rule fs_wfI)
  let ?s = "edit_dir d f s"
  show "readdir_all ?s ROOT_INO \<noteq> None" using wf_root [OF wf] unfolding dirs_insert .
  show "node_ok (mf_next_ino ?s) i p" if "mf_inodes ?s i = Some p" for i p
    using node_ok_edit [OF wf that sorted] by simp
  show "mf_inodes ?s j \<noteq> None" if "fs_lookup ?s d' n' = Some j" for d' n' j
    using targets [OF that] by (simp add: edit_dir_dom)
  show "map_of e ''.'' = Some d' \<and> (\<exists>p. map_of e ''..'' = Some p \<and> readdir_all ?s p \<noteq> None)"
    if e: "readdir_all ?s d' = Some e" for d' e
    unfolding dirs_insert
  proof (cases "d' = d")
    case True
    with e obtain e0 where "readdir_all s d = Some e0" "e = f e0" by (auto simp: readdir_edit)
    with wf_dots [OF wf this(1)] dots [of e0] True
    show "map_of e ''.'' = Some d' \<and> (\<exists>p. map_of e ''..'' = Some p \<and> readdir_all s p \<noteq> None)" by blast
  next
    case False
    with e show "map_of e ''.'' = Some d' \<and> (\<exists>p. map_of e ''..'' = Some p \<and> readdir_all s p \<noteq> None)"
      using wf_dots [OF wf, of d' e] by (simp add: readdir_edit)
  qed
  show "d' = d'' \<and> n' = n''" if "fs_lookup ?s d' n' = Some j" "fs_lookup ?s d'' n'' = Some j" "\<not> dot n'" "\<not> dot n''" for d' d'' n' n'' j
    using unique [OF that] .
  show "1 < in_nlink p" if p: "mf_inodes ?s i = Some p" "in_content p = Directory e" and r: "referenced ?s i" for i p e
    using p(1)
  proof (rule edit_dir_node)
    fix p0 assume 0: "mf_inodes s i = Some p0" "in_nlink p = in_nlink p0"
      "in_content p = in_content p0 \<or> i = d \<and> (\<exists>e. in_content p0 = Directory e \<and> in_content p = Directory (f e))"
    then obtain e0 where "in_content p0 = Directory e0" using p(2) by metis
    from links [OF 0(1) this r] 0(2) show ?thesis by simp
  qed
qed

text \<open>A new entry for an inode that no other entry leads to.\<close>

lemma wf_link:
  assumes wf: "fs_wf s" and n: "\<not> dot n" and c: "mf_inodes s c = Some q" "\<not> referenced s c"
    and links: "\<And>e. in_content q = Directory e \<Longrightarrow> 1 < in_nlink q"
  shows "fs_wf (edit_dir d (bt_insert n c) s)"
proof (rule wf_edit [OF wf sorted_bt_insert])
  show "map_of (bt_insert n c e) ''.'' = Some d \<and> (\<exists>p. map_of (bt_insert n c e) ''..'' = Some p \<and> readdir_all s p \<noteq> None)"
    if "map_of e ''.'' = Some d" "map_of e ''..'' = Some p" "readdir_all s p \<noteq> None" for e p
    using that n by (auto simp: dot_def)
  show "mf_inodes s j \<noteq> None" if "fs_lookup (edit_dir d (bt_insert n c) s) d' n' = Some j" for d' n' j
    using that wf_entry [OF wf, of d' n' j] c(1) by (auto simp: lookup_insert split: if_splits)
  show "d' = d'' \<and> n' = n''" if "fs_lookup (edit_dir d (bt_insert n c) s) d' n' = Some j"
    "fs_lookup (edit_dir d (bt_insert n c) s) d'' n'' = Some j" "\<not> dot n'" "\<not> dot n''" for d' d'' n' n'' j
    using that wf_unique [OF wf, of d' n' j d'' n''] c(2) by (auto simp: lookup_insert referenced_def split: if_splits)
  show "1 < in_nlink p" if "mf_inodes s i = Some p" "in_content p = Directory e"
    and r: "referenced (edit_dir d (bt_insert n c) s) i" for i p e
  proof (cases "i = c")
    case True then show ?thesis using that c links by simp
  next
    case False
    then have "referenced s i" using r by (auto simp: referenced_def lookup_insert split: if_splits)
    then show ?thesis using wf_links [OF wf that(1,2)] by simp
  qed
qed

lemma wf_unlink:
  assumes wf: "fs_wf s" and n: "\<not> dot n"
  shows "fs_wf (edit_dir d (bt_remove n) s)"
proof (rule wf_edit [OF wf sorted_bt_remove])
  show "map_of (bt_remove n e) ''.'' = Some d \<and> (\<exists>p. map_of (bt_remove n e) ''..'' = Some p \<and> readdir_all s p \<noteq> None)"
    if "map_of e ''.'' = Some d" "map_of e ''..'' = Some p" "readdir_all s p \<noteq> None" for e p
    using that n by (auto simp: dot_def)
  show "mf_inodes s j \<noteq> None" if "fs_lookup (edit_dir d (bt_remove n) s) d' n' = Some j" for d' n' j
    using that wf_entry [OF wf, of d' n' j] by (simp add: lookup_remove split: if_splits)
  show "d' = d'' \<and> n' = n''" if "fs_lookup (edit_dir d (bt_remove n) s) d' n' = Some j"
    "fs_lookup (edit_dir d (bt_remove n) s) d'' n'' = Some j" "\<not> dot n'" "\<not> dot n''" for d' d'' n' n'' j
    using that wf_unique [OF wf, of d' n' j d'' n''] by (simp add: lookup_remove split: if_splits)
  show "1 < in_nlink p" if "mf_inodes s i = Some p" "in_content p = Directory e"
    and r: "referenced (edit_dir d (bt_remove n) s) i" for i p e
  proof -
    have "referenced s i" using r by (auto simp: referenced_def lookup_remove split: if_splits)
    then show ?thesis using wf_links [OF wf that(1,2)] by simp
  qed
qed

lemma wf_dotdot:
  assumes wf: "fs_wf s" and p: "readdir_all s p \<noteq> None"
  shows "fs_wf (edit_dir d (bt_insert ''..'' p) s)"
proof (rule wf_edit [OF wf sorted_bt_insert])
  show "map_of (bt_insert ''..'' p e) ''.'' = Some d \<and> (\<exists>p'. map_of (bt_insert ''..'' p e) ''..'' = Some p' \<and> readdir_all s p' \<noteq> None)"
    if "map_of e ''.'' = Some d" for e
    using that p by simp
  show "mf_inodes s j \<noteq> None" if "fs_lookup (edit_dir d (bt_insert ''..'' p) s) d' n' = Some j" for d' n' j
    using that wf_entry [OF wf, of d' n' j] p by (auto simp: lookup_insert dir_inode split: if_splits)
  show "d' = d'' \<and> n' = n''" if "fs_lookup (edit_dir d (bt_insert ''..'' p) s) d' n' = Some j"
    "fs_lookup (edit_dir d (bt_insert ''..'' p) s) d'' n'' = Some j" "\<not> dot n'" "\<not> dot n''" for d' d'' n' n'' j
    using that wf_unique [OF wf, of d' n' j d'' n''] by (auto simp: lookup_insert split: if_splits)
  show "1 < in_nlink q" if "mf_inodes s i = Some q" "in_content q = Directory e"
    and r: "referenced (edit_dir d (bt_insert ''..'' p) s) i" for i q e
  proof -
    have "referenced s i" using r by (auto simp: referenced_def lookup_insert split: if_splits)
    then show ?thesis using wf_links [OF wf that(1,2)] by simp
  qed
qed

text \<open>Other changes of one inode: neither its entries change nor whether it is a directory.\<close>

lemma wf_put:
  assumes wf: "fs_wf s" and old: "mf_inodes s i = Some p" and same: "entries_of (in_content q) = entries_of (in_content p)"
    and ok: "node_ok (mf_next_ino s) i q"
    and links: "\<And>e. in_content q = Directory e \<Longrightarrow> referenced s i \<Longrightarrow> 1 < in_nlink q"
  shows "fs_wf (put_inode i q s)"
proof -
  have dirs: "readdir_all (put_inode i q s) d = readdir_all s d" for d using old same by (simp add: readdir_entries)
  then have look: "fs_lookup (put_inode i q s) d n = fs_lookup s d n" for d n by (simp add: lookup_readdir)
  then have refs: "referenced (put_inode i q s) j = referenced s j" for j by (simp add: referenced_def)
  show ?thesis
  proof (rule fs_wfI, unfold dirs look refs)
    show "readdir_all s ROOT_INO \<noteq> None" using wf by (rule wf_root)
    show "node_ok (mf_next_ino (put_inode i q s)) j r" if "mf_inodes (put_inode i q s) j = Some r" for j r
      using that ok wf_node [OF wf, of j r] by (auto split: if_splits)
    show "mf_inodes (put_inode i q s) j \<noteq> None" if "fs_lookup s d n = Some j" for d n j
      using wf_entry [OF wf that] by simp
    show "1 < in_nlink r" if "mf_inodes (put_inode i q s) j = Some r" "in_content r = Directory e" "referenced s j" for j r e
      using that links wf_links [OF wf, of j r e] by (auto split: if_splits)
  qed (use wf_dots [OF wf] wf_unique [OF wf] in blast)+
qed

lemma wf_file_content:
  assumes "fs_wf s" and "mf_inodes s i = Some p" and "is_file (in_mode p)"
  shows "fs_wf (put_inode i (p\<lparr>in_content := File data, in_size := of_nat (length data)\<rparr>) s)"
proof (rule wf_put [OF assms(1,2)])
  have "node_ok (mf_next_ino s) i p" by (rule wf_node [OF assms(1,2)])
  with assms(3) show "entries_of (in_content (p\<lparr>in_content := File data, in_size := of_nat (length data)\<rparr>)) = entries_of (in_content p)"
    and "node_ok (mf_next_ino s) i (p\<lparr>in_content := File data, in_size := of_nat (length data)\<rparr>)"
    by (auto simp: node_ok_def split: inode_content.splits)
qed simp

text \<open>A fresh inode that nothing leads to yet.\<close>

lemma fresh_ino: "fs_wf s \<Longrightarrow> mf_inodes s (mf_next_ino s) = None"
  using wf_node [of s "mf_next_ino s"] by (cases "mf_inodes s (mf_next_ino s)") (auto simp: node_ok_def)

lemma fresh_unreferenced: "fs_wf s \<Longrightarrow> \<not> referenced s (mf_next_ino s)"
  using wf_entry fresh_ino by (fastforce simp: referenced_def)

lemma wf_new:
  assumes wf: "fs_wf s" and room: "mf_next_ino s \<noteq> - 1" and q: "node_ok (mf_next_ino s + 1) (mf_next_ino s) q"
    and dir: "\<And>e. in_content q = Directory e \<Longrightarrow> \<exists>p. e = bt_insert ''..'' p (bt_insert ''.'' (mf_next_ino s) []) \<and> readdir_all s p \<noteq> None"
  shows "fs_wf (put_inode (mf_next_ino s) q (s\<lparr>mf_next_ino := mf_next_ino s + 1\<rparr>))"
    and "\<not> referenced (put_inode (mf_next_ino s) q (s\<lparr>mf_next_ino := mf_next_ino s + 1\<rparr>)) (mf_next_ino s)"
proof -
  let ?c = "mf_next_ino s" and ?s = "put_inode (mf_next_ino s) q (s\<lparr>mf_next_ino := mf_next_ino s + 1\<rparr>)"
  have more: "i < ?c + 1" if "i \<le> ?c" for i
    using that room unatSuc [of ?c] by (auto simp: word_less_nat_alt word_le_nat_alt add.commute eq_neg_iff_add_eq_0)
  have dirs: "readdir_all ?s d = (if d = ?c then entries_of (in_content q) else readdir_all s d)" for d
    by (simp add: readdir_entries)
  have look: "fs_lookup ?s d n = Some j \<Longrightarrow> \<not> dot n \<Longrightarrow> fs_lookup s d n = Some j" for d n j
    using dir fresh_ino [OF wf] by (auto simp: lookup_readdir dirs dot_def split: option.splits if_splits)
  have ref: "referenced s i" if "referenced ?s i" for i using that look unfolding referenced_def by meson
  then show "\<not> referenced ?s ?c" using fresh_unreferenced [OF wf] by blast
  show "fs_wf ?s"
  proof (rule fs_wfI)
    show "readdir_all ?s ROOT_INO \<noteq> None" using wf_root [OF wf] fresh_ino [OF wf] by (auto simp: dirs dir_inode)
    show "node_ok (mf_next_ino ?s) i p" if p: "mf_inodes ?s i = Some p" for i p
    proof (cases "i = ?c")
      case True then show ?thesis using p q by simp
    next
      case False
      then have "node_ok ?c i p" using p wf_node [OF wf] by simp
      then show ?thesis using more [OF order_less_imp_le, of i] by (simp add: node_ok_def)
    qed
    show "mf_inodes ?s j \<noteq> None" if "fs_lookup ?s d n = Some j" for d n j
      using that dir wf_entry [OF wf, of d n j]
      by (fastforce simp: lookup_readdir dirs dir_inode split: option.splits if_splits)
    show "map_of e ''.'' = Some d \<and> (\<exists>p. map_of e ''..'' = Some p \<and> readdir_all ?s p \<noteq> None)" if "readdir_all ?s d = Some e" for d e
      using that dir wf_dots [OF wf, of d e] fresh_ino [OF wf]
      by (fastforce simp: dirs dir_inode split: if_splits)
    show "d = d' \<and> n = n'" if "fs_lookup ?s d n = Some j" "fs_lookup ?s d' n' = Some j" "\<not> dot n" "\<not> dot n'" for d d' n n' j
      using wf_unique [OF wf look [OF that(1,3)] look [OF that(2,4)] that(3,4)] .
    show "1 < in_nlink p" if "mf_inodes ?s i = Some p" "in_content p = Directory e" "referenced ?s i" for i p e
      using that wf_links [OF wf, of i p e] ref [of i] fresh_unreferenced [OF wf] by (auto split: if_splits)
  qed
qed

lemma wf_drop:
  assumes wf: "fs_wf s" and c: "\<not> referenced s c"
    and links: "\<And>p e. mf_inodes s c = Some p \<Longrightarrow> in_content p = Directory e \<Longrightarrow> 1 < in_nlink p"
  shows "fs_wf (drop_link c s)"
proof (cases "mf_inodes s c")
  case None
  then show ?thesis using wf by (simp add: drop_link_def)
next
  case (Some p)
  have ok: "node_ok (mf_next_ino s) c p" by (rule wf_node [OF wf Some])
  show ?thesis
  proof (cases "\<exists>e. in_content p = Directory e")
    case True
    then have l: "1 < in_nlink p" using links [OF Some] by blast
    then have "in_nlink p \<noteq> 0" "in_nlink p - 1 \<noteq> 0" by auto
    then have "drop_link c s = put_inode c (p\<lparr>in_nlink := in_nlink p - 1\<rparr>) s"
      using Some by (simp add: drop_link_def Let_def)
    moreover have "node_ok (mf_next_ino s) c (p\<lparr>in_nlink := in_nlink p - 1\<rparr>)"
      using ok True \<open>in_nlink p - 1 \<noteq> 0\<close> by (auto simp: node_ok_def)
    ultimately show ?thesis using wf_put [OF wf Some] c by auto
  next
    case False
    then have "in_nlink p = 1" using ok by (auto simp: node_ok_def split: inode_content.splits)
    then have drop: "drop_link c s = s\<lparr>mf_inodes := (mf_inodes s)(c := None)\<rparr>" using Some by (simp add: drop_link_def)
    have dirs: "readdir_all (drop_link c s) d = readdir_all s d" for d
      using False Some unfolding drop by (cases "in_content p") (auto simp: readdir_entries)
    then have look: "fs_lookup (drop_link c s) d n = fs_lookup s d n" for d n by (simp add: lookup_readdir)
    then have refs: "referenced (drop_link c s) j = referenced s j" for j by (simp add: referenced_def)
    have other: "j \<noteq> c" if l: "fs_lookup s d n = Some j" for d n j
    proof
      assume "j = c"
      obtain e where e: "readdir_all s d = Some e" "map_of e n = Some j"
        using l by (auto simp: lookup_readdir split: option.splits)
      have "dot n" using c l \<open>j = c\<close> by (auto simp: referenced_def)
      then have "readdir_all s j \<noteq> None" using wf_dots [OF wf e(1)] e by (auto simp: dot_def)
      then show False using False Some \<open>j = c\<close> by (auto simp: dir_inode)
    qed
    show ?thesis
    proof (rule fs_wfI, unfold dirs look refs)
      show "readdir_all s ROOT_INO \<noteq> None" using wf by (rule wf_root)
      show "node_ok (mf_next_ino (drop_link c s)) j r" if "mf_inodes (drop_link c s) j = Some r" for j r
        using that wf_node [OF wf, of j r] by (auto simp: drop split: if_splits)
      show "mf_inodes (drop_link c s) j \<noteq> None" if "fs_lookup s d n = Some j" for d n j
        using wf_entry [OF wf that] other [OF that] by (simp add: drop)
      show "1 < in_nlink r" if "mf_inodes (drop_link c s) j = Some r" "in_content r = Directory e" "referenced s j" for j r e
        using that wf_links [OF wf, of j r e] by (auto simp: drop split: if_splits)
    qed (use wf_dots [OF wf] wf_unique [OF wf] in blast)+
  qed
qed

lemma wf_bump:
  assumes wf: "fs_wf s" and d: "readdir_all s i = Some e"
  shows "fs_wf (snd (bump_nlink i s))"
proof -
  obtain p where p: "mf_inodes s i = Some p" "in_content p = Directory e" using d by (auto simp: dir_inode)
  show ?thesis
  proof (cases "in_nlink p = - 1")
    case True then show ?thesis using wf p by (simp add: bump_nlink_def)
  next
    case False
    have ok: "node_ok (mf_next_ino s) i p" by (rule wf_node [OF wf p(1)])
    have n: "unat (in_nlink p + 1) = Suc (unat (in_nlink p))"
      using False unatSuc [of "in_nlink p"] by (auto simp: add.commute eq_neg_iff_add_eq_0)
    have "0 < unat (in_nlink p)" using ok p(2) by (simp add: node_ok_def unat_gt_0)
    with n have l: "1 < in_nlink p + 1" by (simp add: word_less_nat_alt)
    have "bump_nlink i s = (Ok (), put_inode i (p\<lparr>in_nlink := in_nlink p + 1\<rparr>) s)"
      using False p(1) by (simp add: bump_nlink_def)
    moreover have "fs_wf (put_inode i (p\<lparr>in_nlink := in_nlink p + 1\<rparr>) s)"
      by (rule wf_put [OF wf p(1)]) (use ok p l in \<open>auto simp: node_ok_def\<close>)
    ultimately show ?thesis by simp
  qed
qed

section \<open>Every operation keeps file systems well-formed\<close>

lemma dir_entries_cases:
  obtains (dir) e where "dir_entries i s = (Ok e, s)" "readdir_all s i = Some e"
  | (error) x where "dir_entries i s = (Err x, s)"
proof (cases "mf_inodes s i")
  case None then show ?thesis using error by (simp add: dir_entries_def)
next
  case (Some p)
  then show ?thesis using dir error by (cases "in_content p") (simp_all add: dir_entries_def readdir_all_def)
qed

lemma bad_name_dot: "\<not> bad_name n \<Longrightarrow> \<not> dot n"
  by (simp add: bad_name_def dot_def)

lemma alloc_cases:
  obtains (panic) "alloc_ino s = (Panic, s)"
  | (fresh) "mf_next_ino s \<noteq> - 1" "alloc_ino s = (Ok (mf_next_ino s), s\<lparr>mf_next_ino := mf_next_ino s + 1\<rparr>)"
  by (cases "mf_next_ino s = - 1") (auto simp: alloc_ino_def)

lemma next_larger: "mf_next_ino s \<noteq> - 1 \<Longrightarrow> mf_next_ino s < mf_next_ino s + 1"
  using unatSuc [of "mf_next_ino s"] by (auto simp: word_less_nat_alt add.commute eq_neg_iff_add_eq_0)

text \<open>A new inode and its entry.\<close>

lemma wf_attach:
  assumes wf: "fs_wf s" and room: "mf_next_ino s \<noteq> - 1" and q: "node_ok (mf_next_ino s + 1) (mf_next_ino s) q"
    and dir: "\<And>e. in_content q = Directory e \<Longrightarrow> 1 < in_nlink q \<and>
      (\<exists>p. e = bt_insert ''..'' p (bt_insert ''.'' (mf_next_ino s) []) \<and> readdir_all s p \<noteq> None)"
    and n: "\<not> dot n"
  shows "fs_wf (edit_dir d (bt_insert n (mf_next_ino s)) (put_inode (mf_next_ino s) q (s\<lparr>mf_next_ino := mf_next_ino s + 1\<rparr>)))"
  using wf_link [OF wf_new(1) [OF wf room q] n _ wf_new(2) [OF wf room q], of q] dir by simp

lemma mkdir_wf [pres]: "preserves fs_wf (mkdir parent name)"
proof (rule preservesI)
  fix s assume wf: "fs_wf s"
  show "fs_wf (snd (mkdir parent name s))"
  proof (cases "bad_name name")
    case True then show ?thesis using wf by (simp add: mkdir_def throw_def)
  next
    case ok: False
    show ?thesis
    proof (cases rule: dir_entries_cases [of parent s])
      case (dir e)
      show ?thesis
      proof (cases "map_of e name")
        case None
        show ?thesis
        proof (cases rule: alloc_cases [of s])
          case fresh
          let ?c = "mf_next_ino s"
          let ?s = "edit_dir parent (bt_insert name ?c) (put_inode ?c (new_directory ?c parent) (s\<lparr>mf_next_ino := ?c + 1\<rparr>))"
          have "fs_wf ?s"
            by (rule wf_attach [OF wf fresh(1)])
               (use next_larger [OF fresh(1)] dir bad_name_dot [OF ok] in \<open>auto simp: node_ok_def new_directory_def new_inode_def\<close>)
          moreover have "\<exists>e. readdir_all ?s parent = Some e"
            using dir(2) by (auto simp: readdir_edit new_directory_def new_inode_def)
          ultimately have "fs_wf (snd (bump_nlink parent ?s))" using wf_bump by blast
          then show ?thesis using ok dir(1) None fresh(2)
            by (auto simp: mkdir_def bind_def seq_def modify_def ret_def split: prod.splits result.splits)
        qed (use wf ok dir None in \<open>simp add: mkdir_def bind_def\<close>)
      qed (use wf ok dir in \<open>simp add: mkdir_def bind_def\<close>)
    qed (use wf ok in \<open>simp add: mkdir_def bind_def\<close>)
  qed
qed

lemma file_node_ok:
  assumes "mf_next_ino s \<noteq> - 1"
  shows "node_ok (mf_next_ino s + 1) (mf_next_ino s) (file_node (mf_next_ino s) data)"
    and "node_ok (mf_next_ino s + 1) (mf_next_ino s) (new_inode (mf_next_ino s) PROC_444 0 1 (ProcFile kind))"
  using next_larger [OF assms] by (simp_all add: node_ok_def file_node_def new_inode_def)

lemma create_file_wf [pres]: "preserves fs_wf (create_file parent name data)"
proof (rule preservesI)
  fix s assume wf: "fs_wf s"
  show "fs_wf (snd (create_file parent name data s))"
  proof (cases "bad_name name")
    case True then show ?thesis using wf by (simp add: create_file_def throw_def)
  next
    case ok: False
    show ?thesis
    proof (cases rule: dir_entries_cases [of parent s])
      case (dir e)
      show ?thesis
      proof (cases "map_of e name")
        case None
        show ?thesis
        proof (cases rule: alloc_cases [of s])
          case fresh
          have "fs_wf (edit_dir parent (bt_insert name (mf_next_ino s))
              (put_inode (mf_next_ino s) (file_node (mf_next_ino s) data) (s\<lparr>mf_next_ino := mf_next_ino s + 1\<rparr>)))"
            by (rule wf_attach [OF wf fresh(1) file_node_ok(1) [OF fresh(1)]])
               (simp_all add: file_node_def new_inode_def bad_name_dot [OF ok])
          then show ?thesis using ok dir(1) None fresh(2)
            by (simp add: create_file_def bind_def seq_def modify_def ret_def)
        qed (use wf ok dir None in \<open>simp add: create_file_def bind_def\<close>)
      next
        case (Some c)
        then show ?thesis using wf ok dir
          by (auto simp: create_file_def bind_def gets_def seq_def modify_def ret_def throw_def intro: wf_file_content split: option.split)
      qed
    qed (use wf ok in \<open>simp add: create_file_def bind_def\<close>)
  qed
qed

lemma create_proc_file_wf: "\<not> dot name \<Longrightarrow> preserves fs_wf (create_proc_file parent name kind)"
proof (rule preservesI)
  fix s assume n: "\<not> dot name" and wf: "fs_wf s"
  show "fs_wf (snd (create_proc_file parent name kind s))"
  proof (cases rule: alloc_cases [of s])
    case fresh
    have "fs_wf (edit_dir parent (bt_insert name (mf_next_ino s))
        (put_inode (mf_next_ino s) (new_inode (mf_next_ino s) PROC_444 0 1 (ProcFile kind)) (s\<lparr>mf_next_ino := mf_next_ino s + 1\<rparr>)))"
      by (rule wf_attach [OF wf fresh(1) file_node_ok(2) [OF fresh(1)] _ n]) (simp add: new_inode_def)
    then show ?thesis using fresh(2) by (simp add: create_proc_file_def bind_def seq_def modify_def)
  qed (use wf in \<open>simp add: create_proc_file_def bind_def\<close>)
qed

lemma file_mode: "fs_wf s \<Longrightarrow> mf_inodes s i = Some p \<Longrightarrow> in_content p = File d \<Longrightarrow> is_file (in_mode p)"
  using wf_node [of s i p] by (simp add: node_ok_def)

lemma contents_wf [pres]: "preserves fs_wf (write_file i data)" "preserves fs_wf (append_file i data)" "preserves fs_wf fs_tick"
proof (rule_tac [1-3] preservesI)
  fix s assume wf: "fs_wf s"
  show "fs_wf (snd (write_file i data s))"
    using wf file_mode [OF wf] by (auto simp: write_file_def intro: wf_file_content split: option.split inode_content.split)
  show "fs_wf (snd (append_file i data s))"
    using wf file_mode [OF wf] wf_file_content [OF wf, of i]
    by (auto simp: append_file_def simp del: length_append split: option.split inode_content.split)
  have "fs_wf (s\<lparr>mf_boot_ticks := t\<rparr>) = fs_wf s" for t
    by (simp add: fs_wf_def readdir_all_def fs_lookup_def referenced_def)
  then show "fs_wf (snd (fs_tick s))" using wf by (simp add: fs_tick_def)
qed

lemma remove_entry_wf [pres]: "preserves fs_wf (remove_entry parent name)"
proof (rule preservesI)
  fix s assume wf: "fs_wf s"
  show "fs_wf (snd (remove_entry parent name s))"
  proof (cases "dot name")
    case True then show ?thesis using wf by (auto simp: remove_entry_def throw_def dot_def)
  next
    case n: False
    show ?thesis
    proof (cases rule: dir_entries_cases [of parent s])
      case (dir e)
      show ?thesis
      proof (cases "map_of e name")
        case (Some c)
        let ?s = "edit_dir parent (bt_remove name) s"
        have here: "fs_lookup s parent name = Some c" using dir Some by (simp add: lookup_readdir)
        have free: "\<not> referenced ?s c"
          using wf_unique [OF wf here _ n] by (auto simp: referenced_def lookup_remove split: if_splits)
        have "1 < in_nlink p" if p: "mf_inodes ?s c = Some p" "in_content p = Directory e'" for p e'
          using p(1)
        proof (rule edit_dir_node)
          fix p0 assume 0: "mf_inodes s c = Some p0" "in_nlink p = in_nlink p0"
            "in_content p = in_content p0 \<or> c = parent \<and> (\<exists>e. in_content p0 = Directory e \<and> in_content p = Directory (bt_remove name e))"
          then obtain e0 where "in_content p0 = Directory e0" using p(2) by metis
          moreover have "referenced s c" using here n by (auto simp: referenced_def)
          ultimately show ?thesis using wf_links [OF wf 0(1)] 0(2) by simp
        qed
        then have "fs_wf (drop_link c ?s)" by (rule wf_drop [OF wf_unlink [OF wf n] free])
        then show ?thesis using wf n dir(1) Some
          by (simp add: remove_entry_def bind_def lift_def gets_def modify_def throw_def dot_def)
      qed (use wf n dir in \<open>simp add: remove_entry_def bind_def lift_def dot_def\<close>)
    qed (use wf n in \<open>simp add: remove_entry_def bind_def dot_def\<close>)
  qed
qed

lemma drop_link_other: "i \<noteq> c \<Longrightarrow> mf_inodes (drop_link c s) i = mf_inodes s i"
  by (simp add: drop_link_def Let_def split: option.split)

lemma drop_link_dirs:
  assumes "readdir_all s p \<noteq> None" and links: "\<And>q e. mf_inodes s c = Some q \<Longrightarrow> in_content q = Directory e \<Longrightarrow> 1 < in_nlink q"
  shows "readdir_all (drop_link c s) p \<noteq> None"
proof (cases "p = c")
  case True
  with assms(1) obtain q e where q: "mf_inodes s c = Some q" "in_content q = Directory e" by (auto simp: dir_inode)
  have "in_nlink q \<noteq> 0" "in_nlink q - 1 \<noteq> 0" using links [OF q] by auto
  then have "drop_link c s = put_inode c (q\<lparr>in_nlink := in_nlink q - 1\<rparr>) s" using q(1) by (simp add: drop_link_def Let_def)
  then show ?thesis using True q by simp
next
  case False
  then show ?thesis using assms(1) by (simp add: readdir_entries drop_link_other)
qed

lemma lookup_drop: "fs_lookup (drop_link c s) d n = Some j \<Longrightarrow> fs_lookup s d n = Some j"
  by (auto simp: fs_lookup_def drop_link_def Let_def split: option.splits if_splits)

text \<open>An inode that is there, and has two links if it is a directory.\<close>

definition linkable :: "mem_fs \<Rightarrow> ino \<Rightarrow> bool" where
  "linkable s i \<longleftrightarrow> (\<exists>q. mf_inodes s i = Some q \<and> (\<forall>e. in_content q = Directory e \<longrightarrow> 1 < in_nlink q))"

lemma linkable_referenced: "fs_wf s \<Longrightarrow> referenced s i \<Longrightarrow> linkable s i"
  using wf_entry wf_links unfolding linkable_def referenced_def by (metis not_None_eq)

lemma linkable_edit: "linkable s i \<Longrightarrow> linkable (edit_dir d f s) i"
  by (cases rule: edit_dir_cases [of s d f]) (auto simp: linkable_def)

lemma linkable_drop: "linkable s i \<Longrightarrow> i \<noteq> c \<Longrightarrow> linkable (drop_link c s) i"
  by (simp add: linkable_def drop_link_other)

lemma remove_entry_cases:
  assumes "remove_entry parent name s = (r, t)"
  obtains (same) "t = s" "r \<noteq> Panic"
  | (gone) c where "\<not> dot name" "fs_lookup s parent name = Some c" "t = drop_link c (edit_dir parent (bt_remove name) s)" "r \<noteq> Panic"
proof (cases "dot name")
  case True
  then show ?thesis using assms same by (auto simp: remove_entry_def throw_def dot_def)
next
  case n: False
  show ?thesis
  proof (cases rule: dir_entries_cases [of parent s])
    case (dir e)
    show ?thesis
    proof (cases "map_of e name")
      case None
      then show ?thesis using assms same n dir by (auto simp: remove_entry_def bind_def lift_def dot_def)
    next
      case (Some c)
      then have "fs_lookup s parent name = Some c" using dir by (simp add: lookup_readdir)
      then show ?thesis using assms same gone n dir Some
        by (cases "nonempty_dir s c") (auto simp: remove_entry_def bind_def lift_def gets_def modify_def throw_def dot_def)
    qed
  qed (use assms same n in \<open>auto simp: remove_entry_def bind_def dot_def\<close>)
qed

text \<open>Moving an ordinary entry to an ordinary name of an existing directory.\<close>

lemma rename_wf:
  assumes wf: "fs_wf s" and n: "\<not> dot src_name" "\<not> dot dst_name" and dst: "readdir_all s dst \<noteq> None"
  shows "fs_wf (snd (rename src src_name dst dst_name s))"
proof (cases rule: dir_entries_cases [of src s])
  case (dir e)
  show ?thesis
  proof (cases "map_of e src_name")
    case (Some i)
    let ?s = "edit_dir src (bt_remove src_name) s"
    have here: "fs_lookup s src src_name = Some i" using dir Some by (simp add: lookup_readdir)
    have wf1: "fs_wf ?s" by (rule wf_unlink [OF wf n(1)])
    have free1: "\<not> referenced ?s i"
      using wf_unique [OF wf here _ n(1)] by (auto simp: referenced_def lookup_remove split: if_splits)
    have link1: "linkable ?s i" using here n(1) by (intro linkable_edit linkable_referenced [OF wf]) (auto simp: referenced_def)
    have dst1: "readdir_all ?s dst \<noteq> None" using dst unfolding dirs_insert .
    obtain r t where rm: "remove_entry dst dst_name ?s = (r, t)" by (cases "remove_entry dst dst_name ?s")
    have wf2: "fs_wf t" using remove_entry_wf [of dst dst_name] wf1 rm by (metis preservesD)
    have "\<not> referenced t i \<and> linkable t i \<and> readdir_all t dst \<noteq> None \<and> r \<noteq> Panic"
      using rm
    proof (cases rule: remove_entry_cases)
      case (gone c)
      have c: "referenced ?s c" using gone(1,2) by (auto simp: referenced_def)
      then have "linkable (edit_dir dst (bt_remove dst_name) ?s) c" by (intro linkable_edit linkable_referenced [OF wf1])
      then have "readdir_all t dst \<noteq> None"
        unfolding gone(3) by (intro drop_link_dirs) (use dst1 in \<open>auto simp: dirs_insert linkable_def simp del: not_None_eq\<close>)
      moreover have "fs_lookup ?s d k = Some j" if "fs_lookup t d k = Some j" for d k j
        using lookup_drop [OF that [unfolded gone(3)]] by (simp add: lookup_remove [of dst] split: if_splits)
      then have "\<not> referenced t i" using free1 unfolding referenced_def by blast
      moreover have "linkable t i" unfolding gone(3) using c free1 by (intro linkable_drop linkable_edit link1) auto
      ultimately show ?thesis using gone(4) by blast
    qed (use free1 link1 dst1 in simp)
    then have free2: "\<not> referenced t i" and link2: "linkable t i" and dst2: "readdir_all t dst \<noteq> None" and r: "r \<noteq> Panic" by blast+
    have "fs_wf (edit_dir dst (bt_insert dst_name i) t)"
      using link2 by (auto simp: linkable_def intro: wf_link [OF wf2 n(2) _ free2])
    then have "fs_wf (edit_dir i (bt_insert ''..'' dst) (edit_dir dst (bt_insert dst_name i) t))"
      by (rule wf_dotdot) (use dst2 in \<open>unfold dirs_insert\<close>)
    moreover have "snd (rename src src_name dst dst_name s) = edit_dir i (bt_insert ''..'' dst) (edit_dir dst (bt_insert dst_name i) t)"
      using dir(1) Some rm r
      by (cases r) (simp_all add: rename_def bind_def lift_def seq_def modify_def ignore_def)
    ultimately show ?thesis by simp
  qed (use wf dir in \<open>simp add: rename_def bind_def lift_def\<close>)
qed (use wf in \<open>simp add: rename_def bind_def\<close>)

lemma copy_file_wf [pres]: "preserves fs_wf (copy_file env i p n)"
  unfolding copy_file_def by (intro pres)

lemma preserves_unwrap [pres]: "preserves P m \<Longrightarrow> preserves P (unwrap m)"
  by (auto simp: preserves_def unwrap_def split: prod.splits result.splits)

lemma memfs_new_wf: "fs_wf memfs_new"
  by (rule fs_wfI)
     (auto simp: memfs_new_def new_directory_def new_inode_def node_ok_def referenced_def fs_lookup_def readdir_all_def dot_def
      split: if_splits)

lemma populate_wf: "preserves fs_wf populate_defaults"
  unfolding populate_defaults_def Let_def
  by (intro pres create_proc_file_wf) (simp_all add: dot_def)

section \<open>Sequences of operations\<close>

datatype fs_op =
    FsMkdir ino string | FsCreate ino string "u8 list" | FsWrite ino "u8 list" | FsAppend ino "u8 list"
  | FsRemove ino string | FsRename ino string ino string | FsCopy ino ino string | FsTick

text \<open>Entries are moved under ordinary names and into directories.\<close>

fun fs_step :: "proc_env \<Rightarrow> fs_op \<Rightarrow> mem_fs \<Rightarrow> bool \<times> mem_fs" where
  "fs_step env (FsMkdir p n) s = (case mkdir p n s of (r, s') \<Rightarrow> (r \<noteq> Panic, s'))"
| "fs_step env (FsCreate p n d) s = (case create_file p n d s of (r, s') \<Rightarrow> (r \<noteq> Panic, s'))"
| "fs_step env (FsWrite i d) s = (case write_file i d s of (r, s') \<Rightarrow> (r \<noteq> Panic, s'))"
| "fs_step env (FsAppend i d) s = (case append_file i d s of (r, s') \<Rightarrow> (r \<noteq> Panic, s'))"
| "fs_step env (FsRemove p n) s = (case remove_entry p n s of (r, s') \<Rightarrow> (r \<noteq> Panic, s'))"
| "fs_step env (FsRename p n q m) s =
     (if dot n \<or> dot m \<or> readdir_all s q = None then (True, s)
      else case rename p n q m s of (r, s') \<Rightarrow> (r \<noteq> Panic, s'))"
| "fs_step env (FsCopy i p n) s = (case copy_file env i p n s of (r, s') \<Rightarrow> (r \<noteq> Panic, s'))"
| "fs_step env FsTick s = (case fs_tick s of (r, s') \<Rightarrow> (r \<noteq> Panic, s'))"

lemma fs_step_wf: "fs_wf s \<Longrightarrow> fs_wf (snd (fs_step env op s))"
proof (cases op)
  case (FsRename p n q m)
  then show "fs_wf s \<Longrightarrow> ?thesis"
    using rename_wf [of s n m q p] by (auto split: prod.splits)
qed (auto split: prod.splits dest: preservesD [OF mkdir_wf] preservesD [OF create_file_wf] preservesD [OF contents_wf(1)]
    preservesD [OF contents_wf(2)] preservesD [OF contents_wf(3)] preservesD [OF remove_entry_wf] preservesD [OF copy_file_wf])

interpretation mfs: op_invariant "fs_step env" fs_wf
  by unfold_locales (rule fs_step_wf)

lemma fs_init_wf: "fs_wf (snd fs_init)"
  unfolding fs_init_def using populate_wf memfs_new_wf by (simp add: preserves_def)

text \<open>C16. The file system stays a forest of directories. From the initial contents, after every
  sequence of operations, in which entries are moved only under ordinary names and into directories: the root is a directory; every entry leads to an inode; \<open>.\<close> leads
  back to its directory and \<open>..\<close> to a directory; no inode is entered twice under ordinary
  names; the names of a directory are in strictly increasing order; and the recorded size of a
  file is the length of its contents.\<close>

theorem memfs_invariant:
  assumes "s = snd (run (fs_step env) ops (snd fs_init))"
  shows "readdir_all s ROOT_INO \<noteq> None
    \<and> (\<forall>d n j. fs_lookup s d n = Some j \<longrightarrow> mf_inodes s j \<noteq> None)
    \<and> (\<forall>d e. readdir_all s d = Some e \<longrightarrow> sorted_wrt (<) (map fst e) \<and> map_of e ''.'' = Some d
         \<and> (\<exists>p. map_of e ''..'' = Some p \<and> readdir_all s p \<noteq> None))
    \<and> (\<forall>d d' n n' j. fs_lookup s d n = Some j \<longrightarrow> fs_lookup s d' n' = Some j \<longrightarrow> \<not> dot n \<longrightarrow> \<not> dot n' \<longrightarrow> d = d' \<and> n = n')
    \<and> (\<forall>i p data. mf_inodes s i = Some p \<longrightarrow> in_content p = File data \<longrightarrow> in_size p = of_nat (length data))"
proof -
  have wf: "fs_wf s" unfolding assms by (rule mfs.inv_run [OF fs_init_wf])
  have "sorted_wrt (<) (map fst e)" if "readdir_all s d = Some e" for d e
    using that wf_node [OF wf, of d] by (auto simp: dir_inode node_ok_def)
  moreover have "in_size p = of_nat (length data)" if "mf_inodes s i = Some p" "in_content p = File data" for i p data
    using that wf_node [OF wf, of i p] by (simp add: node_ok_def)
  ultimately show ?thesis
    using wf_root [OF wf] wf_entry [OF wf] wf_dots [OF wf] wf_unique [OF wf] by (intro conjI allI impI) blast+
qed

theorem memfs_invariant_witness:
  "\<exists>e. readdir_all (snd (run (fs_step \<lparr>pe_total = 0, pe_free = 0, pe_used = 0, pe_ticks = 0\<rparr>)
       [FsMkdir ROOT_INO ''apps'', FsCreate ROOT_INO ''x'' [1, 2], FsRename ROOT_INO ''x'' ROOT_INO ''y'', FsRemove ROOT_INO ''y'']
       (snd fs_init))) ROOT_INO = Some e \<and> sorted_wrt (<) (map fst e) \<and> map_of e ''.'' = Some ROOT_INO"
proof -
  define s where "s = snd (run (fs_step \<lparr>pe_total = 0, pe_free = 0, pe_used = 0, pe_ticks = 0\<rparr>)
       [FsMkdir ROOT_INO ''apps'', FsCreate ROOT_INO ''x'' [1, 2], FsRename ROOT_INO ''x'' ROOT_INO ''y'', FsRemove ROOT_INO ''y'']
       (snd fs_init))"
  note inv = memfs_invariant [OF s_def]
  from conjunct1 [OF inv] obtain e where e: "readdir_all s ROOT_INO = Some e" by blast
  from inv have "\<forall>d e. readdir_all s d = Some e \<longrightarrow> sorted_wrt (<) (map fst e) \<and> map_of e ''.'' = Some d
         \<and> (\<exists>p. map_of e ''..'' = Some p \<and> readdir_all s p \<noteq> None)" by (elim conjE)
  from this [rule_format, OF e] e show ?thesis unfolding s_def by blast
qed

text \<open>
  Without the restriction on moves: when the destination is no directory, the entry is taken
  from the source, the call succeeds, and nothing leads to the inode any more.
\<close>

lemma rename_loses_entry:
  assumes wf: "fs_wf s" and entry: "fs_lookup s src n = Some i" "\<not> dot n" "readdir_all s i = None" and dst: "readdir_all s dst = None"
  shows "\<exists>s'. rename src n dst m s = (Ok (), s') \<and> (\<forall>d k. fs_lookup s' d k = Some i \<longrightarrow> dot k)"
proof -
  let ?s = "edit_dir src (bt_remove n) s"
  obtain e where e: "dir_entries src s = (Ok e, s)" "map_of e n = Some i"
    using entry(1) by (cases rule: dir_entries_cases [of src s]) (auto simp: lookup_readdir dir_entries_def dir_inode split: option.splits)
  have none: "readdir_all ?s dst = None" "readdir_all ?s i = None" using dst entry(3) by (simp_all add: dirs_insert)
  have keep: "edit_dir d f ?s = ?s" if "readdir_all ?s d = None" for d f
    using that by (cases rule: edit_dir_cases [of ?s d f]) simp_all
  have rm: "ignore (remove_entry dst m) ?s = (Ok (), ?s)"
    using none(1) by (cases rule: dir_entries_cases [of dst ?s])
      (auto simp: ignore_def remove_entry_def throw_def bind_def)
  have "rename src n dst m s = (Ok (), ?s)"
    using e rm keep none by (simp add: rename_def bind_def lift_def seq_def modify_def)
  moreover have "dot k" if "fs_lookup ?s d k = Some i" for d k
    using that wf_unique [OF wf entry(1), of d k] entry(2) by (auto simp: lookup_remove split: if_splits)
  ultimately show ?thesis by blast
qed

section \<open>Ordinary entries form a tree\<close>

text \<open>
  No ordinary entry leads to the root, so a path of ordinary names is determined by the inode
  it leads to. An operation only adds entries of fresh inodes or moves existing ones.
\<close>

definition fs_sound :: "mem_fs \<Rightarrow> bool" where
  "fs_sound s \<longleftrightarrow> fs_wf s \<and> \<not> referenced s ROOT_INO"

lemma ref_insert: "referenced (edit_dir d (bt_insert n c) s) i \<Longrightarrow> i = c \<or> referenced s i"
  by (auto simp: referenced_def lookup_insert split: if_splits)

lemma ref_dotdot: "referenced (edit_dir d (bt_insert ''..'' p) s) i \<Longrightarrow> referenced s i"
  by (auto simp: referenced_def lookup_insert split: if_splits)

lemma ref_remove: "referenced (edit_dir d (bt_remove n) s) i \<Longrightarrow> referenced s i"
  by (auto simp: referenced_def lookup_remove split: if_splits)

lemma ref_drop: "referenced (drop_link c s) i \<Longrightarrow> referenced s i"
  using lookup_drop unfolding referenced_def by meson

lemma ref_put:
  assumes "\<And>e m j. in_content q = Directory e \<Longrightarrow> map_of e m = Some j \<Longrightarrow> dot m \<or> map_of e m = fs_lookup s c m"
    and "referenced (put_inode c q s) i"
  shows "referenced s i"
proof -
  obtain d n where n: "\<not> dot n" "fs_lookup (put_inode c q s) d n = Some i" using assms(2) by (auto simp: referenced_def)
  have "fs_lookup s d n = Some i"
  proof (cases "d = c")
    case True
    then obtain e where "in_content q = Directory e" "map_of e n = Some i"
      using n(2) by (auto simp: fs_lookup_def split: inode_content.splits)
    then show ?thesis using assms(1) n(1) True by metis
  qed (use n in \<open>simp add: fs_lookup_def\<close>)
  then show ?thesis using n(1) by (auto simp: referenced_def)
qed

lemma ref_next: "referenced (s\<lparr>mf_next_ino := k\<rparr>) = referenced s"
  by (simp add: fun_eq_iff referenced_def fs_lookup_def)

lemma ref_bump: "referenced (snd (bump_nlink d s)) i \<Longrightarrow> referenced s i"
proof (cases "mf_inodes s d")
  case (Some p)
  then show "referenced (snd (bump_nlink d s)) i \<Longrightarrow> referenced s i"
    using ref_put [of "p\<lparr>in_nlink := in_nlink p + 1\<rparr>" s d i] by (simp add: bump_nlink_def fs_lookup_def split: if_splits)
qed (simp add: bump_nlink_def)

lemma ref_attach:
  assumes "fs_sound s" and q: "\<And>e m j. in_content q = Directory e \<Longrightarrow> map_of e m = Some j \<Longrightarrow> dot m"
  shows "\<not> referenced (edit_dir d (bt_insert n (mf_next_ino s)) (put_inode (mf_next_ino s) q (s\<lparr>mf_next_ino := k\<rparr>))) ROOT_INO"
proof
  let ?c = "mf_next_ino s"
  assume "referenced (edit_dir d (bt_insert n ?c) (put_inode ?c q (s\<lparr>mf_next_ino := k\<rparr>))) ROOT_INO"
  then have "ROOT_INO = ?c \<or> referenced s ROOT_INO"
    using ref_insert [of d n ?c _ ROOT_INO] ref_put [of q "s\<lparr>mf_next_ino := k\<rparr>" ?c ROOT_INO] q unfolding ref_next by blast
  moreover have "ROOT_INO \<noteq> ?c"
    using fresh_ino [of s] wf_root [of s] assms(1) by (auto simp: fs_sound_def readdir_all_def)
  ultimately show False using assms(1) by (simp add: fs_sound_def)
qed

lemma preserves_sound:
  assumes "preserves fs_wf m" and "\<And>s. fs_sound s \<Longrightarrow> \<not> referenced (snd (m s)) ROOT_INO"
  shows "preserves fs_sound m"
  using assms by (auto simp: preserves_def fs_sound_def)

lemma mkdir_cases:
  obtains (same) "referenced (snd (mkdir parent name s)) = referenced s"
  | (new) k where "snd (mkdir parent name s) = snd (bump_nlink parent (edit_dir parent (bt_insert name (mf_next_ino s))
      (put_inode (mf_next_ino s) (new_directory (mf_next_ino s) parent) (s\<lparr>mf_next_ino := k\<rparr>))))"
proof (cases "bad_name name")
  case ok: False
  show ?thesis
  proof (cases rule: dir_entries_cases [of parent s])
    case (dir e)
    show ?thesis
    proof (cases "map_of e name")
      case None
      show ?thesis
      proof (cases rule: alloc_cases [of s])
        case fresh
        show ?thesis
          by (rule new [of "mf_next_ino s + 1"], use ok dir(1) None fresh(2) in
              \<open>auto simp: mkdir_def bind_def seq_def modify_def ret_def split: prod.splits result.splits\<close>)
      qed (use same ok dir None in \<open>simp add: mkdir_def bind_def\<close>)
    qed (use same ok dir in \<open>simp add: mkdir_def bind_def\<close>)
  qed (use same ok in \<open>simp add: mkdir_def bind_def\<close>)
qed (use same in \<open>simp add: mkdir_def throw_def\<close>)

lemma mkdir_sound [pres]: "preserves fs_sound (mkdir parent name)"
proof (rule preserves_sound [OF mkdir_wf])
  fix s assume s: "fs_sound s"
  have q: "in_content (new_directory (mf_next_ino s) parent) = Directory e \<Longrightarrow> map_of e m = Some j \<Longrightarrow> dot m" for e m j
    by (auto simp: new_directory_def new_inode_def dot_def split: if_splits)
  show "\<not> referenced (snd (mkdir parent name s)) ROOT_INO"
  proof (cases rule: mkdir_cases [of parent name s])
    case (new k)
    have "\<not> referenced (edit_dir parent (bt_insert name (mf_next_ino s))
        (put_inode (mf_next_ino s) (new_directory (mf_next_ino s) parent) (s\<lparr>mf_next_ino := k\<rparr>))) ROOT_INO"
      by (rule ref_attach [OF s]) (rule q)
    then show ?thesis unfolding new by (blast dest: ref_bump)
  qed (use s in \<open>simp add: fs_sound_def\<close>)
qed

lemma create_file_sound [pres]: "preserves fs_sound (create_file parent name data)"
proof (rule preserves_sound [OF create_file_wf])
  fix s assume s: "fs_sound s"
  have q: "in_content (file_node (mf_next_ino s) data) = Directory e \<Longrightarrow> map_of e m = Some j \<Longrightarrow> dot m" for e m j
    by (simp add: file_node_def new_inode_def)
  show "\<not> referenced (snd (create_file parent name data s)) ROOT_INO"
    using s ref_attach [OF s q]
    by (auto simp: create_file_def fs_sound_def bind_def dir_entries_def throw_def alloc_ino_def seq_def modify_def ret_def gets_def
        dest!: ref_put [rotated] split: option.split inode_content.split)
qed

lemma create_proc_file_sound:
  assumes "\<not> dot name"
  shows "preserves fs_sound (create_proc_file parent name kind)"
proof (rule preserves_sound [OF create_proc_file_wf [OF assms]])
  fix s assume s: "fs_sound s"
  have q: "in_content (new_inode (mf_next_ino s) PROC_444 0 1 (ProcFile kind)) = Directory e \<Longrightarrow> map_of e m = Some j \<Longrightarrow> dot m" for e m j
    by (simp add: new_inode_def)
  show "\<not> referenced (snd (create_proc_file parent name kind s)) ROOT_INO"
    using s ref_attach [OF s q]
    by (simp add: create_proc_file_def fs_sound_def bind_def alloc_ino_def seq_def modify_def)
qed

lemma contents_sound [pres]:
  "preserves fs_sound (write_file i data)" "preserves fs_sound (append_file i data)" "preserves fs_sound fs_tick"
proof -
  show "preserves fs_sound (write_file i data)" "preserves fs_sound (append_file i data)"
    by (rule preserves_sound [OF contents_wf(1)] preserves_sound [OF contents_wf(2)],
        auto simp: write_file_def append_file_def fs_sound_def dest!: ref_put [rotated] split: option.split inode_content.split)+
  show "preserves fs_sound fs_tick"
    by (rule preserves_sound [OF contents_wf(3)]) (auto simp: fs_tick_def fs_sound_def referenced_def fs_lookup_def)
qed

lemma remove_entry_ref: "remove_entry parent name s = (r, t) \<Longrightarrow> referenced t i \<Longrightarrow> referenced s i"
  by (elim remove_entry_cases) (auto dest: ref_drop ref_remove)

lemma remove_entry_sound [pres]: "preserves fs_sound (remove_entry parent name)"
  by (rule preserves_sound [OF remove_entry_wf]) (metis fs_sound_def prod.collapse remove_entry_ref)

lemma rename_sound:
  assumes s: "fs_sound s" and n: "\<not> dot src_name" "\<not> dot dst_name" and dst: "readdir_all s dst \<noteq> None"
  shows "fs_sound (snd (rename src src_name dst dst_name s))"
proof -
  have "\<not> referenced (snd (rename src src_name dst dst_name s)) ROOT_INO"
  proof (cases rule: dir_entries_cases [of src s])
    case (dir e)
    show ?thesis
    proof (cases "map_of e src_name")
      case (Some i)
      then have "fs_lookup s src src_name = Some i" using dir by (simp add: lookup_readdir)
      then have "referenced s i" using n(1) by (auto simp: referenced_def)
      then have i: "i \<noteq> ROOT_INO" using s by (auto simp: fs_sound_def)
      obtain r t where rm: "remove_entry dst dst_name (edit_dir src (bt_remove src_name) s) = (r, t)" by force
      have "\<not> referenced t ROOT_INO" using s by (auto simp: fs_sound_def dest!: remove_entry_ref [OF rm] ref_remove)
      then have "\<not> referenced (edit_dir i (bt_insert ''..'' dst) (edit_dir dst (bt_insert dst_name i) t)) ROOT_INO"
        using ref_dotdot ref_insert i by metis
      then show ?thesis using \<open>\<not> referenced t ROOT_INO\<close> dir(1) Some rm
        by (cases r) (simp_all add: rename_def bind_def lift_def seq_def modify_def ignore_def)
    qed (use s dir in \<open>simp add: rename_def bind_def lift_def fs_sound_def\<close>)
  qed (use s in \<open>simp add: rename_def bind_def fs_sound_def\<close>)
  then show ?thesis using rename_wf [OF _ n dst] s by (simp add: fs_sound_def)
qed

lemma copy_file_sound [pres]: "preserves fs_sound (copy_file env i p n)"
  unfolding copy_file_def by (intro pres)

lemma memfs_new_sound: "fs_sound memfs_new"
  unfolding fs_sound_def using memfs_new_wf
  by (auto simp: memfs_new_def new_directory_def new_inode_def referenced_def fs_lookup_def dot_def split: if_splits)

lemma populate_sound: "preserves fs_sound populate_defaults"
  unfolding populate_defaults_def Let_def
  by (intro pres create_proc_file_sound) (simp_all add: dot_def)

lemma fs_step_sound: "fs_sound s \<Longrightarrow> fs_sound (snd (fs_step env op s))"
proof (cases op)
  case (FsRename p n q m)
  then show "fs_sound s \<Longrightarrow> ?thesis"
    using rename_sound [of s n m q p] by (auto split: prod.splits)
qed (auto split: prod.splits dest: preservesD [OF mkdir_sound] preservesD [OF create_file_sound] preservesD [OF contents_sound(1)]
    preservesD [OF contents_sound(2)] preservesD [OF contents_sound(3)] preservesD [OF remove_entry_sound] preservesD [OF copy_file_sound])

interpretation mfs_tree: op_invariant "fs_step env" fs_sound
  by unfold_locales (rule fs_step_sound)

lemma fs_init_sound: "fs_sound (snd fs_init)"
  unfolding fs_init_def using populate_sound memfs_new_sound by (simp add: preserves_def)

text \<open>The path of ordinary names from the root to an inode is unique.\<close>

lemma resolve_from_snoc:
  "n \<noteq> [] \<Longrightarrow> resolve_from s (ns @ [n]) i = (case resolve_from s ns i of None \<Rightarrow> None | Some j \<Rightarrow> fs_lookup s j n)"
  by (induction s ns i rule: resolve_from.induct) (auto split: option.split)

lemma ordinary_path_unique:
  assumes s: "fs_sound s"
  shows "resolve_from s xs ROOT_INO = Some i \<Longrightarrow> resolve_from s ys ROOT_INO = Some i \<Longrightarrow>
    (\<forall>x\<in>set xs \<union> set ys. x \<noteq> [] \<and> \<not> dot x) \<Longrightarrow> xs = ys"
proof (induction xs arbitrary: ys i rule: rev_induct)
  case Nil
  show ?case
  proof (cases ys rule: rev_cases)
    case (snoc ys' y)
    then have "referenced s ROOT_INO" using Nil by (auto simp: resolve_from_snoc referenced_def split: option.splits)
    then show ?thesis using s by (simp add: fs_sound_def)
  qed simp
next
  case (snoc x xs)
  then obtain d where d: "resolve_from s xs ROOT_INO = Some d" "fs_lookup s d x = Some i"
    by (auto simp: resolve_from_snoc split: option.splits)
  show ?case
  proof (cases ys rule: rev_cases)
    case Nil
    then have "referenced s ROOT_INO" using d snoc.prems by (auto simp: referenced_def)
    then show ?thesis using s by (simp add: fs_sound_def)
  next
    case ys: (snoc ys' y)
    then obtain d' where d': "resolve_from s ys' ROOT_INO = Some d'" "fs_lookup s d' y = Some i"
      using snoc.prems by (auto simp: resolve_from_snoc split: option.splits)
    have "\<not> dot x" "\<not> dot y" using snoc.prems(3) ys by auto
    then have "d = d' \<and> x = y" using wf_unique [of s d x i d' y] s d(2) d'(2) by (simp add: fs_sound_def)
    then show ?thesis using snoc.IH [OF d(1), of ys'] d'(1) snoc.prems(3) ys by auto
  qed
qed

end
