(* ===== verification/Vfs.thy ===== *)
theory Vfs
  imports Memfs
begin

unbundle bit_operations_syntax

text \<open>
  The file operations of the kernel on top of the in-memory file system: whole files by path
  (kernel/src/vfs/mod.rs) and the table of file descriptors (kernel/src/vfs/fd.rs).

  The two global tables behind locks and the serial line are one state record; both tables
  are initialised.
\<close>

section \<open>Whole files\<close>

datatype vfs_error =
    VfsNotFound | VfsPermissionDenied | VfsIsDirectory | VfsNotDirectory | VfsAlreadyExists
  | VfsInvalidFd | VfsIoError | VfsNoSpace

record file_stat =
  st_ino :: u64
  st_size :: u64
  st_mode :: u16
  st_nlink :: u32
  st_uid :: u32
  st_gid :: u32
  st_is_dir :: bool
  st_is_file :: bool
  st_is_symlink :: bool

abbreviation vfs_stat :: "mem_fs \<Rightarrow> string \<Rightarrow> (vfs_error, file_stat) result" where
  "vfs_stat s path \<equiv> and_then (ok_or VfsNotFound (fs_resolve s path)) (\<lambda>i.
     and_then (ok_or VfsNotFound (mf_inodes s i)) (\<lambda>n.
       Ok \<lparr>st_ino = i, st_size = in_size n, st_mode = in_mode n, st_nlink = in_nlink n, st_uid = in_uid n,
           st_gid = in_gid n, st_is_dir = is_dir (in_mode n), st_is_file = is_file (in_mode n),
           st_is_symlink = is_symlink (in_mode n)\<rparr>))"

definition io_error :: "('s, fs_error, 'a) st \<Rightarrow> ('s, vfs_error, 'a) st" where
  "io_error m s = (case m s of (r, s') \<Rightarrow> (map_err (\<lambda>_. VfsIoError) r, s'))"

definition read_all :: "proc_env \<Rightarrow> mem_fs \<Rightarrow> string \<Rightarrow> (vfs_error, u8 list) result" where
  "read_all env s path = and_then (ok_or VfsNotFound (fs_resolve s path)) (\<lambda>i.
     map_err (\<lambda>_. VfsIoError) (read_file env s i))"

definition split_path :: "string \<Rightarrow> string \<times> string" where
  "split_path path = (case rsplit path of
     Some (before, name) \<Rightarrow> (if before = [] then [slash] else before, name)
   | None \<Rightarrow> ([slash], path))"

definition create_at :: "string \<Rightarrow> u8 list \<Rightarrow> (mem_fs, vfs_error, ino) st" where
  "create_at path data = (case split_path path of (parent_path, name) \<Rightarrow>
     bind (gets (\<lambda>s. fs_resolve s parent_path)) (\<lambda>p.
     bind (lift (ok_or VfsNotFound p)) (\<lambda>parent_ino. io_error (create_file parent_ino name data))))"

definition write_all :: "string \<Rightarrow> u8 list \<Rightarrow> (mem_fs, vfs_error, unit) st" where
  "write_all path data = bind (gets (\<lambda>s. fs_resolve s path)) (\<lambda>existing.
     case existing of
       Some i \<Rightarrow> io_error (write_file i data)
     | None \<Rightarrow> bind (create_at path data) (\<lambda>_. ret ()))"

abbreviation vfs_readdir :: "mem_fs \<Rightarrow> string \<Rightarrow> (vfs_error, (string \<times> ino) list) result" where
  "vfs_readdir s path \<equiv> and_then (ok_or VfsNotFound (fs_resolve s path)) (\<lambda>i.
     ok_or VfsNotDirectory (readdir_all s i))"

section \<open>File descriptors\<close>

datatype special_fd = Stdin | Stdout | Stderr

record fd_entry =
  fde_path :: string
  fde_ino :: ino
  fde_offset :: u64
  fde_flags :: u32
  fde_special :: "special_fd option"

record fd_table =
  fdt_entries :: "(i32 \<times> fd_entry) list"
  fdt_next_fd :: i32

record vfs_state =
  sy_fs :: mem_fs
  sy_fds :: fd_table
  sy_serial :: "u8 list"

abbreviation MAX_FDS :: nat where "MAX_FDS \<equiv> 256"

definition fd_init :: fd_table where
  "fd_init = \<lparr>fdt_entries =
     bt_insert 2 \<lparr>fde_path = ''/dev/stderr'', fde_ino = 0, fde_offset = 0, fde_flags = 1, fde_special = Some Stderr\<rparr>
    (bt_insert 1 \<lparr>fde_path = ''/dev/stdout'', fde_ino = 0, fde_offset = 0, fde_flags = 1, fde_special = Some Stdout\<rparr>
    (bt_insert 0 \<lparr>fde_path = ''/dev/stdin'', fde_ino = 0, fde_offset = 0, fde_flags = 0, fde_special = Some Stdin\<rparr> [])),
     fdt_next_fd = 3\<rparr>"

definition on_fs :: "(mem_fs, 'e, 'a) st \<Rightarrow> (vfs_state, 'e, 'a) st" where
  "on_fs m s = (case m (sy_fs s) of (r, f) \<Rightarrow> (r, s\<lparr>sy_fs := f\<rparr>))"

definition set_entry :: "i32 \<Rightarrow> fd_entry \<Rightarrow> vfs_state \<Rightarrow> vfs_state" where
  "set_entry fd e s = s\<lparr>sy_fds := (sy_fds s)\<lparr>fdt_entries := bt_insert fd e (fdt_entries (sy_fds s))\<rparr>\<rparr>"

text \<open>\<open>t.next_fd += 1\<close> panics at the largest number.\<close>

definition fd_add :: "string \<Rightarrow> ino \<Rightarrow> u32 \<Rightarrow> (vfs_state, vfs_error, i32) st" where
  "fd_add path i flags s = (let fd = fdt_next_fd (sy_fds s) in
     if fd = 0x7FFFFFFF then (Panic, s)
     else (Ok fd, set_entry fd \<lparr>fde_path = path, fde_ino = i, fde_offset = 0, fde_flags = flags, fde_special = None\<rparr>
                    (s\<lparr>sy_fds := (sy_fds s)\<lparr>fdt_next_fd := fd + 1\<rparr>\<rparr>)))"

definition fd_open :: "string \<Rightarrow> u32 \<Rightarrow> (vfs_state, vfs_error, i32) st" where
  "fd_open path flags = bind (gets (\<lambda>s. fs_resolve (sy_fs s) path)) (\<lambda>x.
     case x of
       Some i \<Rightarrow> bind (gets (\<lambda>s. length (fdt_entries (sy_fds s)))) (\<lambda>n.
         if n \<ge> MAX_FDS then throw VfsNoSpace else fd_add path i flags)
     | None \<Rightarrow>
         if flags AND 0x40 \<noteq> 0 then bind (on_fs (create_at path [])) (\<lambda>i. fd_add path i flags)
         else throw VfsNotFound)"

definition fd_get :: "i32 \<Rightarrow> (vfs_state, vfs_error, fd_entry) st" where
  "fd_get fd s = (case map_of (fdt_entries (sy_fds s)) fd of None \<Rightarrow> (Err VfsInvalidFd, s) | Some e \<Rightarrow> (Ok e, s))"

text \<open>\<open>if let Some(e) = t.entries.get_mut(&fd) { e.offset += n; }\<close>\<close>

definition fd_advance :: "i32 \<Rightarrow> nat \<Rightarrow> (vfs_state, vfs_error, unit) st" where
  "fd_advance fd n s = (case map_of (fdt_entries (sy_fds s)) fd of
     None \<Rightarrow> (Ok (), s)
   | Some e \<Rightarrow> if unat (fde_offset e) + n \<ge> usize_limit then (Panic, s)
               else (Ok (), set_entry fd (e\<lparr>fde_offset := fde_offset e + of_nat n\<rparr>) s))"

definition fd_read :: "proc_env \<Rightarrow> i32 \<Rightarrow> usize \<Rightarrow> (vfs_state, vfs_error, u8 list) st" where
  "fd_read env fd len = bind (fd_get fd) (\<lambda>entry.
     if fde_special entry = Some Stdin then ret []
     else if fde_special entry \<noteq> None then throw VfsPermissionDenied
     else bind (gets (\<lambda>s. read_file env (sy_fs s) (fde_ino entry))) (\<lambda>r.
       bind (lift (map_err (\<lambda>_. VfsIoError) r)) (\<lambda>data.
       let start = min (unat (fde_offset entry)) (length data) in
       if start + len \<ge> usize_limit then panic
       else let chunk = get_slice data start (min (start + len) (length data) - start) in
            seq (fd_advance fd (length chunk)) (ret chunk))))"

definition fd_write :: "i32 \<Rightarrow> u8 list \<Rightarrow> (vfs_state, vfs_error, usize) st" where
  "fd_write fd data = bind (fd_get fd) (\<lambda>entry.
     if fde_special entry = Some Stdout \<or> fde_special entry = Some Stderr
     then seq (modify (\<lambda>s. if utf8_valid data then s\<lparr>sy_serial := sy_serial s @ data\<rparr> else s)) (ret (length data))
     else if fde_special entry \<noteq> None then throw VfsPermissionDenied
     else seq (on_fs (io_error (if fde_flags entry AND 0x400 \<noteq> 0 then append_file (fde_ino entry) data
                                else write_file (fde_ino entry) data)))
         (seq (fd_advance fd (length data)) (ret (length data))))"

definition fd_close :: "i32 \<Rightarrow> (vfs_state, vfs_error, unit) st" where
  "fd_close fd s = (if map_of (fdt_entries (sy_fds s)) fd = None then (Err VfsInvalidFd, s)
     else (Ok (), s\<lparr>sy_fds := (sy_fds s)\<lparr>fdt_entries := bt_remove fd (fdt_entries (sy_fds s))\<rparr>\<rparr>))"

text \<open>\<open>(base as i64 + offset) as usize\<close>\<close>

definition seek_add :: "u64 \<Rightarrow> i64 \<Rightarrow> ('s, vfs_error, u64) st" where
  "seek_add base offset = (if - (2 ^ 63) \<le> sint base + sint offset \<and> sint base + sint offset < 2 ^ 63
     then ret (base + offset) else panic)"

definition fd_lseek :: "i32 \<Rightarrow> i64 \<Rightarrow> u32 \<Rightarrow> (vfs_state, vfs_error, u64) st" where
  "fd_lseek fd offset whence = bind (fd_get fd) (\<lambda>entry.
     bind (gets (\<lambda>s. case mf_inodes (sy_fs s) (fde_ino entry) of Some n \<Rightarrow> in_size n | None \<Rightarrow> 0)) (\<lambda>size'.
     bind (if whence = 0 then ret offset
           else if whence = 1 then seek_add (fde_offset entry) offset
           else if whence = 2 then seek_add size' offset
           else throw VfsIoError) (\<lambda>new_offset.
     seq (modify (set_entry fd (entry\<lparr>fde_offset := new_offset\<rparr>))) (ret new_offset))))"

abbreviation fd_open_count :: "vfs_state \<Rightarrow> usize" where
  "fd_open_count s \<equiv> length (fdt_entries (sy_fds s))"

section \<open>Paths\<close>

lemma split_on_append: "split_on c (xs @ c # ys) = split_on c xs @ split_on c ys"
proof (induction xs)
  case (Cons x xs)
  have "split_on c xs \<noteq> []" by (induction xs) (auto split: list.split)
  then show ?case using Cons by (auto split: list.splits)
qed simp

lemma split_on_none: "c \<notin> set xs \<Longrightarrow> split_on c xs = [xs]"
  by (induction xs) auto

lemma resolve_from_append:
  "resolve_from s (xs @ ys) i = (case resolve_from s xs i of None \<Rightarrow> None | Some j \<Rightarrow> resolve_from s ys j)"
  by (induction s xs i rule: resolve_from.induct) (auto split: option.split)

text \<open>Empty components do not count, so leading separators may stay.\<close>

lemma fs_resolve_split: "fs_resolve s path = resolve_from s (split_on slash path) ROOT_INO"
proof -
  have "resolve_from s (split_on slash (dropWhile (\<lambda>c. c = slash) path)) i = resolve_from s (split_on slash path) i" for i
    by (induction path) auto
  then show ?thesis by (auto simp: fs_resolve_def)
qed

lemma rsplit_Some:
  assumes "rsplit path = Some (before, name)"
  shows "path = before @ slash # name" and "slash \<notin> set name"
proof -
  let ?t = "takeWhile (\<lambda>c. c \<noteq> slash) (rev path)" and ?d = "dropWhile (\<lambda>c. c \<noteq> slash) (rev path)"
  have "slash \<in> set path" and eq: "before = rev (tl ?d)" "name = rev ?t"
    using assms by (auto simp: rsplit_def split: if_splits)
  then have "?d \<noteq> []" by (auto simp: dropWhile_eq_Nil_conv)
  then obtain r where d: "?d = slash # r" by (cases ?d) (auto simp: dropWhile_eq_Cons_conv)
  have "rev path = ?t @ ?d" by simp
  then have "rev (rev path) = rev ?d @ rev ?t" by (metis rev_append)
  then show "path = before @ slash # name" using d eq by simp
  show "slash \<notin> set name" using assms by (auto simp: rsplit_def dest: set_takeWhileD split: if_splits)
qed

text \<open>A path leads where its last component leads from its parent.\<close>

lemma resolve_split_path:
  assumes "split_path path = (parent_path, name)"
  shows "fs_resolve s path = (case fs_resolve s parent_path of None \<Rightarrow> None
      | Some p \<Rightarrow> if name = [] then Some p else fs_lookup s p name)"
    and "slash \<notin> set name"
proof -
  have one: "resolve_from s [name] i = (if name = [] then Some i else fs_lookup s i name)" for i
    by (simp split: option.split)
  show "slash \<notin> set name" using assms by (auto simp: split_path_def rsplit_def dest: set_takeWhileD split: option.splits if_splits)
  show "fs_resolve s path = (case fs_resolve s parent_path of None \<Rightarrow> None
      | Some p \<Rightarrow> if name = [] then Some p else fs_lookup s p name)"
  proof (cases "rsplit path")
    case None
    then have "slash \<notin> set path" "parent_path = [slash]" "name = path"
      using assms by (auto simp: split_path_def rsplit_def split: if_splits)
    then show ?thesis using one [of ROOT_INO] by (simp add: fs_resolve_split split_on_none)
  next
    case (Some x)
    then obtain before where b: "rsplit path = Some (before, name)" "parent_path = (if before = [] then [slash] else before)"
      using assms by (cases x) (auto simp: split_path_def)
    have "resolve_from s (split_on slash parent_path) ROOT_INO = resolve_from s (split_on slash before) ROOT_INO"
      using b(2) by simp
    then show ?thesis
      using rsplit_Some [OF b(1)] one
      by (simp add: fs_resolve_split split_on_append split_on_none resolve_from_append split: option.split)
  qed
qed

section \<open>What a write changes\<close>

lemma resolve_mono:
  assumes "\<And>d n j. fs_lookup s d n = Some j \<Longrightarrow> fs_lookup s' d n = Some j"
  shows "resolve_from s cs i = Some j \<Longrightarrow> resolve_from s' cs i = Some j"
proof (induction cs arbitrary: i)
  case (Cons c rest)
  then show ?case by (cases "fs_lookup s i c") (auto simp: assms split: if_splits)
qed simp

lemma create_new_file:
  assumes "create_file parent name data s = (Ok t, s')" and "fs_lookup s parent name = None"
  shows "t = mf_next_ino s" and "readdir_all s parent \<noteq> None"
    and "s' = edit_dir parent (bt_insert name t) (put_inode t (file_node t data) (s\<lparr>mf_next_ino := t + 1\<rparr>))"
proof -
  have ok: "\<not> bad_name name" using assms(1) by (auto simp: create_file_def throw_def)
  obtain e where e: "dir_entries parent s = (Ok e, s)" "readdir_all s parent = Some e"
    using assms(1) ok by (cases rule: dir_entries_cases [of parent s]) (auto simp: create_file_def bind_def)
  have n: "map_of e name = None" using assms(2) e(2) by (simp add: lookup_readdir)
  have "alloc_ino s = (Ok (mf_next_ino s), s\<lparr>mf_next_ino := mf_next_ino s + 1\<rparr>)"
    using assms(1) ok e n by (cases rule: alloc_cases [of s]) (auto simp: create_file_def bind_def)
  then have "t = mf_next_ino s \<and> s' = edit_dir parent (bt_insert name t) (put_inode t (file_node t data) (s\<lparr>mf_next_ino := t + 1\<rparr>))"
    using assms(1) ok e n by (auto simp: create_file_def bind_def seq_def modify_def ret_def)
  then show "t = mf_next_ino s" "s' = edit_dir parent (bt_insert name t) (put_inode t (file_node t data) (s\<lparr>mf_next_ino := t + 1\<rparr>))"
    by blast+
  show "readdir_all s parent \<noteq> None" using e by simp
qed

text \<open>
  A file that was written: \<open>wrote env data t s s'\<close> says that inode \<open>t\<close> reads back the data, that
  no directory lost or redirected an entry, that new entries lead to \<open>t\<close> and that every other
  inode reads as before.
\<close>

definition wrote :: "proc_env \<Rightarrow> u8 list \<Rightarrow> ino \<Rightarrow> mem_fs \<Rightarrow> mem_fs \<Rightarrow> bool" where
  "wrote env data t s s' \<longleftrightarrow> read_file env s' t = Ok data
   \<and> (\<forall>d n j. fs_lookup s d n = Some j \<longrightarrow> fs_lookup s' d n = Some j)
   \<and> (\<forall>d n j. fs_lookup s' d n = Some j \<longrightarrow> j \<noteq> t \<longrightarrow> fs_lookup s d n = Some j)
   \<and> (\<forall>i. i \<noteq> t \<longrightarrow> mf_inodes s i \<noteq> None \<longrightarrow> read_file env s' i = read_file env s i)"

lemma read_edit: "read_file env (edit_dir d f s) i = read_file env s i"
  by (cases rule: edit_dir_cases [of s d f]) (auto simp: read_file_def )

lemma create_wrote:
  assumes wf: "fs_wf s" and c: "create_file parent name data s = (Ok t, s')" and n: "fs_lookup s parent name = None"
  shows "wrote env data t s s'" and "fs_lookup s' parent name = Some t"
proof -
  note eqs = create_new_file [OF c n]
  have fresh: "mf_inodes s t = None" using fresh_ino [OF wf] eqs(1) by simp
  then have t: "fs_lookup s t m = None" "t \<noteq> parent" for m
    using eqs(2) by (auto simp: fs_lookup_def readdir_all_def)
  have new: "fs_lookup (put_inode t (file_node t data) (s\<lparr>mf_next_ino := t + 1\<rparr>)) d m = fs_lookup s d m" for d m
    using t by (auto simp: fs_lookup_def file_node_def new_inode_def)
  have p: "readdir_all (put_inode t (file_node t data) (s\<lparr>mf_next_ino := t + 1\<rparr>)) parent \<noteq> None"
    using eqs(2) t(2) by simp
  have l: "fs_lookup s' d m = (if d = parent \<and> m = name then Some t else fs_lookup s d m)" for d m
    unfolding eqs(3) lookup_insert new using p by simp
  have r: "read_file env s' i = (if i = t then Ok data else read_file env s i)" for i
    unfolding eqs(3) read_edit by (simp add: read_file_def file_node_def new_inode_def )
  show "fs_lookup s' parent name = Some t" by (simp add: l)
  show "wrote env data t s s'" using n by (auto simp: wrote_def l r)
qed

lemma write_wrote:
  assumes "write_file i data s = (Ok (), s')"
  shows "wrote env data i s s'"
proof -
  obtain p b where p: "mf_inodes s i = Some p" "in_content p = File b"
    "s' = put_inode i (p\<lparr>in_content := File data, in_size := of_nat (length data)\<rparr>) s"
    using assms by (auto simp: write_file_def split: option.splits inode_content.splits)
  then show ?thesis by (auto simp: wrote_def fs_lookup_def read_file_def )
qed

lemma wroteD:
  assumes "wrote env data t s s'"
  shows "read_file env s' t = Ok data"
    and "fs_lookup s d n = Some j \<Longrightarrow> fs_lookup s' d n = Some j"
    and "fs_lookup s' d n = Some j \<Longrightarrow> j \<noteq> t \<Longrightarrow> fs_lookup s d n = Some j"
    and "i \<noteq> t \<Longrightarrow> mf_inodes s i \<noteq> None \<Longrightarrow> read_file env s' i = read_file env s i"
  using assms unfolding wrote_def by blast+

lemma wrote_resolve: "wrote env data t s s' \<Longrightarrow> fs_resolve s q = Some i \<Longrightarrow> fs_resolve s' q = Some i"
  unfolding fs_resolve_split by (rule resolve_mono, erule wroteD(2))

lemma wrote_resolve_back:
  assumes w: "wrote env data t s s'" and j: "j \<noteq> t"
  shows "fs_resolve s' q = Some j \<Longrightarrow> fs_resolve s q = Some j"
proof -
  have leaf: "fs_lookup s' t n = None" for n
    using wroteD(1) [OF w]
    by (cases "mf_inodes s' t") (auto simp: read_file_def fs_lookup_def split: inode_content.splits)
  have end_t: "resolve_from s' cs t = Some k \<Longrightarrow> k = t" for cs k
    by (induction cs) (auto simp: leaf split: if_splits)
  have "resolve_from s' cs i = Some j \<Longrightarrow> resolve_from s cs i = Some j" for cs i
  proof (induction cs arbitrary: i)
    case (Cons c cs)
    show ?case
    proof (cases "c = []")
      case False
      then obtain k where k: "fs_lookup s' i c = Some k" "resolve_from s' cs k = Some j"
        using Cons.prems by (auto split: option.splits)
      then have "k \<noteq> t" using end_t j by blast
      then have "fs_lookup s i c = Some k" using wroteD(3) [OF w k(1)] by simp
      then show ?thesis using False Cons.IH [OF k(2)] by simp
    qed (use Cons in simp)
  qed simp
  then show "fs_resolve s' q = Some j \<Longrightarrow> fs_resolve s q = Some j" unfolding fs_resolve_split .
qed

lemma resolve_exists:
  assumes wf: "fs_wf s"
  shows "fs_resolve s q = Some i \<Longrightarrow> mf_inodes s i \<noteq> None"
proof -
  have "resolve_from s cs j = Some i \<Longrightarrow> mf_inodes s j \<noteq> None \<Longrightarrow> mf_inodes s i \<noteq> None" for cs j
    by (induction cs arbitrary: j) (auto split: if_splits option.splits dest: wf_entry [OF wf])
  moreover have "mf_inodes s ROOT_INO \<noteq> None" using wf_root [OF wf] by (auto simp: readdir_all_def split: option.splits)
  ultimately show "fs_resolve s q = Some i \<Longrightarrow> mf_inodes s i \<noteq> None" unfolding fs_resolve_split by blast
qed

lemma create_at_wrote:
  assumes wf: "fs_wf s" and new: "fs_resolve s path = None" and c: "create_at path data s = (Ok t, s')"
  shows "wrote env data t s s'" and "fs_resolve s' path = Some t"
proof -
  obtain pp name where sp: "split_path path = (pp, name)" by force
  obtain p where p: "fs_resolve s pp = Some p" "create_file p name data s = (Ok t, s')"
    using c sp by (auto simp: create_at_def bind_def gets_def lift_def io_error_def
        split: option.splits result.splits prod.splits)
  have n: "name \<noteq> []" "fs_lookup s p name = None"
    using new resolve_split_path(1) [OF sp, of s] p(1) by (auto split: if_splits)
  note w = create_wrote [OF wf p(2) n(2)]
  show "wrote env data t s s'" by (rule w)
  show "fs_resolve s' path = Some t"
    using resolve_split_path(1) [OF sp, of s'] wrote_resolve [OF w(1) p(1)] n(1) w(2) by simp
qed

lemma write_all_wrote:
  assumes "fs_wf s" and "write_all path data s = (Ok (), s')"
  obtains t where "wrote env data t s s'" and "fs_resolve s' path = Some t"
proof (cases "fs_resolve s path")
  case None
  then obtain t where "create_at path data s = (Ok t, s')"
    using assms(2) by (auto simp: write_all_def bind_def gets_def ret_def split: result.splits prod.splits)
  then show ?thesis using create_at_wrote [OF assms(1) None] that by blast
next
  case (Some i)
  then have "write_file i data s = (Ok (), s')"
    using assms(2) by (auto simp: write_all_def bind_def gets_def io_error_def split: result.splits prod.splits)
  then have "wrote env data i s s'" by (rule write_wrote)
  then show ?thesis using that wrote_resolve [OF _ Some] by blast
qed

text \<open>A write that fails changes nothing.\<close>

lemma create_file_failed: "create_file p n d s = (r, s') \<Longrightarrow> (\<forall>i. r \<noteq> Ok i) \<Longrightarrow> s' = s"
  by (cases rule: dir_entries_cases [of p s]; cases rule: alloc_cases [of s])
     (auto simp: create_file_def throw_def bind_def gets_def seq_def modify_def ret_def split: if_splits option.splits)

lemma write_all_failed:
  assumes "write_all path data s = (r, s')" and "r \<noteq> Ok ()"
  shows "s' = s"
proof (cases "fs_resolve s path")
  case (Some i)
  then show ?thesis using assms
    by (auto simp: write_all_def bind_def gets_def io_error_def write_file_def split: option.splits inode_content.splits)
next
  case None
  obtain pp name where sp: "split_path path = (pp, name)" by force
  show ?thesis
  proof (cases "fs_resolve s pp")
    case p: (Some p)
    obtain r' t where c: "create_file p name data s = (r', t)" by force
    then have "t = s" if "\<forall>i. r' \<noteq> Ok i" using create_file_failed that by blast
    then show ?thesis using assms None sp p c
      by (cases r') (auto simp: write_all_def create_at_def bind_def gets_def lift_def io_error_def ret_def)
  qed (use assms None sp in \<open>auto simp: write_all_def create_at_def bind_def gets_def lift_def\<close>)
qed

text \<open>
  C17. Writing a file and reading it back: after a successful \<open>write_all\<close> of a path, which creates
  the file or replaces its contents, \<open>read_all\<close> of that path returns the data. Every path that led
  somewhere still leads to the same inode, and every path that leads to another inode than the
  written one reads as before.
\<close>

theorem vfs_write_read:
  assumes "fs_wf s" and "write_all path data s = (Ok (), s')"
  shows "read_all env s' path = Ok data
    \<and> (\<forall>q i. fs_resolve s q = Some i \<longrightarrow> fs_resolve s' q = Some i)
    \<and> (\<forall>q. fs_resolve s q \<noteq> None \<longrightarrow> fs_resolve s q \<noteq> fs_resolve s' path \<longrightarrow> read_all env s' q = read_all env s q)"
proof -
  obtain t where w: "wrote env data t s s'" and t: "fs_resolve s' path = Some t" by (rule write_all_wrote [OF assms])
  have "read_all env s' q = read_all env s q" if q: "fs_resolve s q = Some i" and "i \<noteq> t" for q i
    using wroteD(4) [OF w \<open>i \<noteq> t\<close> resolve_exists [OF assms(1) q]] wrote_resolve [OF w q] q by (simp add: read_all_def)
  moreover have "read_all env s' path = Ok data" using wroteD(1) [OF w] t by (simp add: read_all_def)
  ultimately show ?thesis using t wrote_resolve [OF w] by force
qed

theorem vfs_write_read_witness:
  "\<exists>s'. write_all ''/a'' [1, 2, 3] memfs_new = (Ok (), s')
     \<and> read_all \<lparr>pe_total = 0, pe_free = 0, pe_used = 0, pe_ticks = 0\<rparr> s' ''/a'' = Ok [1, 2, 3]"
proof -
  have "fst (write_all ''/a'' [1, 2, 3] memfs_new) = Ok ()" by code_simp
  then obtain s' where w: "write_all ''/a'' [1, 2, 3] memfs_new = (Ok (), s')" by (metis prod.collapse)
  from conjunct1 [OF vfs_write_read [OF memfs_new_wf w]] w show ?thesis by blast
qed

section \<open>Reading in pieces\<close>

lemma fd_read_result:
  assumes e: "map_of (fdt_entries (sy_fds s)) fd = Some e" "fde_special e = None"
    and r: "read_file env (sy_fs s) (fde_ino e) = Ok data" and len: "length data + n < usize_limit"
  defines "c \<equiv> take n (drop (unat (fde_offset e)) data)"
  shows "fd_read env fd n s = (Ok c, set_entry fd (e\<lparr>fde_offset := fde_offset e + of_nat (length c)\<rparr>) s)"
    and "unat (fde_offset e + of_nat (length c)) = unat (fde_offset e) + length c"
proof -
  let ?o = "unat (fde_offset e)"
  have c: "get_slice data (min ?o (length data)) (min (min ?o (length data) + n) (length data) - min ?o (length data)) = c"
    by (cases "?o \<le> length data") (auto simp: c_def get_slice_def min_def)
  have "?o + length c < usize_limit"
    using len unsigned_less [of "fde_offset e"] by (cases "?o \<le> length data") (auto simp: c_def usize_limit_def)
  then show "unat (fde_offset e + of_nat (length c)) = ?o + length c"
    by (simp add: usize_limit_def unat_word_ariths unat_of_nat take_bit_nat_eq_self)
  show "fd_read env fd n s = (Ok c, set_entry fd (e\<lparr>fde_offset := fde_offset e + of_nat (length c)\<rparr>) s)"
    using e r len c \<open>?o + length c < usize_limit\<close>
    by (simp add: fd_read_def bind_def fd_get_def gets_def lift_def seq_def ret_def fd_advance_def Let_def)
qed

fun read_chunks :: "proc_env \<Rightarrow> i32 \<Rightarrow> nat list \<Rightarrow> (vfs_state, vfs_error, u8 list list) st" where
  "read_chunks env fd [] = ret []"
| "read_chunks env fd (n # ns) = bind (fd_read env fd n) (\<lambda>c. bind (read_chunks env fd ns) (\<lambda>cs. ret (c # cs)))"

lemma set_entry_simps [simp]:
  "sy_fs (set_entry fd e s) = sy_fs s"
  "fdt_next_fd (sy_fds (set_entry fd e s)) = fdt_next_fd (sy_fds s)"
  "map_of (fdt_entries (sy_fds (set_entry fd e s))) = (map_of (fdt_entries (sy_fds s)))(fd \<mapsto> e)"
  by (simp_all add: set_entry_def)

text \<open>
  C19. Reads of a descriptor return the consecutive pieces of the file: whatever the lengths
  asked for, the pieces together are what the file holds from the cursor on, cut to the total
  length asked for. The file system and the other descriptors are left alone.
\<close>

theorem fd_reads_consecutive:
  assumes "map_of (fdt_entries (sy_fds s)) fd = Some e" and "fde_special e = None"
    and "read_file env (sy_fs s) (fde_ino e) = Ok data" and "length data + sum_list ns < usize_limit"
  shows "\<exists>cs s'. read_chunks env fd ns s = (Ok cs, s')
    \<and> concat cs = take (sum_list ns) (drop (unat (fde_offset e)) data)
    \<and> sy_fs s' = sy_fs s
    \<and> (\<forall>fd'. fd' \<noteq> fd \<longrightarrow> map_of (fdt_entries (sy_fds s')) fd' = map_of (fdt_entries (sy_fds s)) fd')"
  using assms
proof (induction ns arbitrary: s e)
  case (Cons n ns)
  let ?c = "take n (drop (unat (fde_offset e)) data)"
  let ?e = "e\<lparr>fde_offset := fde_offset e + of_nat (length ?c)\<rparr>"
  have len: "length data + n < usize_limit" using Cons.prems(4) by simp
  note r = fd_read_result [OF Cons.prems(1-3) len]
  have "\<exists>cs s'. read_chunks env fd ns (set_entry fd ?e s) = (Ok cs, s')
    \<and> concat cs = take (sum_list ns) (drop (unat (fde_offset ?e)) data)
    \<and> sy_fs s' = sy_fs (set_entry fd ?e s)
    \<and> (\<forall>fd'. fd' \<noteq> fd \<longrightarrow> map_of (fdt_entries (sy_fds s')) fd' = map_of (fdt_entries (sy_fds (set_entry fd ?e s))) fd')"
    by (rule Cons.IH) (use Cons.prems in simp_all)
  then obtain cs s' where cs: "read_chunks env fd ns (set_entry fd ?e s) = (Ok cs, s')"
    "concat cs = take (sum_list ns) (drop (unat (fde_offset e) + length ?c) data)" "sy_fs s' = sy_fs s"
    "\<forall>fd'. fd' \<noteq> fd \<longrightarrow> map_of (fdt_entries (sy_fds s')) fd' = map_of (fdt_entries (sy_fds s)) fd'"
    using r(2) by auto
  have "drop (unat (fde_offset e) + length ?c) data = drop n (drop (unat (fde_offset e)) data)"
    by (auto simp: min_def add.commute)
  then have "?c @ concat cs = take (n + sum_list ns) (drop (unat (fde_offset e)) data)"
    using cs(2) by (simp add: take_add)
  moreover have "read_chunks env fd (n # ns) s = (Ok (?c # cs), s')"
    using r(1) cs(1) by (simp add: bind_def ret_def)
  ultimately show ?case using cs(3,4) by (intro exI [of _ "?c # cs"] exI [of _ s']) simp
qed (simp add: ret_def)

abbreviation sample_env :: proc_env where
  "sample_env \<equiv> \<lparr>pe_total = 0, pe_free = 0, pe_used = 0, pe_ticks = 0\<rparr>"

abbreviation sample_entry :: fd_entry where
  "sample_entry \<equiv> \<lparr>fde_path = ''/a'', fde_ino = 2, fde_offset = 1, fde_flags = 2, fde_special = None\<rparr>"

abbreviation sample_state :: vfs_state where
  "sample_state \<equiv> \<lparr>sy_fs = put_inode 2 (file_node 2 [7, 8, 9]) memfs_new,
     sy_fds = \<lparr>fdt_entries = [(3, sample_entry)], fdt_next_fd = 4\<rparr>,
     sy_serial = []\<rparr>"

theorem fd_reads_consecutive_witness:
  "\<exists>cs s'. read_chunks sample_env 3 [1, 5] sample_state = (Ok cs, s') \<and> concat cs = [8, 9]"
proof -
  have "\<exists>cs s'. read_chunks sample_env 3 [1, 5] sample_state = (Ok cs, s')
    \<and> concat cs = take (sum_list [1, 5]) (drop (unat (fde_offset sample_entry)) [7, 8, 9])
    \<and> sy_fs s' = sy_fs sample_state
    \<and> (\<forall>fd'. fd' \<noteq> 3 \<longrightarrow> map_of (fdt_entries (sy_fds s')) fd' = map_of (fdt_entries (sy_fds sample_state)) fd')"
    by (rule fd_reads_consecutive) (simp_all add: read_file_def file_node_def new_inode_def usize_limit_def)
  moreover have "take (sum_list [1, 5]) (drop (unat (fde_offset sample_entry)) [7, 8, 9]) = [8, 9 :: u8]" by simp
  ultimately show ?thesis by metis
qed

section \<open>Writing through a descriptor\<close>

lemma fd_write_result:
  assumes e: "map_of (fdt_entries (sy_fds s)) fd = Some e" "fde_special e = None" "fde_flags e AND 0x400 = 0"
    and w: "fd_write fd data s = (Ok n, s')"
  shows "n = length data" and "write_file (fde_ino e) data (sy_fs s) = (Ok (), sy_fs s')"
    and "map_of (fdt_entries (sy_fds s')) = (map_of (fdt_entries (sy_fds s)))(fd \<mapsto> e\<lparr>fde_offset := fde_offset e + of_nat (length data)\<rparr>)"
    and "unat (fde_offset e) + length data < usize_limit"
  using e w by (auto simp: fd_write_def bind_def seq_def fd_get_def on_fs_def io_error_def fd_advance_def ret_def
      split: result.splits prod.splits if_splits)

text \<open>
  C20. Writes through a descriptor that does not append ignore its cursor: each replaces the
  whole file. After two successful writes the file holds the second piece only, while the cursor
  has moved past the length of both.
\<close>

theorem fd_write_ignores_cursor:
  assumes "map_of (fdt_entries (sy_fds s)) fd = Some e" and "fde_special e = None" and "fde_flags e AND 0x400 = 0"
    and "fd_write fd d1 s = (Ok n1, s1)" and "fd_write fd d2 s1 = (Ok n2, s2)"
  shows "read_file env (sy_fs s2) (fde_ino e) = Ok d2
    \<and> (\<exists>e2. map_of (fdt_entries (sy_fds s2)) fd = Some e2 \<and> fde_ino e2 = fde_ino e
        \<and> unat (fde_offset e2) = unat (fde_offset e) + length d1 + length d2)"
proof -
  note w1 = fd_write_result [OF assms(1-4)]
  let ?e = "e\<lparr>fde_offset := fde_offset e + of_nat (length d1)\<rparr>"
  have e: "map_of (fdt_entries (sy_fds s1)) fd = Some ?e" "fde_special ?e = None" "fde_flags ?e AND 0x400 = 0"
    using w1(3) assms(2,3) by simp_all
  note w2 = fd_write_result [OF e assms(5)]
  have u: "unat (o' + of_nat k) = unat o' + k" if "unat o' + k < usize_limit" for o' :: u64 and k
    using that by (simp add: usize_limit_def unat_word_ariths unat_of_nat take_bit_nat_eq_self)
  have "wrote env d2 (fde_ino e) (sy_fs s1) (sy_fs s2)" using write_wrote [OF w2(2)] by simp
  then have "read_file env (sy_fs s2) (fde_ino e) = Ok d2" by (rule wroteD)
  then show ?thesis using w2(3) u [OF w2(4)] u [OF w1(4)] by simp
qed

theorem fd_write_ignores_cursor_witness:
  "\<exists>s1 s2. fd_write 3 [1, 2] sample_state = (Ok 2, s1) \<and> fd_write 3 [5] s1 = (Ok 1, s2)
     \<and> read_file sample_env (sy_fs s2) 2 = Ok [5]"
proof -
  note defs = fd_write_def bind_def seq_def fd_get_def on_fs_def io_error_def fd_advance_def ret_def write_file_def
    file_node_def new_inode_def usize_limit_def set_entry_def put_inode_def
  obtain s1 where w1: "fd_write 3 [1, 2] sample_state = (Ok 2, s1)" by (simp add: defs)
  then obtain s2 where w2: "fd_write 3 [5] s1 = (Ok 1, s2)" by (auto simp: defs)
  have "read_file sample_env (sy_fs s2) (fde_ino sample_entry) = Ok [5]"
    by (rule conjunct1 [OF fd_write_ignores_cursor [OF _ _ _ w1 w2]]) simp_all
  then have "read_file sample_env (sy_fs s2) 2 = Ok [5]" by simp
  with w1 w2 show ?thesis by blast
qed

section \<open>Descriptors are never shared\<close>

definition vfs_wf :: "vfs_state \<Rightarrow> bool" where
  "vfs_wf s \<longleftrightarrow> fs_wf (sy_fs s) \<and> (\<forall>fd e. map_of (fdt_entries (sy_fds s)) fd = Some e \<longrightarrow> fd < fdt_next_fd (sy_fds s))
     \<and> fdt_next_fd (sy_fds s) \<le> 0x7FFFFFFF"

lemma vfs_wf_set: "vfs_wf s \<Longrightarrow> map_of (fdt_entries (sy_fds s)) fd = Some e \<Longrightarrow> vfs_wf (set_entry fd e' s)"
  by (auto simp: vfs_wf_def)

lemma io_error_pres [pres]: "preserves P m \<Longrightarrow> preserves P (io_error m)"
  by (auto simp: preserves_def io_error_def split: prod.splits)

lemma on_fs_pres [pres]: "preserves fs_wf m \<Longrightarrow> preserves vfs_wf (on_fs m)"
  by (auto simp: preserves_def on_fs_def vfs_wf_def split: prod.splits)

lemma create_at_pres [pres]: "preserves fs_wf (create_at path data)"
  unfolding create_at_def by (intro pres)

lemma write_all_pres [pres]: "preserves fs_wf (write_all path data)"
  unfolding write_all_def by (intro pres)

lemma write_all_sound: "preserves fs_sound (write_all path data)"
  unfolding write_all_def create_at_def by (intro pres)

lemma fd_get_pres [pres]: "preserves P (fd_get fd)"
  by (rule preservesI) (auto simp: fd_get_def split: option.split)

lemma fd_advance_pres [pres]: "preserves vfs_wf (fd_advance fd n)"
  by (rule preservesI) (auto simp: fd_advance_def intro: vfs_wf_set split: option.split)

lemma next_fd_room: "(n :: i32) \<noteq> 0x7FFFFFFF \<Longrightarrow> n \<le> 0x7FFFFFFF \<Longrightarrow> n < n + 1 \<and> n + 1 \<le> 0x7FFFFFFF"
  by (auto simp: word_less_nat_alt word_le_nat_alt unat_word_ariths word_unat_eq_iff)

lemma fd_add_pres [pres]: "preserves vfs_wf (fd_add path i flags)"
proof (rule preservesI)
  fix s assume wf: "vfs_wf s"
  let ?n = "fdt_next_fd (sy_fds s)"
  show "vfs_wf (snd (fd_add path i flags s))"
  proof (cases "?n = 0x7FFFFFFF")
    case False
    then have "?n < ?n + 1" "?n + 1 \<le> 0x7FFFFFFF" using next_fd_room wf by (auto simp: vfs_wf_def)
    then show ?thesis using wf False by (auto simp: fd_add_def vfs_wf_def Let_def intro: less_trans)
  qed (use wf in \<open>simp add: fd_add_def\<close>)
qed

lemma fd_open_pres [pres]: "preserves vfs_wf (fd_open path flags)"
  unfolding fd_open_def by (intro pres)

lemma fd_read_pres [pres]: "preserves vfs_wf (fd_read env fd n)"
  unfolding fd_read_def by (intro pres)

lemma fd_write_pres [pres]: "preserves vfs_wf (fd_write fd data)"
  unfolding fd_write_def by (intro pres preserves_modify) (simp add: vfs_wf_def)

lemma fd_close_pres [pres]: "preserves vfs_wf (fd_close fd)"
  by (rule preservesI) (auto simp: fd_close_def vfs_wf_def split: if_splits)

lemma fd_lseek_pres [pres]: "preserves vfs_wf (fd_lseek fd offset whence)"
  by (rule preservesI)
     (auto simp: fd_lseek_def bind_def fd_get_def gets_def ret_def throw_def panic_def seek_add_def seq_def modify_def
       intro: vfs_wf_set split: option.split)

datatype vfs_op =
    VfsOpen string u32 | VfsRead i32 usize | VfsWrite i32 "u8 list" | VfsClose i32 | VfsSeek i32 i64 u32
  | VfsWriteAll string "u8 list" | VfsFs fs_op

fun vfs_step :: "proc_env \<Rightarrow> vfs_op \<Rightarrow> vfs_state \<Rightarrow> unit \<times> vfs_state" where
  "vfs_step env (VfsOpen path flags) s = ((), snd (fd_open path flags s))"
| "vfs_step env (VfsRead fd n) s = ((), snd (fd_read env fd n s))"
| "vfs_step env (VfsWrite fd data) s = ((), snd (fd_write fd data s))"
| "vfs_step env (VfsClose fd) s = ((), snd (fd_close fd s))"
| "vfs_step env (VfsSeek fd offset whence) s = ((), snd (fd_lseek fd offset whence s))"
| "vfs_step env (VfsWriteAll path data) s = ((), snd (on_fs (write_all path data) s))"
| "vfs_step env (VfsFs op) s = ((), s\<lparr>sy_fs := snd (fs_step env op (sy_fs s))\<rparr>)"

lemma pres_snd: "preserves P m \<Longrightarrow> P s \<Longrightarrow> P (snd (m s))"
  by (simp add: preserves_def)

interpretation vfs: op_invariant "vfs_step env" vfs_wf
proof
  fix s op assume wf: "vfs_wf s"
  show "vfs_wf (snd (vfs_step env op s))"
  proof (cases op)
    case (VfsFs op')
    then show ?thesis using wf fs_step_wf by (simp add: vfs_wf_def)
  qed (use wf in \<open>simp_all add: pres_snd [OF fd_open_pres] pres_snd [OF fd_read_pres] pres_snd [OF fd_write_pres]
      pres_snd [OF fd_close_pres] pres_snd [OF fd_lseek_pres] pres_snd [OF on_fs_pres [OF write_all_pres]]\<close>)
qed

definition vfs_boot :: vfs_state where
  "vfs_boot = \<lparr>sy_fs = snd fs_init, sy_fds = fd_init, sy_serial = []\<rparr>"

lemma vfs_boot_wf: "vfs_wf vfs_boot"
  by (simp add: vfs_wf_def vfs_boot_def fs_init_wf fd_init_def)

lemma fd_add_result: "fd_add path i flags s = (Ok fd, s') \<Longrightarrow> fd = fdt_next_fd (sy_fds s)
    \<and> map_of (fdt_entries (sy_fds s')) = (map_of (fdt_entries (sy_fds s)))(fd \<mapsto>
        \<lparr>fde_path = path, fde_ino = i, fde_offset = 0, fde_flags = flags, fde_special = None\<rparr>)"
  by (auto simp: fd_add_def Let_def split: if_splits)

lemma fd_open_result:
  assumes "fd_open path flags s = (Ok fd, s')"
  shows "\<exists>i. fd = fdt_next_fd (sy_fds s) \<and> map_of (fdt_entries (sy_fds s')) = (map_of (fdt_entries (sy_fds s)))(fd \<mapsto>
        \<lparr>fde_path = path, fde_ino = i, fde_offset = 0, fde_flags = flags, fde_special = None\<rparr>)"
  using assms
  by (auto simp: fd_open_def bind_def gets_def throw_def on_fs_def split: option.splits if_splits result.splits prod.splits
      dest!: fd_add_result)

text \<open>
  C18. A descriptor that is handed out is nobody else's. After any sequence of opens, reads,
  writes, closes, seeks, whole-file writes and operations on the file system, an open that
  succeeds returns a number that no open descriptor has and that is not negative; the new
  descriptor starts at the beginning of the file, and the others are left alone.
\<close>

theorem fd_open_fresh:
  assumes "s = snd (run (vfs_step env) ops vfs_boot)" and "fd_open path flags s = (Ok fd, s')"
  shows "map_of (fdt_entries (sy_fds s)) fd = None \<and> fd < 0x80000000
    \<and> (\<exists>e. map_of (fdt_entries (sy_fds s')) fd = Some e \<and> fde_path e = path \<and> fde_offset e = 0 \<and> fde_special e = None)
    \<and> (\<forall>fd'. fd' \<noteq> fd \<longrightarrow> map_of (fdt_entries (sy_fds s')) fd' = map_of (fdt_entries (sy_fds s)) fd')"
proof -
  have wf: "vfs_wf s" unfolding assms(1) by (rule vfs.inv_run [OF vfs_boot_wf])
  obtain i where i: "fd = fdt_next_fd (sy_fds s)" "map_of (fdt_entries (sy_fds s')) = (map_of (fdt_entries (sy_fds s)))(fd \<mapsto>
        \<lparr>fde_path = path, fde_ino = i, fde_offset = 0, fde_flags = flags, fde_special = None\<rparr>)"
    using fd_open_result [OF assms(2)] by blast
  have "map_of (fdt_entries (sy_fds s)) fd = None" using wf i(1) by (cases "map_of (fdt_entries (sy_fds s)) fd") (auto simp: vfs_wf_def)
  moreover have "fd < 0x80000000" using wf i(1) by (auto simp: vfs_wf_def intro: le_less_trans)
  ultimately show ?thesis using i(2) by simp
qed

theorem fd_open_fresh_witness:
  "\<exists>s'. fd_open ''/'' 0 vfs_boot = (Ok 3, s')
     \<and> map_of (fdt_entries (sy_fds vfs_boot)) 3 = None
     \<and> (\<exists>e. map_of (fdt_entries (sy_fds s')) 3 = Some e \<and> fde_path e = ''/'' \<and> fde_offset e = 0)"
proof -
  obtain s' where o: "fd_open ''/'' 0 vfs_boot = (Ok 3, s')"
    by (simp add: fd_open_def bind_def gets_def fs_resolve_def fd_add_def Let_def vfs_boot_def fd_init_def)
  have "vfs_boot = snd (run (vfs_step sample_env) [] vfs_boot)" by simp
  from fd_open_fresh [OF this o] o show ?thesis by blast
qed

end
