(* ===== verification/Sandbox.thy ===== *)
theory Sandbox
  imports Vfs "HOL-Library.Sublist"
begin

text \<open>
  The file system sandbox of the applications (kernel/src/vfs/sandbox.rs) and the permission
  checks beside it (kernel/src/app/permissions.rs). A path that an application asks for is
  brought into a normal form and compared with the directories that the application may use.
\<close>

section \<open>Permissions\<close>

datatype fs_scope = ScopeNone | AppDataOnly | ScopeReadOnly "string list" | ScopeReadWrite "string list"

datatype net_scope = NetNone | LocalOnly | AllowList "string list" | NetFull

record app_permissions =
  ap_filesystem :: fs_scope
  ap_network :: net_scope
  ap_notifications :: bool
  ap_clipboard :: bool
  ap_background :: bool
  ap_max_memory_kb :: u32

definition default_web_app :: app_permissions where
  "default_web_app = \<lparr>ap_filesystem = AppDataOnly, ap_network = NetFull, ap_notifications = False,
     ap_clipboard = False, ap_background = False, ap_max_memory_kb = 64 * 1024\<rparr>"

abbreviation default_wasm_app :: app_permissions where
  "default_wasm_app \<equiv> \<lparr>ap_filesystem = AppDataOnly, ap_network = NetNone, ap_notifications = False,
     ap_clipboard = False, ap_background = False, ap_max_memory_kb = 32 * 1024\<rparr>"

definition system_app :: app_permissions where
  "system_app = \<lparr>ap_filesystem = ScopeReadWrite [], ap_network = NetFull, ap_notifications = True,
     ap_clipboard = True, ap_background = True, ap_max_memory_kb = 0\<rparr>"

abbreviation GLOBAL_READ_PATHS :: "string list" where
  "GLOBAL_READ_PATHS \<equiv> [''/system/fonts'', ''/system/locale'', ''/system/theme'']"

definition check_fs :: "app_permissions \<Rightarrow> string \<Rightarrow> string \<Rightarrow> bool \<Rightarrow> bool" where
  "check_fs permissions app_data_dir path write =
     (let normalised = trim_end path; app_dir = trim_end app_data_dir in
      if prefix app_dir normalised then True
      else if \<not> write \<and> list_ex (\<lambda>allowed. prefix allowed normalised) GLOBAL_READ_PATHS then True
      else case ap_filesystem permissions of
        ScopeNone \<Rightarrow> False
      | AppDataOnly \<Rightarrow> False
      | ScopeReadOnly paths \<Rightarrow> \<not> write \<and> list_ex (\<lambda>allowed. prefix (trim_end allowed) normalised) paths
      | ScopeReadWrite paths \<Rightarrow> paths = [] \<or> list_ex (\<lambda>allowed. prefix (trim_end allowed) normalised) paths)"

definition check_net :: "app_permissions \<Rightarrow> string \<Rightarrow> bool" where
  "check_net permissions domain = (case ap_network permissions of
     NetNone \<Rightarrow> False
   | LocalOnly \<Rightarrow> domain = ''127.0.0.1'' \<or> domain = ''::1'' \<or> domain = ''localhost''
   | AllowList domains \<Rightarrow> domain \<in> set domains
   | NetFull \<Rightarrow> True)"

section \<open>Paths\<close>

definition app_home_dir :: "u64 \<Rightarrow> string" where
  "app_home_dir app_id = ''/apps/data'' @ ''/'' @ show_nat (unat app_id)"

fun normal_parts :: "nat \<Rightarrow> string list \<Rightarrow> string list \<Rightarrow> (vfs_error, string list) result" where
  "normal_parts root_depth [] parts = Ok parts"
| "normal_parts root_depth (component # rest) parts =
     (if component = [] \<or> component = ''.'' then normal_parts root_depth rest parts
      else if component = ''..'' then
        if length parts \<le> root_depth then Err VfsPermissionDenied else normal_parts root_depth rest (butlast parts)
      else normal_parts root_depth rest (parts @ [component]))"

fun join_parts :: "string list \<Rightarrow> string" where
  "join_parts [] = []"
| "join_parts [p] = p"
| "join_parts (p # q # ps) = p @ slash # join_parts (q # ps)"

definition normalise_within :: "string \<Rightarrow> string \<Rightarrow> (vfs_error, string) result" where
  "normalise_within root raw =
     (let root = trim_end root; root_depth = length (filter (\<lambda>c. c = slash) root) in
      and_then (normal_parts root_depth (split_on slash raw) (filter (\<lambda>p. p \<noteq> []) (split_on slash root))) (\<lambda>parts.
        let path = slash # join_parts parts in
        if prefix root path then Ok path else Err VfsPermissionDenied))"

definition resolve_absolute :: "string \<Rightarrow> string \<Rightarrow> app_permissions \<Rightarrow> (vfs_error, string) result" where
  "resolve_absolute path home permissions = and_then (normalise_within [slash] path) (\<lambda>normalised.
     if prefix home normalised then Ok normalised
     else if list_ex (\<lambda>allowed. prefix allowed normalised) GLOBAL_READ_PATHS then Ok normalised
     else case ap_filesystem permissions of
       ScopeNone \<Rightarrow> Err VfsPermissionDenied
     | AppDataOnly \<Rightarrow> Err VfsPermissionDenied
     | ScopeReadOnly paths \<Rightarrow> if list_ex (\<lambda>p. prefix p normalised) paths then Ok normalised else Err VfsPermissionDenied
     | ScopeReadWrite paths \<Rightarrow> if list_ex (\<lambda>p. prefix p normalised) paths then Ok normalised else Err VfsPermissionDenied)"

definition resolve_path :: "u64 \<Rightarrow> string \<Rightarrow> app_permissions \<Rightarrow> (vfs_error, string) result" where
  "resolve_path app_id requested permissions = (let home = app_home_dir app_id in
     if prefix [slash] requested then resolve_absolute requested home permissions
     else normalise_within home requested)"

section \<open>Operations\<close>

definition read_all_sandboxed :: "proc_env \<Rightarrow> mem_fs \<Rightarrow> u64 \<Rightarrow> string \<Rightarrow> app_permissions \<Rightarrow> (vfs_error, u8 list) result" where
  "read_all_sandboxed env s app_id path permissions = and_then (resolve_path app_id path permissions) (read_all env s)"

definition write_all_sandboxed :: "u64 \<Rightarrow> string \<Rightarrow> u8 list \<Rightarrow> app_permissions \<Rightarrow> (mem_fs, vfs_error, unit) st" where
  "write_all_sandboxed app_id path data permissions = bind (lift (resolve_path app_id path permissions)) (\<lambda>resolved.
     if prefix (app_home_dir app_id) resolved then write_all resolved data
     else case ap_filesystem permissions of
       ScopeReadWrite paths \<Rightarrow>
         if list_ex (\<lambda>p. prefix p resolved) paths then write_all resolved data else throw VfsPermissionDenied
     | _ \<Rightarrow> throw VfsPermissionDenied)"

text \<open>\<open>f.resolve(path).unwrap_or_else(|| f.mkdir(parent, name).unwrap_or(0))\<close>\<close>

definition ensure_dir :: "string \<Rightarrow> ino \<Rightarrow> string \<Rightarrow> (mem_fs, fs_error, ino) st" where
  "ensure_dir path parent name s = (case fs_resolve s path of
     Some i \<Rightarrow> (Ok i, s)
   | None \<Rightarrow> (case mkdir parent name s of
       (Ok i, s') \<Rightarrow> (Ok i, s') | (Err _, s') \<Rightarrow> (Ok 0, s') | (Panic, s') \<Rightarrow> (Panic, s')))"

definition create_app_directory :: "u64 \<Rightarrow> (mem_fs, fs_error, unit) st" where
  "create_app_directory app_id =
     bind (gets (\<lambda>s. case fs_resolve s [slash] of Some i \<Rightarrow> i | None \<Rightarrow> 0)) (\<lambda>root.
     bind (ensure_dir ''/apps'' root ''apps'') (\<lambda>apps_ino.
     bind (ensure_dir ''/apps/data'' apps_ino ''data'') (\<lambda>data_ino.
     ignore (mkdir data_ino (show_nat (unat app_id))))))"

definition remove_app_directory :: "u64 \<Rightarrow> (mem_fs, fs_error, unit) st" where
  "remove_app_directory app_id = bind (gets (\<lambda>s. fs_resolve s ''/apps/data'')) (\<lambda>x.
     case x of Some data_ino \<Rightarrow> ignore (remove_entry data_ino (show_nat (unat app_id))) | None \<Rightarrow> ret ())"

section \<open>Decimal numbers\<close>

lemma digit_char_inj: "a < 10 \<Longrightarrow> b < 10 \<Longrightarrow> digit_char a = digit_char b \<Longrightarrow> a = b"
  by (auto simp: digit_char_def less_Suc_eq numeral_eq_Suc)

lemma digit_char_digit: "a < 10 \<Longrightarrow> digit_char a \<in> set ''0123456789''"
  by (auto simp: digit_char_def less_Suc_eq numeral_eq_Suc)

lemma show_base_snoc: "show_base 10 k = (if k < 10 then [] else show_base 10 (k div 10)) @ [digit_char (k mod 10)]"
  by (subst show_base.simps) simp

lemma show_base_nonempty: "show_base 10 n \<noteq> []"
  by (subst show_base_snoc) simp

lemma show_base_subset:
  assumes "\<And>d. d < 10 \<Longrightarrow> digit_char d \<in> D"
  shows "set (show_base 10 n) \<subseteq> D"
proof (induction n rule: less_induct)
  case (less n)
  then show ?case using assms [of "n mod 10"] by (subst show_base_snoc) simp
qed

lemma show_nat_digits: "set (show_nat n) \<subseteq> set ''0123456789''" and show_nat_nonempty: "show_nat n \<noteq> []"
  unfolding show_nat_def by (rule show_base_subset, erule digit_char_digit) (rule show_base_nonempty)

lemma show_base_inj: "show_base 10 n = show_base 10 m \<Longrightarrow> n = m"
proof (induction n arbitrary: m rule: less_induct)
  case (less n)
  let ?front = "\<lambda>k. if k < 10 then [] else show_base 10 (k div 10)"
  have eq: "?front n @ [digit_char (n mod 10)] = ?front m @ [digit_char (m mod 10)]"
    using less.prems show_base_snoc [of n] show_base_snoc [of m] by metis
  then have last: "n mod 10 = m mod 10" by (intro digit_char_inj) simp_all
  have front: "?front n = ?front m" using eq by (simp only: append1_eq_conv)
  show ?case
  proof (cases "n < 10")
    case True
    then have "m < 10" using front show_base_nonempty [of "m div 10"] by (simp split: if_splits)
    then show ?thesis using True last by simp
  next
    case False
    then have "\<not> m < 10" using front show_base_nonempty [of "n div 10"] by (auto split: if_splits)
    then have "n div 10 = m div 10" using False front less.IH [of "n div 10" "m div 10"] by simp
    then show ?thesis using last by (metis div_mult_mod_eq)
  qed
qed

lemma show_nat_inj: "show_nat n = show_nat m \<Longrightarrow> n = m"
  by (simp add: show_nat_def show_base_inj)

section \<open>Requests stay inside the home directory\<close>

text \<open>A name that a path may descend by: no separator, not empty and not a dot.\<close>

definition plain :: "string \<Rightarrow> bool" where
  "plain y \<longleftrightarrow> y \<noteq> [] \<and> \<not> dot y \<and> slash \<notin> set y"

lemma plain_id: "plain (show_nat n)"
  using show_nat_digits [of n] show_nat_nonempty [of n] by (auto simp: plain_def dot_def)

lemma split_on_plain: "\<forall>y\<in>set (split_on c xs). c \<notin> set y"
  by (induction xs) (auto split: list.splits)

lemma normal_parts_below:
  assumes "normal_parts (length base) cs (base @ xs) = Ok parts" and "\<forall>y\<in>set cs. slash \<notin> set y" and "\<forall>y\<in>set xs. plain y"
  shows "\<exists>ys. parts = base @ ys \<and> (\<forall>y\<in>set ys. plain y)"
  using assms
proof (induction cs arbitrary: xs)
  case (Cons c cs)
  consider (skip) "c = [] \<or> c = ''.''" | (up) "c = ''..''" | (down) "plain c"
    using Cons.prems(2) by (auto simp: plain_def dot_def)
  then show ?case
  proof cases
    case up
    then have "xs \<noteq> []" using Cons.prems(1) by auto
    then have "normal_parts (length base) cs (base @ butlast xs) = Ok parts" using Cons.prems(1) up by (simp add: butlast_append)
    then show ?thesis using Cons.IH [of "butlast xs"] Cons.prems by (auto dest: in_set_butlastD)
  next
    case down
    then have "normal_parts (length base) cs (base @ (xs @ [c])) = Ok parts" using Cons.prems(1) by (auto simp: plain_def dot_def)
    then show ?thesis using Cons.IH [of "xs @ [c]"] Cons.prems down by auto
  qed (use Cons in auto)
qed auto

abbreviation path_of :: "string list \<Rightarrow> string" where
  "path_of ps \<equiv> concat (map (\<lambda>p. slash # p) ps)"

lemma join_parts_path: "ps \<noteq> [] \<Longrightarrow> slash # join_parts ps = path_of ps"
  by (induction ps rule: join_parts.induct) auto

abbreviation home_parts :: "u64 \<Rightarrow> string list" where
  "home_parts app_id \<equiv> [''apps'', ''data'', show_nat (unat app_id)]"

lemma home_path: "app_home_dir app_id = path_of (home_parts app_id)"
  by (simp add: app_home_dir_def)

lemma trim_end_home: "trim_end (app_home_dir app_id) = app_home_dir app_id"
proof -
  obtain ds d where d: "show_nat (unat app_id) = ds @ [d]" using show_nat_nonempty by (metis rev_exhaust)
  then have "d \<noteq> slash" using plain_id [of "unat app_id"] by (auto simp: plain_def)
  then show ?thesis by (simp add: app_home_dir_def trim_end_def d)
qed

lemma split_path_of:
  "\<forall>p\<in>set ps. slash \<notin> set p \<Longrightarrow> split_on slash (path_of ps) = [] # ps"
proof (induction ps)
  case (Cons p ps)
  have "split_on slash (p @ path_of ps) = p # ps"
  proof (cases ps)
    case Nil then show ?thesis using Cons.prems by (simp add: split_on_none)
  next
    case qs: (Cons q qs)
    then show ?thesis using Cons.IH Cons.prems by (simp add: split_on_append split_on_none)
  qed
  then show ?case by simp
qed simp

lemma normalise_home:
  "normalise_within (app_home_dir app_id) raw =
     and_then (normal_parts 3 (split_on slash raw) (home_parts app_id)) (\<lambda>parts.
       if prefix (app_home_dir app_id) (slash # join_parts parts) then Ok (slash # join_parts parts) else Err VfsPermissionDenied)"
proof -
  have p: "\<forall>p\<in>set (home_parts app_id). slash \<notin> set p" using plain_id by (simp add: plain_def)
  then have "filter (\<lambda>p. p \<noteq> []) (split_on slash (app_home_dir app_id)) = home_parts app_id"
    unfolding home_path split_path_of [OF p] using show_nat_nonempty by simp
  moreover have "length (filter (\<lambda>c. c = slash) (app_home_dir app_id)) = 3"
    using p by (auto simp: app_home_dir_def filter_empty_conv)
  ultimately show ?thesis by (simp add: normalise_within_def trim_end_home Let_def)
qed

lemma relative_below_home:
  assumes "\<not> prefix [slash] requested" and "resolve_path app_id requested permissions = Ok path"
  obtains ys where "path = path_of (home_parts app_id @ ys)" and "\<forall>y\<in>set ys. plain y"
proof -
  obtain parts where parts: "normal_parts 3 (split_on slash requested) (home_parts app_id) = Ok parts" "path = slash # join_parts parts"
    using assms by (auto simp: resolve_path_def Let_def normalise_home split: if_splits)
  obtain ys where ys: "parts = home_parts app_id @ ys" "\<forall>y\<in>set ys. plain y"
    using normal_parts_below [of "home_parts app_id" "split_on slash requested" "[]" parts] parts(1) split_on_plain
    by (auto simp: numeral_3_eq_3)
  then have "path = path_of (home_parts app_id @ ys)" using parts(2) join_parts_path [of parts] by simp
  then show thesis using ys(2) that by blast
qed

text \<open>
  C15. A relative request cannot leave the home directory: a path that it is resolved to is the
  home directory of the application followed by names that are neither empty nor a dot nor a
  double dot and have no separator in them, whatever the request is and whatever the
  permissions are.
\<close>

theorem sandbox_confined:
  assumes "\<not> prefix ''/'' requested" and "resolve_path app_id requested permissions = Ok path"
  shows "\<exists>ys. path = app_home_dir app_id @ concat (map (\<lambda>y. ''/'' @ y) ys)
    \<and> (\<forall>y\<in>set ys. y \<noteq> [] \<and> y \<noteq> ''.'' \<and> y \<noteq> ''..'' \<and> CHR ''/'' \<notin> set y)"
proof -
  obtain ys where "path = path_of (home_parts app_id @ ys)" "\<forall>y\<in>set ys. plain y"
    by (rule relative_below_home [OF assms])
  then show ?thesis by (intro exI [of _ ys]) (auto simp: home_path plain_def dot_def)
qed

theorem sandbox_confined_witness:
  "resolve_path 42 ''a/../b/./c'' default_web_app = Ok ''/apps/data/42/b/c''
   \<and> (\<exists>ys. ''/apps/data/42/b/c'' = app_home_dir 42 @ concat (map (\<lambda>y. ''/'' @ y) ys))"
proof -
  have r: "resolve_path 42 ''a/../b/./c'' default_web_app = Ok ''/apps/data/42/b/c''" by code_simp
  have "\<not> prefix ''/'' ''a/../b/./c''" by simp
  from sandbox_confined [OF this r] r show ?thesis by blast
qed

section \<open>Applications do not see each other's files\<close>

lemma resolve_path_of:
  "\<forall>p\<in>set ps. slash \<notin> set p \<Longrightarrow> fs_resolve s (path_of ps) = resolve_from s ps ROOT_INO"
  by (simp only: fs_resolve_split split_path_of) simp

lemma homes_apart:
  assumes "fs_sound s" and "a \<noteq> b" and "\<forall>y\<in>set xs. plain y" and "\<forall>y\<in>set ys. plain y"
    and "fs_resolve s (path_of (home_parts a @ xs)) = Some i" and "fs_resolve s (path_of (home_parts b @ ys)) = Some j"
  shows "i \<noteq> j"
proof
  assume "i = j"
  have plain: "\<forall>y\<in>set (home_parts c @ zs). plain y" if "\<forall>y\<in>set zs. plain y" for c zs
    using that plain_id by (auto simp: plain_def dot_def)
  have res: "fs_resolve s (path_of (home_parts c @ zs)) = resolve_from s (home_parts c @ zs) ROOT_INO"
    if "\<forall>y\<in>set zs. plain y" for c zs
    by (rule resolve_path_of) (use plain [OF that] in \<open>unfold plain_def, blast\<close>)
  have "home_parts a @ xs = home_parts b @ ys"
  proof (rule ordinary_path_unique [OF assms(1)])
    show "resolve_from s (home_parts a @ xs) ROOT_INO = Some i" using assms(5) res [OF assms(3)] by metis
    show "resolve_from s (home_parts b @ ys) ROOT_INO = Some i" using assms(6) res [OF assms(4)] \<open>i = j\<close> by metis
    show "\<forall>x\<in>set (home_parts a @ xs) \<union> set (home_parts b @ ys). x \<noteq> [] \<and> \<not> dot x"
      using plain [OF assms(3), of a] plain [OF assms(4), of b] unfolding plain_def by blast
  qed
  then have "show_nat (unat a) = show_nat (unat b)" by simp
  then show False using show_nat_inj assms(2) by (metis word_unat_eq_iff)
qed

lemma write_relative:
  assumes "\<not> prefix [slash] p"
  obtains (same) "snd (write_all_sandboxed a p data perms s) = s"
  | (wrote) path s' where "resolve_path a p perms = Ok path" "write_all path data s = (Ok (), s')"
      "snd (write_all_sandboxed a p data perms s) = s'"
proof (cases "resolve_path a p perms")
  case (Ok path)
  obtain ys where "path = path_of (home_parts a @ ys)" by (rule relative_below_home [OF assms Ok])
  then have "prefix (app_home_dir a) path" by (simp add: home_path)
  then have w: "write_all_sandboxed a p data perms s = write_all path data s"
    using Ok by (simp add: write_all_sandboxed_def bind_def lift_def)
  obtain r s' where rs: "write_all path data s = (r, s')" by force
  show ?thesis
  proof (cases "r = Ok ()")
    case True then show ?thesis using wrote [OF Ok, of s'] w rs by simp
  next
    case False then show ?thesis using same w rs write_all_failed [OF rs] by simp
  qed
qed (use same in \<open>simp_all add: write_all_sandboxed_def bind_def lift_def\<close>)

text \<open>
  C14. Isolation: with relative paths, what one application writes does not change what another
  one reads, be it contents or an error. The file system may have been brought about by any
  sequence of operations (with moves only of ordinary entries into directories), the permissions are arbitrary, and the write may succeed or fail.
\<close>

theorem sandbox_isolation:
  assumes "s = snd (run (fs_step env) ops (snd fs_init))" and "a \<noteq> b"
    and "\<not> prefix ''/'' p" and "\<not> prefix ''/'' q"
  shows "read_all_sandboxed env' (snd (write_all_sandboxed a p data perms s)) b q perms'
    = read_all_sandboxed env' s b q perms'"
proof -
  have sound: "fs_sound s" unfolding assms(1) by (rule mfs_tree.inv_run [OF fs_init_sound])
  show ?thesis
    using assms(3)
  proof (cases rule: write_relative [of p a data perms s])
    case (wrote x s')
    have wf: "fs_wf s" and sound': "fs_sound s'"
      using sound preservesD [OF write_all_sound sound wrote(2)] by (simp_all add: fs_sound_def)
    obtain t where w: "wrote env' data t s s'" and t: "fs_resolve s' x = Some t" by (rule write_all_wrote [OF wf wrote(2)])
    obtain xs where xs: "x = path_of (home_parts a @ xs)" "\<forall>y\<in>set xs. plain y" by (rule relative_below_home [OF assms(3) wrote(1)])
    show ?thesis
    proof (cases "resolve_path b q perms'")
      case (Ok y)
      obtain ys where ys: "y = path_of (home_parts b @ ys)" "\<forall>y\<in>set ys. plain y" by (rule relative_below_home [OF assms(4) Ok])
      have "read_all env' s' y = read_all env' s y"
      proof (cases "fs_resolve s' y")
        case None
        then have "fs_resolve s y = None" using wrote_resolve [OF w, of y] by (cases "fs_resolve s y") simp_all
        then show ?thesis using None by (simp add: read_all_def)
      next
        case (Some j)
        then have "j \<noteq> t"
          using homes_apart [OF sound' assms(2) xs(2) ys(2)] t unfolding xs(1) ys(1) by blast
        then have "fs_resolve s y = Some j" by (rule wrote_resolve_back [OF w _ Some])
        then show ?thesis
          using Some wroteD(4) [OF w \<open>j \<noteq> t\<close> resolve_exists [OF wf]] by (simp add: read_all_def)
      qed
      then show ?thesis using Ok wrote(3) by (simp add: read_all_sandboxed_def)
    qed (simp_all add: read_all_sandboxed_def)
  qed simp
qed

theorem sandbox_isolation_witness:
  "read_all_sandboxed sample_env
     (snd (write_all_sandboxed 1 ''notes'' [1, 2] default_web_app (snd (run (fs_step sample_env) [FsMkdir ROOT_INO ''apps''] (snd fs_init)))))
     2 ''notes'' default_web_app
   = read_all_sandboxed sample_env (snd (run (fs_step sample_env) [FsMkdir ROOT_INO ''apps''] (snd fs_init))) 2 ''notes'' default_web_app"
  by (rule sandbox_isolation [OF refl]) simp_all

section \<open>Absolute paths\<close>

text \<open>An absolute path in normal form is its own normal form.\<close>

lemma normal_parts_plain: "\<forall>y\<in>set cs. plain y \<Longrightarrow> normal_parts d cs xs = Ok (xs @ cs)"
  by (induction cs arbitrary: xs) (auto simp: plain_def dot_def)

lemma normalise_plain:
  assumes "\<forall>y\<in>set ps. plain y" and "ps \<noteq> []"
  shows "normalise_within [slash] (path_of ps) = Ok (path_of ps)"
proof -
  have "split_on slash (path_of ps) = [] # ps" using assms(1) by (intro split_path_of) (simp add: plain_def)
  then show ?thesis
    using normal_parts_plain [OF assms(1), of 0 "[]"] join_parts_path [OF assms(2)]
    by (simp add: normalise_within_def trim_end_def Let_def)
qed

text \<open>
  C21. With an absolute path, isolation fails: an application whose number is a proper beginning of
  another one's number, such as 1 and 10, may use every file of the other home directory, reading
  and writing, whatever its permissions. The home directory is compared as a string, without
  the separator that ends it.
\<close>

theorem sandbox_prefix_escape:
  assumes "prefix (show_nat (unat a)) (show_nat (unat b))" and "\<forall>y\<in>set ys. plain y"
    and "path = app_home_dir b @ concat (map (\<lambda>y. ''/'' @ y) ys)"
  shows "resolve_path a path perms = Ok path
    \<and> read_all_sandboxed env s a path perms = read_all env s path
    \<and> write_all_sandboxed a path data perms s = write_all path data s"
proof -
  have path: "path = path_of (home_parts b @ ys)" using assms(3) by (simp add: home_path)
  have "\<forall>y\<in>set (home_parts b @ ys). plain y" using assms(2) plain_id by (auto simp: plain_def dot_def)
  then have "normalise_within [slash] path = Ok path" unfolding path by (rule normalise_plain) simp
  moreover have home: "prefix (app_home_dir a) path"
    using assms(1,3) by (auto simp: app_home_dir_def prefix_def)
  moreover have "prefix [slash] path" by (simp add: assms(3) app_home_dir_def)
  ultimately have "resolve_path a path perms = Ok path"
    by (simp add: resolve_path_def resolve_absolute_def Let_def)
  then show ?thesis using home by (simp add: read_all_sandboxed_def write_all_sandboxed_def bind_def lift_def)
qed

theorem sandbox_prefix_escape_witness:
  "resolve_path 1 ''/apps/data/10/secret'' default_web_app = Ok ''/apps/data/10/secret''"
proof -
  have p: "prefix (show_nat (unat (1 :: u64))) (show_nat (unat (10 :: u64)))" by code_simp
  have y: "\<forall>y\<in>set [''secret'']. plain y" by (simp add: plain_def dot_def)
  have "''/apps/data/10/secret'' = app_home_dir 10 @ concat (map (\<lambda>y. ''/'' @ y) [''secret''])" by code_simp
  from sandbox_prefix_escape [OF p y this] show ?thesis by blast
qed

text \<open>An application that is removed leaves its files behind: a home directory with entries stays.\<close>

lemma remove_app_directory_keeps_files:
  assumes "fs_resolve s ''/apps/data'' = Some d" and "fs_lookup s d (show_nat (unat app_id)) = Some home" and "nonempty_dir s home"
  shows "remove_app_directory app_id s = (Ok (), s)"
proof -
  have n: "\<not> dot (show_nat (unat app_id))" using plain_id by (simp add: plain_def)
  have "remove_entry d (show_nat (unat app_id)) s = (Err FsDirectoryNotEmpty, s)"
  proof (cases rule: dir_entries_cases [of d s])
    case (dir e)
    then have "map_of e (show_nat (unat app_id)) = Some home" using assms(2) by (simp add: lookup_readdir)
    then show ?thesis using n dir assms(3)
      by (simp add: remove_entry_def bind_def lift_def gets_def throw_def dot_def)
  next
    case (error x)
    then show ?thesis using assms(2)
      by (auto simp: dir_entries_def fs_lookup_def split: option.splits inode_content.splits)
  qed
  then show ?thesis using assms(1) by (simp add: remove_app_directory_def bind_def gets_def ignore_def)
qed

text \<open>
  The two permission checks disagree about system applications: an empty list of writable paths
  means everything to the one and nothing to the other.
\<close>

lemma system_app_checks_differ:
  assumes "\<forall>y\<in>set ps. plain y" and "ps \<noteq> []" and "\<not> prefix (app_home_dir a) (path_of ps)"
    and "\<not> list_ex (\<lambda>allowed. prefix allowed (path_of ps)) GLOBAL_READ_PATHS"
  shows "check_fs system_app (app_home_dir a) (path_of ps) write \<and> resolve_path a (path_of ps) system_app = Err VfsPermissionDenied"
proof -
  have "prefix [slash] (path_of ps)" using assms(2) by (cases ps) auto
  then show ?thesis
    using assms normalise_plain [OF assms(1,2)]
    by (simp add: check_fs_def resolve_path_def resolve_absolute_def system_app_def Let_def)
qed

end
