(* ===== verification/Spec2Isabelle.thy ===== *)
theory Spec2Isabelle
  imports Wasm_Typing Wasm_Engine Wasm_Encode Signals Ipc Mqueue Shm X25519 Chacha20 Buddy Elf Sandbox
begin

text \<open>
  Verification library for KPIO OS, an operating system in Rust that runs WebAssembly
  applications on a kernel with its own memory management, processes, inter-process
  communication, file system, cryptography and browser.

  \<^bold>\<open>How the modelled parts fit together.\<close> The kernel hands out memory with the buddy allocator
  and reads programs with the ELF loader. Processes have a signal state and talk to each
  other over channels, message queues and shared memory, with capabilities as rights. Files live
  in an in-memory file system, reached by path or by descriptor, and applications reach it
  through a sandbox. WebAssembly modules are parsed, validated, instantiated and executed by
  the runtime. The TLS stack uses ChaCha20-Poly1305 and X25519.

  \<^bold>\<open>Foundations.\<close>
  \<^item> \<open>Prelude\<close>: machine integers, the outcome of a Rust call (\<open>Ok\<close>, \<open>Err\<close>, \<open>Panic\<close>), state
    passing with early exit, preservation of invariants (\<open>preserves\<close>, collection \<open>pres\<close>),
    little-endian bytes, decimal numbers, UTF-8.
  \<^item> \<open>Steps\<close>: sequences of operations, with the locales \<open>op_invariant\<close>, \<open>budget_invariant\<close> and
    \<open>op_simulation\<close>, which the components instantiate with their own operations.
  \<^item> \<open>Limbs\<close>: arithmetic of numbers in five limbs, shared by the two cryptographic components.

  \<^bold>\<open>The WebAssembly runtime (src/runtime/src).\<close>
  \<^item> \<open>Wasm_Syntax\<close> is the data of module.rs and opcodes.rs; \<open>Wasm_Opcodes\<close> has the operand
    counts and mnemonics of opcodes.rs, compared with the executor.
  \<^item> \<open>Wasm_Memory\<close> is memory.rs: bounds, growth, and round trips of stores and loads.
  \<^item> \<open>Wasm_Interp\<close> is interpreter.rs: values, stacks, frames, tables, globals.
  \<^item> \<open>Wasm_Numeric\<close>, \<open>Wasm_Float\<close> and \<open>Wasm_Exec\<close> are executor.rs: \<open>execute_instruction\<close> is the
    dispatch, \<open>exec_step\<close> one turn of the main loop, \<open>exec_loop\<close> the loop and
    \<open>execute_function\<close> the entry point. \<open>Wasm_Exec_Props\<close> shows termination under fuel, safety of
    memories and tables, the search for block ends, and two errors in the handling of branches and
    returns. \<open>Wasm_Typing\<close> shows that typed code without jumps has no type errors.
  \<^item> \<open>Wasm_Reader\<close>, \<open>Wasm_Parser\<close> and \<open>Wasm_Validate\<close> are parser.rs and the loading functions of
    module.rs: LEB128 round trips, error offsets inside the input, the exact meaning of
    validation. \<open>Wasm_Encode\<close> specifies the binary format of instructions and shows that the
    decoder inverts it.
  \<^item> \<open>Wasm_Engine\<close> is instance.rs and engine.rs: from bytes to the result of a call.

  \<^bold>\<open>The kernel (src/kernel/src).\<close>
  \<^item> \<open>Signals\<close> is process/signal.rs: delivery is complete, in order and without repetition.
  \<^item> \<open>Ipc\<close> is ipc/message.rs, ipc/channel.rs, ipc/capability.rs and ipc/mod.rs: first in, first out
    on every channel, no amplification of rights.
  \<^item> \<open>Mqueue\<close> is ipc/mqueue.rs: refinement of one list ordered by priority.
  \<^item> \<open>Shm\<close> is ipc/shm.rs: the accounting of regions.
  \<^item> \<open>Buddy\<close> is memory/buddy.rs: blocks never overlap, and no byte is counted twice.
  \<^item> \<open>Elf\<close> is loader/elf.rs: what a parsed program guarantees to the code that maps it.
  \<^item> \<open>Chacha20\<close> and \<open>X25519\<close> are net/crypto/chacha20.rs and net/crypto/x25519.rs: the value of each
    routine on numbers, compared with the standards.
  \<^item> \<open>Memfs\<close> is terminal/fs.rs: the record \<open>mem_fs\<close> is \<open>MemFs\<close>, each method is a definition of its
    name (\<open>remove\<close> is \<open>remove_entry\<close>; \<open>init\<close>, \<open>resolve\<close>, \<open>lookup\<close> and \<open>tick\<close> have the prefix \<open>fs_\<close>).
    \<open>fs_wf\<close> is the invariant of all operations, where entries are moved under ordinary names and into
    directories; \<open>rename_loses_entry\<close> shows what a move elsewhere does. \<open>fs_sound\<close> adds that no ordinary entry leads to the root, so that paths of ordinary names are unique.
  \<^item> \<open>Vfs\<close> is vfs/mod.rs and vfs/fd.rs: a write is read back and changes nothing else
    (\<open>wrote\<close>), reads of a descriptor are consecutive, descriptors are not shared.
  \<^item> \<open>Sandbox\<close> is vfs/sandbox.rs and the checks of app/permissions.rs: confinement of relative
    paths and, from it and the invariant of the file system, isolation of applications; and the
    absolute paths for which isolation fails.

  \<^bold>\<open>Conventions.\<close> Plain arithmetic that overflows panics; casts and \<open>wrapping_\<close> operations wrap
  around. \<open>usize\<close> is \<open>nat\<close> with its limit \<open>2\<^sup>64\<close> written out where a sum can reach it. Code that is
  not part of the repository and the host functions of a module are parameters. Locks
  are not modelled: each call of an interface is one step, and the properties over sequences of
  calls hold for every order of them. A \<open>BTreeMap\<close> is a partial function, or a sorted list where the
  code iterates over it.

  \<^bold>\<open>Loops, fuel and bounds.\<close> Loops over data are structural recursion. \<open>exec_loop\<close> and the walks
  along free lists are partial functions whose value is \<open>None\<close> when they do not end. The
  executor's own fuel counter ends \<open>exec_loop\<close>: each turn that executes an instruction consumes a
  unit and every other turn leaves a call frame; the hypothesis \<open>host_burns\<close> says that host functions add
  no fuel. The invariant of the allocator makes its lists acyclic, which ends the walks. The area of the
  allocator is at most \<open>2\<^sup>10\<close> pages, the largest block the code has. The properties of \<open>Shm\<close> hold for
  as many calls as the counter of identifiers has values left.

  \<^bold>\<open>Not modelled.\<close> Drivers, interrupts, paging, context switches, system call entry and the JIT
  compiler work on hardware registers, raw memory or machine code. WASI and the other host
  functions reach clocks, sockets and files outside the model. The network stack, TLS, the other
  cryptographic primitives, the application registry and the persistence of permissions, storage,
  the user interface, the browser crates, the user library and the tools are
  independent of the modelled parts and outside the scope of this library. Of terminal/fs.rs the display
  of modes, the sizes of trees and the uptime, which only read, are left out.
\<close>

end
